theory Spec2Isabelle
  imports Main "HOL-Library.Sublist" "HOL-Library.AList"
begin

text \<open>
  A shallow embedding of the core of etz: the build process tracker (build.ts), the git
  operations (operations.ts), the creation of worktrees (switch.ts) and their removal
  (the clean command), with the properties the specification claims for them.

  What the program does to the outside is explicit: the functions take the world (file
  system, repositories, builds) and return it changed; what the outside answers (git, a
  refused removal, the home directory) is a parameter.  An exception is a value: a function
  that can throw returns the message of the error on the left of a sum.  Lines printed to
  the console and the progress callbacks of a build are left out.  Strings are ASCII.
\<close>

section \<open>JavaScript strings\<close>

text \<open>
  Strings are lists of characters.  The helpers below are the JavaScript string methods
  the sources call: \<^verbatim>\<open>startsWith\<close>, \<^verbatim>\<open>endsWith\<close>, \<^verbatim>\<open>includes\<close>,
  \<^verbatim>\<open>trim\<close> (on the ASCII white space) and \<^verbatim>\<open>split\<close> on one character.
\<close>

definition startsWith :: "string \<Rightarrow> string \<Rightarrow> bool" where
  "startsWith s p = prefix p s"

definition endsWith :: "string \<Rightarrow> string \<Rightarrow> bool" where
  "endsWith s p = prefix (rev p) (rev s)"

fun str_includes :: "string \<Rightarrow> string \<Rightarrow> bool" where
  "str_includes [] sub = (sub = [])"
| "str_includes (c # s) sub = (prefix sub (c # s) \<or> str_includes s sub)"

definition isWhiteSpace :: "char \<Rightarrow> bool" where
  "isWhiteSpace c = (c \<in> set [CHR 0x09, CHR 0x0A, CHR 0x0B, CHR 0x0C, CHR 0x0D, CHR 0x20])"

definition trim :: "string \<Rightarrow> string" where
  "trim s = rev (dropWhile isWhiteSpace (rev (dropWhile isWhiteSpace s)))"

fun split_on :: "char \<Rightarrow> string \<Rightarrow> string list" where
  "split_on d [] = [[]]"
| "split_on d (c # s) =
     (if c = d then [] # split_on d s
      else (case split_on d s of [] \<Rightarrow> [[c]] | x # xs \<Rightarrow> (c # x) # xs))"

text \<open>A string is truthy when it is present and not empty.\<close>

definition truthy :: "string option \<Rightarrow> bool" where
  "truthy s = (case s of None \<Rightarrow> False | Some v \<Rightarrow> v \<noteq> [])"

text \<open>\<^verbatim>\<open>xs.slice(-n)\<close>: the last \<open>n\<close> elements, all of them when there are fewer.\<close>

definition slice_last :: "nat \<Rightarrow> 'a list \<Rightarrow> 'a list" where
  "slice_last n xs = drop (length xs - n) xs"

fun digit_char :: "nat \<Rightarrow> char" where
  "digit_char n = ''0123456789'' ! (n mod 10)"

fun nat_to_string :: "nat \<Rightarrow> string" where
  "nat_to_string n = (if n < 10 then [digit_char n] else nat_to_string (n div 10) @ [digit_char n])"

section \<open>Label validation (build.ts, switch.ts)\<close>

text \<open>
  \<^verbatim>\<open>path.isAbsolute\<close> of the POSIX flavour of Node's path module: the path starts with a
  slash.
\<close>

definition path_isAbsolute :: "string \<Rightarrow> bool" where
  "path_isAbsolute p = (case p of [] \<Rightarrow> False | c # _ \<Rightarrow> c = CHR ''/'')"

text \<open>
  \<^verbatim>\<open>validateLabel\<close> throws or returns nothing: the model returns the message of the
  thrown error, or \<open>None\<close> when the label passes.
\<close>

definition validateLabel :: "string \<Rightarrow> string option" where
  "validateLabel l =
     (if str_includes l ''..'' \<or> str_includes l ''/'' \<or> str_includes l [CHR 0x5C]
      then Some ''Invalid label: cannot contain path separators or traversal sequences''
      else if path_isAbsolute l
      then Some ''Invalid label: cannot be an absolute path''
      else if l = [] \<or> length (trim l) = 0
      then Some ''Invalid label: cannot be empty''
      else None)"

section \<open>Paths (Node's path module, POSIX flavour)\<close>

text \<open>
  The sources build every path with \<^verbatim>\<open>path.join\<close>, \<^verbatim>\<open>path.normalize\<close> and
  \<^verbatim>\<open>path.dirname\<close> and read \<^verbatim>\<open>path.sep\<close>.  These belong to the platform, not to the
  repository; they are modelled after Node's documentation and implementation for POSIX paths.
  Normalising works on the segments between slashes: empty segments and \<^verbatim>\<open>.\<close> vanish,
  \<^verbatim>\<open>..\<close> removes the segment before it, and is kept at the front of a relative path only.
\<close>

definition path_sep :: string where
  "path_sep = ''/''"

fun join_with :: "string \<Rightarrow> string list \<Rightarrow> string" where
  "join_with d [] = []"
| "join_with d [x] = x"
| "join_with d (x # y # ys) = x @ d @ join_with d (y # ys)"

fun normalize_segments :: "bool \<Rightarrow> string list \<Rightarrow> string list \<Rightarrow> string list" where
  "normalize_segments allowAboveRoot res [] = rev res"
| "normalize_segments allowAboveRoot res (seg # segs) =
     (if seg = [] \<or> seg = ''.'' then normalize_segments allowAboveRoot res segs
      else if seg = ''..'' then
        (case res of
           [] \<Rightarrow> normalize_segments allowAboveRoot (if allowAboveRoot then [''..''] else []) segs
         | lastSegment # others \<Rightarrow>
             if lastSegment = ''..''
             then normalize_segments allowAboveRoot (if allowAboveRoot then ''..'' # res else res) segs
             else normalize_segments allowAboveRoot others segs)
      else normalize_segments allowAboveRoot (seg # res) segs)"

definition path_normalize :: "string \<Rightarrow> string" where
  "path_normalize p =
     (if p = [] then ''.''
      else
        (let isAbsolute = (hd p = CHR ''/'');
             trailingSeparator = (last p = CHR ''/'');
             res = join_with ''/'' (normalize_segments (\<not> isAbsolute) [] (split_on (CHR ''/'') p))
         in if res = [] then (if isAbsolute then ''/'' else if trailingSeparator then ''./'' else ''.'')
            else (if isAbsolute then ''/'' else []) @ res @ (if trailingSeparator then ''/'' else [])))"

definition path_join :: "string list \<Rightarrow> string" where
  "path_join parts =
     (let joined = join_with ''/'' (filter (\<lambda>arg. length arg > 0) parts)
      in if joined = [] then ''.'' else path_normalize joined)"

text \<open>
  \<^verbatim>\<open>path.dirname\<close>: scanning from the end and never looking at the first character, skip
  the trailing slashes and the last segment; the directory is what lies before the slash
  found there.
\<close>

definition path_dirname :: "string \<Rightarrow> string" where
  "path_dirname p =
     (if p = [] then ''.''
      else
        (let hasRoot = (hd p = CHR ''/'');
             front = dropWhile (\<lambda>c. c \<noteq> CHR ''/'') (dropWhile (\<lambda>c. c = CHR ''/'') (rev (tl p)))
         in if front = [] then (if hasRoot then ''/'' else ''.'')
            else if hasRoot \<and> length front = 1 then ''//''
            else take (length front) p))"

text \<open>
  What the containment check of \<^verbatim>\<open>clean\<close> is meant to establish, said with the segments
  of the paths and not with their characters: a path lies below a directory when, both
  normalised, they are both absolute or both relative, the segments of the directory are
  the first segments of the path, and the path has more of them.  This relation is not
  in the program; it is what the program's test on strings is compared with.  A plain
  segment is a non-empty string without a slash.
\<close>

definition segments :: "string \<Rightarrow> string list" where
  "segments p = filter (\<lambda>seg. seg \<noteq> []) (split_on (CHR ''/'') p)"

definition descendant :: "string \<Rightarrow> string \<Rightarrow> bool" where
  "descendant root p =
     (path_isAbsolute (path_normalize root) = path_isAbsolute (path_normalize p) \<and>
      strict_prefix (segments (path_normalize root)) (segments (path_normalize p)))"

definition plain_segment :: "string \<Rightarrow> bool" where
  "plain_segment x = (x \<noteq> [] \<and> CHR ''/'' \<notin> set x)"

text \<open>
  The shape of a normalised path that is not one of \<^verbatim>\<open>.\<close>, \<^verbatim>\<open>./\<close> and \<^verbatim>\<open>/\<close>: plain
  segments other than \<^verbatim>\<open>.\<close>, joined by slashes, with or without a slash before and after.
\<close>

definition framed :: "string \<Rightarrow> string list \<Rightarrow> string \<Rightarrow> bool" where
  "framed pre segs post =
     ((pre = [] \<or> pre = ''/'') \<and> (post = [] \<or> post = ''/'') \<and> segs \<noteq> [] \<and>
      list_all (\<lambda>s. plain_segment s \<and> s \<noteq> ''.'') segs)"

section \<open>The build process tracker (build.ts)\<close>

datatype build_type = pod_install | build_infra_ios | build_ios | build_android

fun type_name :: "build_type \<Rightarrow> string" where
  "type_name pod_install = ''pod_install''"
| "type_name build_infra_ios = ''build_infra_ios''"
| "type_name build_ios = ''build_ios''"
| "type_name build_android = ''build_android''"

text \<open>
  An entry of the registry \<^verbatim>\<open>activeBuilds\<close>.  The child process is named by its number
  in the table of spawned processes.
\<close>

record ActiveBuild =
  label :: string
  btype :: build_type
  process :: nat
  startTime :: nat
  outputBuffer :: "string list"

definition MAX_OUTPUT_BUFFER_SIZE :: nat where
  "MAX_OUTPUT_BUFFER_SIZE = 500"

definition getBuildKey :: "string \<Rightarrow> string \<Rightarrow> string" where
  "getBuildKey l ty = l @ '':'' @ ty"

text \<open>
  The fields of \<^verbatim>\<open>BuildProcessConfig\<close> that reach the registry or the child process; the
  stage, the two messages and \<^verbatim>\<open>estimateProgress\<close> only feed the progress callback,
  which is not modelled.
\<close>

record BuildProcessConfig =
  cfg_label :: string
  cfg_type :: build_type
  command :: string
  args :: "string list"
  cwd :: string

datatype build_reply = BuildReply (reply_success: bool) (reply_output: string) (reply_error: "string option")

text \<open>
  One call of \<^verbatim>\<open>runBuildProcess\<close> or \<^verbatim>\<open>buildIOS\<close> that reached \<^verbatim>\<open>spawn\<close>: what its
  handlers close over (the configuration, and whether they are the handlers of
  \<^verbatim>\<open>buildIOS\<close>, which export the archive when the child closes), the two strings they
  accumulate, and the value its promise resolved with, once the child has closed.
\<close>

record child =
  spawn_config :: BuildProcessConfig
  archive :: bool
  outputText :: string
  errorOutput :: string
  resolved :: "build_reply option"

text \<open>
  The state of the module: the registry (a JavaScript \<^verbatim>\<open>Map\<close>, so an association list
  in insertion order), the children spawned so far, the children that were sent a kill
  signal, and the clock read by \<^verbatim>\<open>Date.now()\<close>.
\<close>

record tracker =
  activeBuilds :: "(string \<times> ActiveBuild) list"
  children :: "child list"
  killed :: "nat list"
  clock :: nat

definition no_builds :: tracker where
  "no_builds = \<lparr>activeBuilds = [], children = [], killed = [], clock = 0\<rparr>"

text \<open>
  \<^verbatim>\<open>runBuildProcess\<close> up to the point where it returns its promise: either the promise is
  already resolved with a rejection, or a child was spawned and registered and the promise
  is pending.
\<close>

datatype start_result = Resolved build_reply | Pending nat

definition runBuildProcess :: "BuildProcessConfig \<Rightarrow> tracker \<Rightarrow> start_result \<times> tracker" where
  "runBuildProcess c t =
     (case validateLabel (cfg_label c) of
        Some msg \<Rightarrow> (Resolved (BuildReply False [] (Some msg)), t)
      | None \<Rightarrow>
          (let buildKey = getBuildKey (cfg_label c) (type_name (cfg_type c)) in
           if map_of (activeBuilds t) buildKey \<noteq> None
           then (Resolved (BuildReply False [] (Some (type_name (cfg_type c) @ '' already in progress''))), t)
           else
             (let pid = length (children t) in
              (Pending pid,
               t\<lparr>children := children t @
                    [\<lparr>spawn_config = c, archive = False, outputText = [], errorOutput = [],
                      resolved = None\<rparr>],
                 activeBuilds := AList.update buildKey
                    \<lparr>label = cfg_label c, btype = cfg_type c, process = pid,
                     startTime = clock t, outputBuffer = []\<rparr> (activeBuilds t)\<rparr>))))"

text \<open>
  \<^verbatim>\<open>buildIOS\<close> keeps the registry by itself, under the type \<^verbatim>\<open>build_ios\<close>.  Of the
  \<^verbatim>\<open>BuildResult\<close> it resolves with, the model keeps the success flag, the output and the
  error; platform and repository are constants and the duration is left out.
\<close>

definition buildIOS :: "string \<Rightarrow> string \<Rightarrow> tracker \<Rightarrow> start_result \<times> tracker" where
  "buildIOS worktreesDir l t =
     (case validateLabel l of
        Some msg \<Rightarrow> (Resolved (BuildReply False [] (Some msg)), t)
      | None \<Rightarrow>
          (let iosRepoPath = path_join [path_join [worktreesDir, l], ''project.ios''];
               buildKey = getBuildKey l ''build_ios''
           in if map_of (activeBuilds t) buildKey \<noteq> None
              then (Resolved (BuildReply False [] (Some ''iOS build already in progress'')), t)
              else
                (let archivePath = path_join [iosRepoPath, ''build'', ''Project.xcarchive''];
                     pid = length (children t)
                 in (Pending pid,
                     t\<lparr>children := children t @
                          [\<lparr>spawn_config =
                              \<lparr>cfg_label = l, cfg_type = build_ios, command = ''xcodebuild'',
                               args = [''-workspace'', ''Project.xcworkspace'', ''-scheme'', ''Project-Staging'',
                                       ''-configuration'', ''Debug'', ''-archivePath'', archivePath,
                                       ''archive'', ''-allowProvisioningUpdates''],
                               cwd = iosRepoPath\<rparr>,
                            archive = True, outputText = [], errorOutput = [], resolved = None\<rparr>],
                       activeBuilds := AList.update buildKey
                          \<lparr>label = l, btype = build_ios, process = pid,
                           startTime = clock t, outputBuffer = []\<rparr> (activeBuilds t)\<rparr>))))"

text \<open>The lines a chunk of output contributes to the buffer.\<close>

definition chunk_lines :: "string \<Rightarrow> string list" where
  "chunk_lines text = filter (\<lambda>line. length line > 0) (split_on (CHR 0x0A) (trim text))"

text \<open>
  The part of the two \<^verbatim>\<open>data\<close> handlers that adds to the output buffer of the build
  registered under the handler's key, if there is one.
\<close>

definition push_output :: "string \<Rightarrow> string \<Rightarrow> (string \<times> ActiveBuild) list \<Rightarrow> (string \<times> ActiveBuild) list" where
  "push_output buildKey text reg =
     (case map_of reg buildKey of
        None \<Rightarrow> reg
      | Some build \<Rightarrow>
          (let pushed = outputBuffer build @ chunk_lines text;
               kept = (if length pushed > MAX_OUTPUT_BUFFER_SIZE
                       then slice_last MAX_OUTPUT_BUFFER_SIZE pushed else pushed)
           in AList.update buildKey (build\<lparr>outputBuffer := kept\<rparr>) reg))"

definition child_key :: "child \<Rightarrow> string" where
  "child_key ch = getBuildKey (cfg_label (spawn_config ch)) (type_name (cfg_type (spawn_config ch)))"

definition on_stdout :: "nat \<Rightarrow> string \<Rightarrow> tracker \<Rightarrow> tracker" where
  "on_stdout pid text t =
     (if pid < length (children t) then
        (let ch = children t ! pid in
         t\<lparr>children := (children t)[pid := ch\<lparr>outputText := outputText ch @ text\<rparr>],
           activeBuilds := push_output (child_key ch) text (activeBuilds t)\<rparr>)
      else t)"

definition on_stderr :: "nat \<Rightarrow> string \<Rightarrow> tracker \<Rightarrow> tracker" where
  "on_stderr pid text t =
     (if pid < length (children t) then
        (let ch = children t ! pid in
         t\<lparr>children := (children t)[pid := ch\<lparr>errorOutput := errorOutput ch @ text\<rparr>],
           activeBuilds := push_output (child_key ch) text (activeBuilds t)\<rparr>)
      else t)"

text \<open>The exit code is a number, or \<^verbatim>\<open>null\<close> when a signal ended the child.\<close>

definition code_text :: "nat option \<Rightarrow> string" where
  "code_text code = (case code of None \<Rightarrow> ''null'' | Some n \<Rightarrow> nat_to_string n)"

text \<open>
  The \<^verbatim>\<open>close\<close> handlers.  Every branch removes the key of the handler from the registry
  before it resolves.  The handler of \<^verbatim>\<open>buildIOS\<close> exports the archive first when the
  exit code is zero; how the export ends is the parameter \<open>export\<close>: the message of the
  error thrown (\<open>Inl\<close>) or the path of the package saved (\<open>Inr\<close>).  The files the
  export writes are left out.  The check mark of the success message is written as its
  three bytes.
\<close>

definition ipa_saved :: "string \<Rightarrow> string" where
  "ipa_saved targetIpaPath = [CHR 0xE2, CHR 0x9C, CHR 0x85] @ '' IPA saved to: '' @ targetIpaPath"

definition on_close :: "nat \<Rightarrow> nat option \<Rightarrow> string + string \<Rightarrow> tracker \<Rightarrow> tracker" where
  "on_close pid code export t =
     (if pid < length (children t) then
        (let ch = children t ! pid;
             reply =
               (if archive ch then
                  (if code = Some 0 then
                     (case export of
                        Inr targetIpaPath \<Rightarrow>
                          BuildReply True (outputText ch @ [CHR 0x0A, CHR 0x0A] @ ipa_saved targetIpaPath) None
                      | Inl msg \<Rightarrow> BuildReply False (outputText ch) (Some (''Export failed: '' @ msg)))
                   else BuildReply False (outputText ch)
                          (Some (if errorOutput ch \<noteq> [] then errorOutput ch
                                 else ''iOS archive failed with code '' @ code_text code)))
                else
                  (if code = Some 0 then BuildReply True (outputText ch) None
                   else BuildReply False (outputText ch)
                          (Some (if errorOutput ch \<noteq> [] then errorOutput ch
                                 else type_name (cfg_type (spawn_config ch)) @ '' failed with code '' @
                                      code_text code))))
         in t\<lparr>activeBuilds := AList.delete (child_key ch) (activeBuilds t),
              children := (children t)[pid := ch\<lparr>resolved := Some reply\<rparr>]\<rparr>)
      else t)"

definition isBuildInProgress :: "tracker \<Rightarrow> string \<Rightarrow> string option \<Rightarrow> bool" where
  "isBuildInProgress t l ty =
     (case validateLabel l of
        Some _ \<Rightarrow> False
      | None \<Rightarrow>
          if truthy ty then map_of (activeBuilds t) (getBuildKey l (the ty)) \<noteq> None
          else list_ex (\<lambda>(key, build). startsWith key (l @ '':'')) (activeBuilds t))"


definition killBuild :: "string \<Rightarrow> string \<Rightarrow> tracker \<Rightarrow> bool \<times> tracker" where
  "killBuild l ty t =
     (case validateLabel l of
        Some _ \<Rightarrow> (False, t)
      | None \<Rightarrow>
          (let key = getBuildKey l ty in
           case map_of (activeBuilds t) key of
             Some build \<Rightarrow>
               (True, t\<lparr>killed := killed t @ [process build],
                        activeBuilds := AList.delete key (activeBuilds t)\<rparr>)
           | None \<Rightarrow> (False, t)))"

text \<open>The loop of \<^verbatim>\<open>killAllBuildsForLabel\<close> over the entries of the registry.\<close>

fun kill_entries :: "string \<Rightarrow> (string \<times> ActiveBuild) list \<Rightarrow> nat \<times> tracker \<Rightarrow> nat \<times> tracker" where
  "kill_entries l [] (count, t) = (count, t)"
| "kill_entries l ((key, build) # rest) (count, t) =
     kill_entries l rest
       (if label build = l
        then (count + 1, t\<lparr>killed := killed t @ [process build],
                           activeBuilds := AList.delete key (activeBuilds t)\<rparr>)
        else (count, t))"

definition killAllBuildsForLabel :: "string \<Rightarrow> tracker \<Rightarrow> nat \<times> tracker" where
  "killAllBuildsForLabel l t =
     (case validateLabel l of
        Some _ \<Rightarrow> (0, t)
      | None \<Rightarrow> kill_entries l (activeBuilds t) (0, t))"

text \<open>
  What can happen to the module from outside: a build is requested from
  \<^verbatim>\<open>runBuildProcess\<close> or from \<^verbatim>\<open>buildIOS\<close>, a child writes a chunk to one of its streams,
  a child closes, a build is killed, all builds of a label are killed.
\<close>

datatype event =
    Request BuildProcessConfig
  | RequestIOS string string
  | Stdout nat string
  | Stderr nat string
  | Close nat "nat option" "string + string"
  | Kill string string
  | KillAll string

fun step :: "tracker \<Rightarrow> event \<Rightarrow> tracker" where
  "step t (Request c) = snd (runBuildProcess c t)"
| "step t (RequestIOS worktreesDir l) = snd (buildIOS worktreesDir l t)"
| "step t (Stdout pid text) = on_stdout pid text t"
| "step t (Stderr pid text) = on_stderr pid text t"
| "step t (Close pid code export) = on_close pid code export t"
| "step t (Kill l ty) = snd (killBuild l ty t)"
| "step t (KillAll l) = snd (killAllBuildsForLabel l t)"

definition run :: "event list \<Rightarrow> tracker \<Rightarrow> tracker" where
  "run evs t = foldl step t evs"



definition demo_build :: BuildProcessConfig where
  "demo_build = \<lparr>cfg_label = ''feat'', cfg_type = pod_install, command = ''pod'',
                  args = [''install''], cwd = ''/wt/feat/project.ios''\<rparr>"


definition registry_ok :: "(string \<times> ActiveBuild) list \<Rightarrow> bool" where
  "registry_ok reg =
     (distinct (map fst reg) \<and>
      list_all (\<lambda>(k, b). k = getBuildKey (label b) (type_name (btype b)) \<and> validateLabel (label b) = None) reg)"

text \<open>
  The builds of a key that are running: the children spawned under the key that have not
  closed and were not sent a kill signal.  This list is not in the program, which knows
  its builds through the registry only; the registry is compared with it.
\<close>

definition running_builds :: "tracker \<Rightarrow> string \<Rightarrow> nat list" where
  "running_builds t key =
     filter (\<lambda>pid. child_key (children t ! pid) = key \<and> resolved (children t ! pid) = None \<and>
                   pid \<notin> set (killed t))
            [0..<length (children t)]"

section \<open>The file system\<close>

text \<open>
  The file system is the list of the paths that exist, each with the flag "is a
  directory".  Only the calls the sources make are modelled.  \<^verbatim>\<open>existsSync\<close> never
  throws; \<^verbatim>\<open>readdirSync\<close> throws on what is not a directory (\<open>None\<close>);
  \<^verbatim>\<open>mkdirSync\<close> with \<^verbatim>\<open>recursive\<close> creates the directory and the missing ones above
  it; it throws (\<open>Inl\<close>, with the message of Node's error) when a path above it is not a
  directory, when the path itself is a file, and when the environment refuses (see
  \<open>mkdir_error\<close> below); \<^verbatim>\<open>rmSync\<close> with \<^verbatim>\<open>recursive\<close> and \<^verbatim>\<open>force\<close> removes the path
  and all below it, unless the environment refuses (see \<open>rm_error\<close> below).
\<close>

type_synonym fs = "(string \<times> bool) list"

definition existsSync :: "fs \<Rightarrow> string \<Rightarrow> bool" where
  "existsSync f p = (map_of f p \<noteq> None)"

definition isDirectory :: "fs \<Rightarrow> string \<Rightarrow> bool" where
  "isDirectory f p = (map_of f p = Some True)"

definition child_name :: "string \<Rightarrow> string \<Rightarrow> string option" where
  "child_name dir p =
     (let below = (if dir = ''/'' then dir else dir @ ''/'') in
      if prefix below p \<and> drop (length below) p \<noteq> [] \<and> CHR ''/'' \<notin> set (drop (length below) p)
      then Some (drop (length below) p) else None)"

definition readdirSync :: "fs \<Rightarrow> string \<Rightarrow> string list option" where
  "readdirSync f dir =
     (if isDirectory f dir then Some (remdups (List.map_filter (\<lambda>(p, d). child_name dir p) f)) else None)"

definition ancestors :: "string \<Rightarrow> string list" where
  "ancestors p =
     (if path_isAbsolute p then [''/''] else []) @
     map (\<lambda>i. take i p) (filter (\<lambda>i. p ! i = CHR ''/'') [1..<length p])"

definition mkdirSync :: "string \<Rightarrow> fs \<Rightarrow> string + fs" where
  "mkdirSync p f =
     (if list_ex (\<lambda>d. existsSync f d \<and> \<not> isDirectory f d) (ancestors p)
      then Inl (''ENOTDIR: not a directory, mkdir '' @ [CHR 0x27] @ p @ [CHR 0x27])
      else if existsSync f p \<and> \<not> isDirectory f p
      then Inl (''EEXIST: file already exists, mkdir '' @ [CHR 0x27] @ p @ [CHR 0x27])
      else Inr (f @ map (\<lambda>d. (d, True)) (filter (\<lambda>d. \<not> existsSync f d) (remdups (ancestors p @ [p])))))"

definition rmSync :: "string \<Rightarrow> fs \<Rightarrow> fs" where
  "rmSync p f = filter (\<lambda>(q, d). q \<noteq> p \<and> \<not> prefix (p @ ''/'') q) f"

section \<open>The environment: git, the file system, the builds\<close>

text \<open>
  A git command as \<^verbatim>\<open>simple-git\<close> receives it: \<^verbatim>\<open>raw\<close> with its arguments, \<^verbatim>\<open>fetch\<close>,
  or \<^verbatim>\<open>revparse\<close> with its arguments.
\<close>

datatype git_cmd = Raw "string list" | Fetch | Revparse "string list"

text \<open>
  What the sources cannot decide is a parameter.  \<open>git_exec\<close> is the installed git: run
  in a repository on a command, in some state of the repositories (of any type \<open>'g\<close>) and
  of the file system, it fails with the text of its error (\<open>Inl\<close>) or prints its output
  (\<open>Inr\<close>), and leaves a new state and file system.  \<open>rm_error\<close> says when \<^verbatim>\<open>rmSync\<close>
  throws, and with which message; \<open>mkdir_error\<close> says when \<^verbatim>\<open>mkdirSync\<close> throws for a
  reason the list of paths does not show (permissions, a full disk, a name too long), and
  with which message; \<open>homedir\<close> is \<^verbatim>\<open>os.homedir()\<close>.
\<close>

record 'g env =
  git_exec :: "string \<Rightarrow> git_cmd \<Rightarrow> 'g \<Rightarrow> fs \<Rightarrow> (string + string) \<times> 'g \<times> fs"
  rm_error :: "string \<Rightarrow> fs \<Rightarrow> string option"
  mkdir_error :: "string \<Rightarrow> fs \<Rightarrow> string option"
  homedir :: string

text \<open>
  The world the commands act on: the file system, the state of the repositories, the git
  commands run so far with the repository each ran in (what a spy on git would record),
  and the build tracker.
\<close>

record 'g world =
  files :: fs
  repo_state :: 'g
  git_log :: "(string \<times> git_cmd) list"
  builds :: tracker

definition git :: "'g env \<Rightarrow> string \<Rightarrow> git_cmd \<Rightarrow> 'g world \<Rightarrow> (string + string) \<times> 'g world" where
  "git e repoPath cmd w =
     (case git_exec e repoPath cmd (repo_state w) (files w) of
        (r, g, f) \<Rightarrow> (r, w\<lparr>files := f, repo_state := g, git_log := git_log w @ [(repoPath, cmd)]\<rparr>))"

text \<open>\<^verbatim>\<open>fs.rmSync(p, { recursive: true, force: true })\<close>: the message thrown, or the new world.\<close>

definition rm :: "'g env \<Rightarrow> string \<Rightarrow> 'g world \<Rightarrow> string + 'g world" where
  "rm e p w =
     (case rm_error e p (files w) of
        Some msg \<Rightarrow> Inl msg
      | None \<Rightarrow> Inr (w\<lparr>files := rmSync p (files w)\<rparr>))"

text \<open>\<^verbatim>\<open>fs.mkdirSync(p, { recursive: true })\<close>: the message thrown, or the new world.\<close>

definition mkdir :: "'g env \<Rightarrow> string \<Rightarrow> 'g world \<Rightarrow> string + 'g world" where
  "mkdir e p w =
     (case mkdir_error e p (files w) of
        Some msg \<Rightarrow> Inl msg
      | None \<Rightarrow>
          (case mkdirSync p (files w) of
             Inl msg \<Rightarrow> Inl msg
           | Inr f \<Rightarrow> Inr (w\<lparr>files := f\<rparr>)))"

section \<open>Git operations (operations.ts)\<close>

text \<open>
  An exception is the message of the error thrown (all the callers read of it).  The
  quote is the character 0x27.
\<close>

definition GitOperationError :: "string \<Rightarrow> string \<Rightarrow> string" where
  "GitOperationError operation details =
     ''Git operation '' @ [CHR 0x27] @ operation @ [CHR 0x27] @ '' failed: '' @ details"

text \<open>
  The shape shared by the operations that run one command and rethrow its failure as a
  \<^verbatim>\<open>GitOperationError\<close>.
\<close>

definition rethrow :: "string \<Rightarrow> (string + string) \<times> 'w \<Rightarrow> (string + unit) \<times> 'w" where
  "rethrow operation r =
     (case r of
        (Inl details, w) \<Rightarrow> (Inl (GitOperationError operation details), w)
      | (Inr _, w) \<Rightarrow> (Inr (), w))"

definition getCurrentBranch :: "'g env \<Rightarrow> string \<Rightarrow> 'g world \<Rightarrow> (string + string) \<times> 'g world" where
  "getCurrentBranch e repoPath w =
     (case git e repoPath (Revparse [''--abbrev-ref'', ''HEAD'']) w of
        (Inl details, w') \<Rightarrow> (Inl (GitOperationError ''get-branch'' details), w')
      | (Inr branch, w') \<Rightarrow> (Inr (trim branch), w'))"

record worktree =
  wt_path :: string
  wt_branch :: string
  wt_bare :: bool

text \<open>The object \<^verbatim>\<open>currentWorktree\<close> of the parser, whose properties may be missing.\<close>

record currentWorktree =
  cur_path :: "string option"
  cur_branch :: "string option"
  cur_bare :: "bool option"

definition no_worktree :: currentWorktree where
  "no_worktree = \<lparr>cur_path = None, cur_branch = None, cur_bare = None\<rparr>"

text \<open>\<^verbatim>\<open>s.replace(pat, rep)\<close> with a string pattern replaces the first occurrence.\<close>

fun replace_first :: "string \<Rightarrow> string \<Rightarrow> string \<Rightarrow> string" where
  "replace_first pat rep [] = (if pat = [] then rep else [])"
| "replace_first pat rep (c # s) =
     (if prefix pat (c # s) then rep @ drop (length pat) (c # s)
      else c # replace_first pat rep s)"

fun parse_worktrees :: "currentWorktree \<Rightarrow> string list \<Rightarrow> worktree list" where
  "parse_worktrees cur [] = []"
| "parse_worktrees cur (line # lines) =
     (if startsWith line ''worktree '' then parse_worktrees (cur\<lparr>cur_path := Some (drop 9 line)\<rparr>) lines
      else if startsWith line ''branch '' then
        parse_worktrees (cur\<lparr>cur_branch := Some (replace_first ''refs/heads/'' [] (drop 7 line))\<rparr>) lines
      else if startsWith line ''bare'' then parse_worktrees (cur\<lparr>cur_bare := Some True\<rparr>) lines
      else if line = [] then
        (if truthy (cur_path cur)
         then [\<lparr>wt_path = the (cur_path cur),
                wt_branch = (if truthy (cur_branch cur) then the (cur_branch cur) else []),
                wt_bare = (cur_bare cur = Some True)\<rparr>]
         else []) @ parse_worktrees no_worktree lines
      else parse_worktrees cur lines)"

definition listWorktrees :: "'g env \<Rightarrow> string \<Rightarrow> 'g world \<Rightarrow> (string + worktree list) \<times> 'g world" where
  "listWorktrees e repoPath w =
     (case git e repoPath (Raw [''worktree'', ''list'', ''--porcelain'']) w of
        (Inl details, w') \<Rightarrow> (Inl (GitOperationError ''list-worktrees'' details), w')
      | (Inr out, w') \<Rightarrow> (Inr (parse_worktrees no_worktree (split_on (CHR 0x0A) out)), w'))"

definition addWorktree :: "'g env \<Rightarrow> string \<Rightarrow> string \<Rightarrow> string \<Rightarrow> bool \<Rightarrow> 'g world \<Rightarrow> (string + unit) \<times> 'g world" where
  "addWorktree e repoPath worktreePath branchName createBranch w =
     rethrow ''add-worktree''
       (git e repoPath
          (Raw ([''worktree'', ''add''] @ (if createBranch then [''-b'', branchName] else []) @
                [worktreePath] @ (if \<not> createBranch then [branchName] else []))) w)"

definition removeWorktree :: "'g env \<Rightarrow> string \<Rightarrow> string \<Rightarrow> bool \<Rightarrow> 'g world \<Rightarrow> (string + unit) \<times> 'g world" where
  "removeWorktree e repoPath worktreePath force w =
     rethrow ''remove-worktree''
       (git e repoPath
          (Raw ([''worktree'', ''remove''] @ (if force then [''--force''] else []) @ [worktreePath])) w)"

definition fetchRepo :: "'g env \<Rightarrow> string \<Rightarrow> 'g world \<Rightarrow> (string + unit) \<times> 'g world" where
  "fetchRepo e repoPath w = rethrow ''fetch'' (git e repoPath Fetch w)"

definition worktreeExists :: "fs \<Rightarrow> string \<Rightarrow> bool" where
  "worktreeExists f worktreePath =
     (existsSync f worktreePath \<and> existsSync f (path_join [worktreePath, ''.git'']))"

definition localBranchExists :: "'g env \<Rightarrow> string \<Rightarrow> string \<Rightarrow> 'g world \<Rightarrow> bool \<times> 'g world" where
  "localBranchExists e repoPath branchName w =
     (case git e repoPath (Raw [''show-ref'', ''--verify'', ''refs/heads/'' @ branchName]) w of
        (Inl _, w') \<Rightarrow> (False, w')
      | (Inr _, w') \<Rightarrow> (True, w'))"

definition remoteBranchExists :: "'g env \<Rightarrow> string \<Rightarrow> string \<Rightarrow> 'g world \<Rightarrow> bool \<times> 'g world" where
  "remoteBranchExists e repoPath branchName w =
     (case git e repoPath (Raw [''ls-remote'', ''--heads'', ''origin'', branchName]) w of
        (Inl _, w') \<Rightarrow> (False, w')
      | (Inr out, w') \<Rightarrow> (str_includes out branchName, w'))"

definition heads_ref :: "string \<Rightarrow> string" where
  "heads_ref b = (if startsWith b ''refs/heads/'' then b else ''refs/heads/'' @ b)"

definition findWorktreeByBranch :: "'g env \<Rightarrow> string \<Rightarrow> string \<Rightarrow> 'g world \<Rightarrow> string option \<times> 'g world" where
  "findWorktreeByBranch e repoPath branchName w =
     (case listWorktrees e repoPath w of
        (Inl _, w') \<Rightarrow> (None, w')
      | (Inr worktrees, w') \<Rightarrow>
          (let normalizedBranch = heads_ref branchName in
           (map_option wt_path (find (\<lambda>wt. heads_ref (wt_branch wt) = normalizedBranch) worktrees), w')))"

definition createBranch :: "'g env \<Rightarrow> string \<Rightarrow> string \<Rightarrow> string \<Rightarrow> 'g world \<Rightarrow> (string + unit) \<times> 'g world" where
  "createBranch e repoPath branchName startPoint w =
     rethrow ''create-branch'' (git e repoPath (Raw [''branch'', branchName, startPoint]) w)"

definition unsetUpstream :: "'g env \<Rightarrow> string \<Rightarrow> 'g world \<Rightarrow> 'g world" where
  "unsetUpstream e repoPath w = snd (git e repoPath (Raw [''branch'', ''--unset-upstream'']) w)"

definition addWorktreeWithTracking :: "'g env \<Rightarrow> string \<Rightarrow> string \<Rightarrow> string \<Rightarrow> string \<Rightarrow> 'g world \<Rightarrow> (string + unit) \<times> 'g world" where
  "addWorktreeWithTracking e repoPath worktreePath localBranchName remoteBranch w =
     rethrow ''add-worktree-tracking''
       (git e repoPath
          (Raw [''worktree'', ''add'', ''--track'', ''-b'', localBranchName, worktreePath, remoteBranch]) w)"

definition deleteLocalBranch :: "'g env \<Rightarrow> string \<Rightarrow> string \<Rightarrow> bool \<Rightarrow> 'g world \<Rightarrow> (string + unit) \<times> 'g world" where
  "deleteLocalBranch e repoPath branchName force w =
     rethrow ''delete-branch''
       (git e repoPath (Raw ([''branch''] @ (if force then [''-D''] else [''-d'']) @ [branchName])) w)"

section \<open>Results\<close>

text \<open>
  \<^verbatim>\<open>SwitchResult\<close> and \<^verbatim>\<open>CleanResult\<close> have the same four fields; their status strings
  are collected in one type.
\<close>

datatype status =
    already_exists | already_in_use | dry_run | created_new | added_local | added_remote
  | error | skipped | not_found | not_worktree | deleted

record result =
  repoName :: string
  success :: bool
  message :: string
  status :: status

section \<open>Configuration and options (types.ts)\<close>

record RepoConfig =
  name :: string
  base_path :: string

record EtzConfig =
  base_branch :: string
  worktrees_dir :: string
  repos :: "RepoConfig list"

text \<open>
  Optional strings are \<open>None\<close> when missing and a missing flag is \<open>False\<close>, as the sources
  read them.  The two maps of \<^verbatim>\<open>SwitchOptions\<close> are JavaScript objects, given here by
  their own properties.  \<^verbatim>\<open>switchToWorktree\<close> copies \<^verbatim>\<open>branchMap\<close> into a fresh object, so
  a missing \<^verbatim>\<open>branchMap\<close> is the empty one; it reads \<^verbatim>\<open>baseBranchMap\<close> behind \<^verbatim>\<open>?.\<close>, so a
  missing \<^verbatim>\<open>baseBranchMap\<close> is \<open>None\<close>.
\<close>

record SwitchOptions =
  sw_label :: "string option"
  sw_branchMap :: "string \<rightharpoonup> string"
  sw_default :: "string option"
  sw_baseBranchMap :: "(string \<rightharpoonup> string) option"
  sw_dryRun :: bool
  sw_repo :: "string option"

record CleanOptions =
  cl_label :: string
  cl_repo :: "string option"
  cl_force :: bool
  cl_dryRun :: bool
  cl_deleteBranches :: bool

text \<open>\<^verbatim>\<open>a || b\<close> on strings that may be missing.\<close>

definition js_or :: "string option \<Rightarrow> string option \<Rightarrow> string option" where
  "js_or a b = (if truthy a then a else b)"

text \<open>
  Reading a property of a plain object by a name that comes from outside finds the
  object's own property, and else what every object inherits from \<^verbatim>\<open>Object.prototype\<close>:
  a function (\<^verbatim>\<open>constructor\<close>, \<^verbatim>\<open>toString\<close>, ...) or, for \<^verbatim>\<open>__proto__\<close>, the prototype
  itself.  So the value read is a string of the map or such a member, named by the
  property; \<open>None\<close> is \<^verbatim>\<open>undefined\<close>.  A member is truthy, has no method \<^verbatim>\<open>trim\<close>, and
  in a template string it is printed as \<open>member_text\<close> says.
\<close>

datatype js_value = Text string | Member string

definition object_prototype_members :: "string list" where
  "object_prototype_members =
     [''constructor'', ''__defineGetter__'', ''__defineSetter__'', ''hasOwnProperty'',
      ''__lookupGetter__'', ''__lookupSetter__'', ''isPrototypeOf'', ''propertyIsEnumerable'',
      ''toString'', ''valueOf'', ''__proto__'', ''toLocaleString'']"

definition member_text :: "string \<Rightarrow> string" where
  "member_text k =
     (if k = ''__proto__'' then ''[object Object]''
      else ''function '' @ (if k = ''constructor'' then ''Object'' else k) @ ''() { [native code] }'')"

definition text_of :: "js_value \<Rightarrow> string" where
  "text_of v = (case v of Text s \<Rightarrow> s | Member k \<Rightarrow> member_text k)"

definition property_of :: "(string \<rightharpoonup> string) \<Rightarrow> string \<Rightarrow> js_value option" where
  "property_of obj k =
     (case obj k of
        Some v \<Rightarrow> Some (Text v)
      | None \<Rightarrow> if k \<in> set object_prototype_members then Some (Member k) else None)"

text \<open>
  The object \<^verbatim>\<open>branchMap\<close> of \<^verbatim>\<open>switchToWorktree\<close> is \<^verbatim>\<open>{}\<close> with the own properties of
  \<^verbatim>\<open>options.branchMap\<close> assigned to it.  Assigning a string to \<^verbatim>\<open>__proto__\<close> changes
  nothing, so that name always reads the prototype.
\<close>

definition assigned_property :: "(string \<rightharpoonup> string) \<Rightarrow> string \<Rightarrow> js_value option" where
  "assigned_property obj k = (if k = ''__proto__'' then Some (Member k) else property_of obj k)"

definition truthy_value :: "js_value option \<Rightarrow> bool" where
  "truthy_value v = (case v of None \<Rightarrow> False | Some (Text s) \<Rightarrow> s \<noteq> [] | Some (Member k) \<Rightarrow> True)"

definition value_or :: "js_value option \<Rightarrow> js_value option \<Rightarrow> js_value option" where
  "value_or a b = (if truthy_value a then a else b)"

section \<open>Creating worktrees (switch.ts)\<close>

definition shell_metacharacters :: "char list" where
  "shell_metacharacters =
     [CHR '';'', CHR ''&'', CHR ''|'', CHR 0x60, CHR ''$'', CHR ''('', CHR '')'', CHR ''<'', CHR ''>'', CHR 0x5C]"

definition validateBranchName :: "string \<Rightarrow> string option" where
  "validateBranchName branch =
     (if branch = [] \<or> length (trim branch) = 0
      then Some ''Branch name cannot be empty''
      else if list_ex (\<lambda>c. c \<in> set shell_metacharacters) branch
      then Some ''Invalid branch name: contains shell metacharacters''
      else if startsWith branch ''-''
      then Some ''Invalid branch name: cannot start with -''
      else None)"

text \<open>The body of the \<^verbatim>\<open>try\<close> block of \<^verbatim>\<open>ensureWorktree\<close>: \<open>Inl\<close> is the error thrown.\<close>

definition ensure_body ::
  "'g env \<Rightarrow> string \<Rightarrow> string \<Rightarrow> string \<Rightarrow> string \<Rightarrow> string \<Rightarrow> 'g world \<Rightarrow> (string + result) \<times> 'g world" where
  "ensure_body e repo baseRepoPath worktreePath branch baseBranch w =
     (case fetchRepo e baseRepoPath w of
        (Inl err, w1) \<Rightarrow> (Inl err, w1)
      | (Inr _, w1) \<Rightarrow>
     (case localBranchExists e baseRepoPath branch w1 of (branchExistsLocally, w2) \<Rightarrow>
     (case remoteBranchExists e baseRepoPath branch w2 of (branchExistsRemotely, w3) \<Rightarrow>
        if \<not> branchExistsLocally \<and> \<not> branchExistsRemotely then
          (case createBranch e baseRepoPath branch (''origin/'' @ baseBranch) w3 of
             (Inl err, w4) \<Rightarrow> (Inl err, w4)
           | (Inr _, w4) \<Rightarrow>
          (case addWorktree e baseRepoPath worktreePath branch False w4 of
             (Inl err, w5) \<Rightarrow> (Inl err, w5)
           | (Inr _, w5) \<Rightarrow>
               (Inr \<lparr>repoName = repo, success = True,
                     message = ''Created new branch '' @ [CHR 0x27] @ branch @ [CHR 0x27] @ '' from origin/'' @
                               baseBranch @ '' and added worktree'',
                     status = created_new\<rparr>,
                unsetUpstream e worktreePath w5)))
        else if branchExistsLocally then
          (case addWorktree e baseRepoPath worktreePath branch False w3 of
             (Inl err, w4) \<Rightarrow> (Inl err, w4)
           | (Inr _, w4) \<Rightarrow>
               (Inr \<lparr>repoName = repo, success = True,
                     message = ''Added worktree for existing local branch '' @ [CHR 0x27] @ branch @ [CHR 0x27],
                     status = added_local\<rparr>,
                unsetUpstream e worktreePath w4))
        else if branchExistsRemotely then
          (case addWorktreeWithTracking e baseRepoPath worktreePath branch (''origin/'' @ branch) w3 of
             (Inl err, w4) \<Rightarrow> (Inl err, w4)
           | (Inr _, w4) \<Rightarrow>
               (Inr \<lparr>repoName = repo, success = True,
                     message = ''Added worktree and tracking remote branch '' @ [CHR 0x27] @ ''origin/'' @ branch @ [CHR 0x27],
                     status = added_remote\<rparr>,
                w4))
        else (Inr \<lparr>repoName = repo, success = False, message = ''Unexpected state'', status = error\<rparr>, w3))))"

definition ensureWorktree ::
  "'g env \<Rightarrow> string \<Rightarrow> string \<Rightarrow> string \<Rightarrow> string \<Rightarrow> string \<Rightarrow> bool \<Rightarrow> 'g world \<Rightarrow> result \<times> 'g world" where
  "ensureWorktree e repo baseRepoPath worktreePath branch baseBranch dryRun w =
     (if existsSync (files w) worktreePath then
        (\<lparr>repoName = repo, success = True,
          message = ''Worktree already exists at '' @ worktreePath, status = already_exists\<rparr>, w)
      else
        (case findWorktreeByBranch e baseRepoPath branch w of (existingPath, w1) \<Rightarrow>
           if truthy existingPath then
             (\<lparr>repoName = repo, success = False,
               message = ''Branch '' @ [CHR 0x27] @ branch @ [CHR 0x27] @ '' is already checked out at '' @
                         the existingPath,
               status = already_in_use\<rparr>, w1)
           else if dryRun then
             (\<lparr>repoName = repo, success = True,
               message = ''Would create worktree for branch '' @ [CHR 0x27] @ branch @ [CHR 0x27] @ '' at '' @
                         worktreePath,
               status = dry_run\<rparr>, w1)
           else
             (case ensure_body e repo baseRepoPath worktreePath branch baseBranch w1 of
                (Inl err, w2) \<Rightarrow>
                  (\<lparr>repoName = repo, success = False,
                    message = ''Failed to create worktree: '' @ err, status = error\<rparr>, w2)
              | (Inr r, w2) \<Rightarrow> (r, w2))))"

text \<open>
  One round of the loop of \<^verbatim>\<open>switchToWorktree\<close>.  \<open>Inl\<close> is an exception that leaves the
  loop and rejects the promise of \<^verbatim>\<open>switchToWorktree\<close>: \<^verbatim>\<open>fs.mkdirSync\<close> is called outside
  every \<^verbatim>\<open>try\<close> block.  \<open>Inr None\<close> says that the repository is filtered out, \<open>Inr (Some r)\<close>
  that the result \<open>r\<close> is pushed.  When the branch read from \<^verbatim>\<open>branchMap\<close> is a member of
  \<^verbatim>\<open>Object.prototype\<close>, \<^verbatim>\<open>validateBranchName\<close> throws the \<^verbatim>\<open>TypeError\<close> of calling \<^verbatim>\<open>trim\<close> on
  it, inside its \<^verbatim>\<open>try\<close> block.  The base branch is used in template strings only, so it is
  handed on as its text.  The line printed to the console is left out.
\<close>

definition switch_repo ::
  "'g env \<Rightarrow> EtzConfig \<Rightarrow> SwitchOptions \<Rightarrow> RepoConfig \<Rightarrow> 'g world \<Rightarrow> (string + result option) \<times> 'g world" where
  "switch_repo e config options repo w =
     (if truthy (sw_repo options) \<and> name repo \<noteq> the (sw_repo options) then (Inr None, w)
      else
        (let branch = value_or (assigned_property (sw_branchMap options) (name repo))
                               (map_option Text (sw_default options)) in
         if \<not> truthy_value branch then
           (Inr (Some \<lparr>repoName = name repo, success = False, message = ''No branch specified'',
                        status = skipped\<rparr>), w)
         else
           (case (case the branch of
                    Member k \<Rightarrow> Some ''branch.trim is not a function''
                  | Text b \<Rightarrow> validateBranchName b) of
              Some msg \<Rightarrow>
                (Inr (Some \<lparr>repoName = name repo, success = False, message = msg, status = error\<rparr>), w)
            | None \<Rightarrow>
                (let labelFolder = the (js_or (sw_label options) (Some (text_of (the branch)))) in
                 case validateLabel labelFolder of
                   Some msg \<Rightarrow>
                     (Inr (Some \<lparr>repoName = name repo, success = False, message = msg, status = error\<rparr>), w)
                 | None \<Rightarrow>
                     (let worktreePath = path_join [worktrees_dir config, labelFolder, name repo];
                          parentDir = path_dirname worktreePath
                      in case (if \<not> existsSync (files w) parentDir then mkdir e parentDir w else Inr w) of
                           Inl thrown \<Rightarrow> (Inl thrown, w)
                         | Inr w1 \<Rightarrow>
                             (let baseBranch =
                                    text_of (the (value_or
                                      (value_or (case sw_baseBranchMap options of
                                                   None \<Rightarrow> None
                                                 | Some obj \<Rightarrow> property_of obj (name repo))
                                                (Some (Text (base_branch config))))
                                      (Some (Text ''master''))))
                              in case ensureWorktree e (name repo) (base_path repo) worktreePath
                                        (text_of (the branch)) baseBranch (sw_dryRun options) w1 of
                                   (r, w2) \<Rightarrow> (Inr (Some r), w2)))))))"

fun switch_loop ::
  "'g env \<Rightarrow> EtzConfig \<Rightarrow> SwitchOptions \<Rightarrow> RepoConfig list \<Rightarrow> result list \<Rightarrow> 'g world \<Rightarrow>
     (string + result list) \<times> 'g world" where
  "switch_loop e config options [] results w = (Inr results, w)"
| "switch_loop e config options (repo # rest) results w =
     (case switch_repo e config options repo w of
        (Inl thrown, w') \<Rightarrow> (Inl thrown, w')
      | (Inr None, w') \<Rightarrow> switch_loop e config options rest results w'
      | (Inr (Some r), w') \<Rightarrow> switch_loop e config options rest (results @ [r]) w')"

text \<open>
  \<^verbatim>\<open>switchToWorktree\<close>: the results its promise resolves with (\<open>Inr\<close>), or the exception it
  rejects with (\<open>Inl\<close>).
\<close>

definition switchToWorktree ::
  "'g env \<Rightarrow> EtzConfig \<Rightarrow> SwitchOptions \<Rightarrow> 'g world \<Rightarrow> (string + result list) \<times> 'g world" where
  "switchToWorktree e config options w =
     (case (if truthy (sw_label options) then validateLabel (the (sw_label options)) else None) of
        Some msg \<Rightarrow> (Inr [\<lparr>repoName = [], success = False, message = msg, status = error\<rparr>], w)
      | None \<Rightarrow> switch_loop e config options (repos config) [] w)"

section \<open>Removing worktrees (the clean command)\<close>

definition isIOSProject :: "fs \<Rightarrow> string \<Rightarrow> bool" where
  "isIOSProject f dirPath =
     (if \<not> existsSync f dirPath then False
      else
        (case readdirSync f dirPath of
           None \<Rightarrow> False
         | Some entries \<Rightarrow>
             list_ex (\<lambda>entry. endsWith entry ''.xcodeproj'' \<or> endsWith entry ''.xcworkspace'') entries))"

text \<open>The regular expression replaced by nothing: the extension at the end of the name.\<close>

definition strip_project_extension :: "string \<Rightarrow> string" where
  "strip_project_extension s =
     (if endsWith s ''.xcodeproj'' then take (length s - length ''.xcodeproj'') s
      else if endsWith s ''.xcworkspace'' then take (length s - length ''.xcworkspace'') s
      else s)"

definition getIOSProjectName :: "fs \<Rightarrow> string \<Rightarrow> string option" where
  "getIOSProjectName f dirPath =
     (if \<not> existsSync f dirPath then None
      else
        (case readdirSync f dirPath of
           None \<Rightarrow> None
         | Some entries \<Rightarrow>
             (let projectFile = find (\<lambda>entry. endsWith entry ''.xcodeproj'' \<or> endsWith entry ''.xcworkspace'') entries
              in if truthy projectFile then Some (strip_project_extension (the projectFile)) else None)))"

definition cleanIOSDerivedData :: "'g env \<Rightarrow> string \<Rightarrow> bool \<Rightarrow> 'g world \<Rightarrow> string option \<times> 'g world" where
  "cleanIOSDerivedData e worktreePath dryRun w =
     (let projectName = getIOSProjectName (files w) worktreePath in
      if \<not> truthy projectName then (None, w)
      else
        (let derivedDataDir = path_join [homedir e, ''Library'', ''Developer'', ''Xcode'', ''DerivedData''] in
         if \<not> existsSync (files w) derivedDataDir then (None, w)
         else
           (case readdirSync (files w) derivedDataDir of
              None \<Rightarrow> (None, w)
            | Some entries \<Rightarrow>
                (let projectDerivedData =
                       find (\<lambda>entry. startsWith entry (the projectName @ ''-'') \<and>
                                      isDirectory (files w) (path_join [derivedDataDir, entry])) entries
                 in if truthy projectDerivedData then
                      (let derivedDataPath = path_join [derivedDataDir, the projectDerivedData] in
                       if \<not> dryRun then
                         (case rm e derivedDataPath w of
                            Inl _ \<Rightarrow> (None, w)
                          | Inr w' \<Rightarrow> (Some derivedDataPath, w'))
                       else (Some derivedDataPath, w))
                    else (None, w)))))"

text \<open>
  The body of the \<^verbatim>\<open>try\<close> block of \<^verbatim>\<open>cleanWorktree\<close>, in two parts; \<open>Inl\<close> is the
  error that reaches its \<^verbatim>\<open>catch\<close>.  The second part is what follows the removal of the
  git worktree: the derived data, the directory, the branch.
\<close>

definition delete_directory ::
  "'g env \<Rightarrow> string \<Rightarrow> string \<Rightarrow> string \<Rightarrow> bool \<Rightarrow> bool \<Rightarrow> string option \<Rightarrow> 'g world \<Rightarrow> (string + result) \<times> 'g world" where
  "delete_directory e repo baseRepoPath worktreePath dryRun deleteBranches branchName w2 =
     (case (if isIOSProject (files w2) worktreePath
            then cleanIOSDerivedData e worktreePath dryRun w2 else (None, w2)) of
        (derivedDataDeleted, w3) \<Rightarrow>
          if existsSync (files w3) worktreePath then
            (case rm e worktreePath w3 of
               Inl err \<Rightarrow> (Inl err, w3)
             | Inr w4 \<Rightarrow>
                 (let deletedMessage = ''Successfully deleted: '' @ worktreePath @
                        (if truthy derivedDataDeleted
                         then [CHR 0x0A] @ ''Also deleted DerivedData: '' @ the derivedDataDeleted else [])
                  in if deleteBranches \<and> truthy branchName then
                       (case deleteLocalBranch e baseRepoPath (the branchName) True w4 of
                          (Inr _, w5) \<Rightarrow>
                            (Inr \<lparr>repoName = repo, success = True,
                                  message = deletedMessage @ [CHR 0x0A] @ ''Also deleted local branch: '' @
                                            the branchName,
                                  status = deleted\<rparr>, w5)
                        | (Inl err, w5) \<Rightarrow>
                            (Inr \<lparr>repoName = repo, success = True,
                                  message = deletedMessage @ [CHR 0x0A] @ ''Failed to delete local branch '' @
                                            [CHR 0x27] @ the branchName @ [CHR 0x27] @ '': '' @ err,
                                  status = deleted\<rparr>, w5))
                     else (Inr \<lparr>repoName = repo, success = True, message = deletedMessage,
                                status = deleted\<rparr>, w4)))
          else
            (Inr \<lparr>repoName = repo, success = True,
                  message = ''Worktree removed (folder already deleted)'', status = deleted\<rparr>, w3))"

definition clean_body ::
  "'g env \<Rightarrow> string \<Rightarrow> string \<Rightarrow> string \<Rightarrow> bool \<Rightarrow> bool \<Rightarrow> bool \<Rightarrow> bool \<Rightarrow> 'g world \<Rightarrow> (string + result) \<times> 'g world" where
  "clean_body e repo baseRepoPath worktreePath force dryRun deleteBranches isWorktree w =
     (case (if deleteBranches \<and> isWorktree then
              (case getCurrentBranch e worktreePath w of
                 (Inl _, w') \<Rightarrow> (None, w')
               | (Inr b, w') \<Rightarrow> (Some b, w'))
            else (None, w)) of (branchName, w1) \<Rightarrow>
      (case (if isWorktree then
               (case removeWorktree e baseRepoPath worktreePath True w1 of
                  (Inl err, w') \<Rightarrow> (if \<not> force then Some err else None, w')
                | (Inr _, w') \<Rightarrow> (None, w'))
             else (None, w1)) of
         (Some err, w2) \<Rightarrow>
           (Inr \<lparr>repoName = repo, success = False,
                 message = ''Failed to remove Git worktree: '' @ err, status = error\<rparr>, w2)
       | (None, w2) \<Rightarrow>
           delete_directory e repo baseRepoPath worktreePath dryRun deleteBranches branchName w2))"

definition cleanWorktree ::
  "'g env \<Rightarrow> string \<Rightarrow> string \<Rightarrow> string \<Rightarrow> bool \<Rightarrow> bool \<Rightarrow> bool \<Rightarrow> 'g world \<Rightarrow> result \<times> 'g world" where
  "cleanWorktree e repo baseRepoPath worktreePath force dryRun deleteBranches w =
     (if \<not> existsSync (files w) worktreePath then
        (\<lparr>repoName = repo, success = True,
          message = ''Path not found (already deleted): '' @ worktreePath, status = not_found\<rparr>, w)
      else
        (let isWorktree = worktreeExists (files w) worktreePath in
         if \<not> isWorktree \<and> \<not> force then
           (\<lparr>repoName = repo, success = False,
             message = ''Not a Git worktree (use force to delete)'', status = not_worktree\<rparr>, w)
         else if dryRun then
           (case (if isIOSProject (files w) worktreePath
                  then cleanIOSDerivedData e worktreePath True w else (None, w)) of
              (derivedDataPath, w') \<Rightarrow>
                (\<lparr>repoName = repo, success = True,
                  message = ''Would delete: '' @ worktreePath @
                            (if truthy derivedDataPath
                             then [CHR 0x0A] @ ''Would also delete DerivedData: '' @ the derivedDataPath else []),
                  status = dry_run\<rparr>, w'))
         else
           (case clean_body e repo baseRepoPath worktreePath force dryRun deleteBranches isWorktree w of
              (Inl err, w') \<Rightarrow>
                (\<lparr>repoName = repo, success = False,
                  message = ''Failed to delete: '' @ err, status = error\<rparr>, w')
            | (Inr r, w') \<Rightarrow> (r, w'))))"

definition validateNoPathTraversal :: "string \<Rightarrow> string \<Rightarrow> string option" where
  "validateNoPathTraversal userInput paramName =
     (if str_includes userInput ''..'' \<or> str_includes userInput ''/'' \<or> str_includes userInput [CHR 0x5C]
      then Some (''Invalid '' @ paramName @ '': cannot contain path separators or traversal sequences'')
      else if path_isAbsolute userInput
      then Some (''Invalid '' @ paramName @ '': cannot be an absolute path'')
      else if userInput = [] \<or> length (trim userInput) = 0
      then Some (''Invalid '' @ paramName @ '': cannot be empty'')
      else None)"

fun clean_loop ::
  "'g env \<Rightarrow> string \<Rightarrow> CleanOptions \<Rightarrow> RepoConfig list \<Rightarrow> result list \<Rightarrow> 'g world \<Rightarrow> result list \<times> 'g world" where
  "clean_loop e labelFolder options [] results w = (results, w)"
| "clean_loop e labelFolder options (repo # rest) results w =
     (case cleanWorktree e (name repo) (base_path repo) (path_join [labelFolder, name repo])
             (cl_force options) (cl_dryRun options) (cl_deleteBranches options) w of
        (r, w') \<Rightarrow> clean_loop e labelFolder options rest (results @ [r]) w')"

definition clean :: "'g env \<Rightarrow> EtzConfig \<Rightarrow> CleanOptions \<Rightarrow> 'g world \<Rightarrow> result list \<times> 'g world" where
  "clean e config options w =
     (case validateNoPathTraversal (cl_label options) ''label'' of
        Some msg \<Rightarrow> ([\<lparr>repoName = [], success = False, message = msg, status = error\<rparr>], w)
      | None \<Rightarrow>
     (case killAllBuildsForLabel (cl_label options) (builds w) of (killedBuilds, t) \<Rightarrow>
        (let w0 = w\<lparr>builds := t\<rparr>;
             labelFolder = path_join [worktrees_dir config, cl_label options];
             normalizedLabelFolder = path_normalize labelFolder;
             normalizedWorktreesDir = path_normalize (worktrees_dir config)
         in if \<not> startsWith normalizedLabelFolder (normalizedWorktreesDir @ path_sep) then
              ([\<lparr>repoName = [], success = False,
                 message = ''Security error: path traversal detected'', status = error\<rparr>], w0)
            else if \<not> existsSync (files w0) labelFolder then
              ([\<lparr>repoName = [], success = False,
                 message = ''No worktree directory found at '' @ labelFolder, status = not_found\<rparr>], w0)
            else
              (let reposToClean = (if truthy (cl_repo options)
                                   then filter (\<lambda>r. name r = the (cl_repo options)) (repos config)
                                   else repos config)
               in case clean_loop e labelFolder options reposToClean [] w0 of (results, w1) \<Rightarrow>
                    if \<not> cl_dryRun options \<and> existsSync (files w1) labelFolder then
                      (case readdirSync (files w1) labelFolder of
                         None \<Rightarrow> (results, w1)
                       | Some entries \<Rightarrow>
                           (let visibleEntries = filter (\<lambda>entry. \<not> startsWith entry ''.'') entries in
                            if length visibleEntries = 0 then
                              (case rm e labelFolder w1 of
                                 Inl _ \<Rightarrow> (results, w1)
                               | Inr w2 \<Rightarrow>
                                   (results @
                                    [\<lparr>repoName = [], success = True,
                                      message = ''Deleted empty label folder: '' @ labelFolder,
                                      status = deleted\<rparr>], w2))
                            else (results, w1)))
                    else (results, w1)))))"

section \<open>Reading a call of create\<close>

text \<open>
  The repositories a call of \<^verbatim>\<open>switchToWorktree\<close> does not filter out, the branch it
  resolves for a repository, the folder and the path it derives from them.
\<close>

definition selected :: "SwitchOptions \<Rightarrow> RepoConfig \<Rightarrow> bool" where
  "selected options repo = (\<not> (truthy (sw_repo options) \<and> name repo \<noteq> the (sw_repo options)))"

definition branch_for :: "SwitchOptions \<Rightarrow> RepoConfig \<Rightarrow> js_value option" where
  "branch_for options repo =
     value_or (assigned_property (sw_branchMap options) (name repo)) (map_option Text (sw_default options))"

definition branch_name_for :: "SwitchOptions \<Rightarrow> RepoConfig \<Rightarrow> string" where
  "branch_name_for options repo = text_of (the (branch_for options repo))"

definition label_folder_for :: "SwitchOptions \<Rightarrow> RepoConfig \<Rightarrow> string" where
  "label_folder_for options repo = the (js_or (sw_label options) (Some (branch_name_for options repo)))"

definition worktree_path_for :: "EtzConfig \<Rightarrow> SwitchOptions \<Rightarrow> RepoConfig \<Rightarrow> string" where
  "worktree_path_for config options repo =
     path_join [worktrees_dir config, label_folder_for options repo, name repo]"

text \<open>
  The repository gets as far as the directory of its worktree path: it is not filtered
  out, the branch given for it is a string, and the branch name and the label folder
  pass their validation.
\<close>

definition reaches_ensure :: "SwitchOptions \<Rightarrow> RepoConfig \<Rightarrow> bool" where
  "reaches_ensure options repo =
     (selected options repo \<and>
      (case branch_for options repo of
         Some (Text b) \<Rightarrow> validateBranchName b = None
       | Some (Member k) \<Rightarrow> False
       | None \<Rightarrow> False) \<and>
      validateLabel (label_folder_for options repo) = None)"

text \<open>The label of the call, when one is given, passes the check made before the loop.\<close>

definition label_accepted :: "SwitchOptions \<Rightarrow> bool" where
  "label_accepted options =
     (if truthy (sw_label options) then validateLabel (the (sw_label options)) = None else True)"

text \<open>
  The base branch as the specification words it: the override given for the repository,
  else the \<^verbatim>\<open>base_branch\<close> of the configuration, else \<^verbatim>\<open>master\<close>.  An empty string counts
  as not given.
\<close>

definition base_branch_for :: "EtzConfig \<Rightarrow> SwitchOptions \<Rightarrow> RepoConfig \<Rightarrow> string" where
  "base_branch_for config options repo =
     (case (case sw_baseBranchMap options of None \<Rightarrow> None | Some obj \<Rightarrow> obj (name repo)) of
        Some override \<Rightarrow>
          if override \<noteq> [] then override
          else if base_branch config \<noteq> [] then base_branch config else ''master''
      | None \<Rightarrow> if base_branch config \<noteq> [] then base_branch config else ''master'')"

text \<open>
  The base branch the program hands to \<^verbatim>\<open>ensureWorktree\<close>: what it reads from
  \<^verbatim>\<open>baseBranchMap\<close>, else the \<^verbatim>\<open>base_branch\<close> of the configuration, else \<^verbatim>\<open>master\<close>, as text.
\<close>

definition base_text_for :: "EtzConfig \<Rightarrow> SwitchOptions \<Rightarrow> RepoConfig \<Rightarrow> string" where
  "base_text_for config options repo =
     text_of (the (value_or
       (value_or (case sw_baseBranchMap options of
                    None \<Rightarrow> None
                  | Some obj \<Rightarrow> property_of obj (name repo))
                 (Some (Text (base_branch config))))
       (Some (Text ''master''))))"

text \<open>
  The step before \<^verbatim>\<open>ensureWorktree\<close>: the directory of the worktree path is made when it
  is not there, which can throw.
\<close>

definition with_parent :: "'g env \<Rightarrow> string \<Rightarrow> 'g world \<Rightarrow> string + 'g world" where
  "with_parent e worktreePath w =
     (if \<not> existsSync (files w) (path_dirname worktreePath)
      then mkdir e (path_dirname worktreePath) w else Inr w)"

definition exists_result :: "string \<Rightarrow> string \<Rightarrow> result" where
  "exists_result repo worktreePath =
     \<lparr>repoName = repo, success = True, message = ''Worktree already exists at '' @ worktreePath,
      status = already_exists\<rparr>"

text \<open>
  What git itself says about a branch, as the specification means "exists locally" and
  "exists remotely"; these readings are not in the program, the program's own tests are
  compared with them.  The branch exists locally when \<^verbatim>\<open>git show-ref --verify\<close> of its ref
  succeeds.  \<^verbatim>\<open>git ls-remote --heads origin <branch>\<close> prints one line for every head of
  the remote that matches, the hash, a tab and the ref: the branch exists remotely when
  its own ref \<^verbatim>\<open>refs/heads/<branch>\<close> is listed, and git reports no head when nothing is
  listed or the command fails.
\<close>

definition listed_refs :: "string \<Rightarrow> string list" where
  "listed_refs out =
     map (\<lambda>line. drop 1 (dropWhile (\<lambda>c. c \<noteq> CHR 0x09) line))
         (filter (\<lambda>line. line \<noteq> []) (split_on (CHR 0x0A) out))"

definition exists_locally :: "string + string \<Rightarrow> bool" where
  "exists_locally answer = (case answer of Inl err \<Rightarrow> False | Inr out \<Rightarrow> True)"

definition exists_remotely :: "string + string \<Rightarrow> string \<Rightarrow> bool" where
  "exists_remotely answer branch =
     (case answer of Inl err \<Rightarrow> False | Inr out \<Rightarrow> (''refs/heads/'' @ branch) \<in> set (listed_refs out))"

definition lists_no_head :: "string + string \<Rightarrow> bool" where
  "lists_no_head answer = (case answer of Inl err \<Rightarrow> True | Inr out \<Rightarrow> listed_refs out = [])"

section \<open>A small installation\<close>

text \<open>
  An environment whose git answers by a fixed table, a configuration with two
  repositories, and a world with a given file system and nothing else.
\<close>

definition scripted :: "(string \<Rightarrow> git_cmd \<Rightarrow> string + string) \<Rightarrow> unit env" where
  "scripted answer =
     \<lparr>git_exec = (\<lambda>repoPath cmd g f. (answer repoPath cmd, g, f)),
      rm_error = (\<lambda>p f. None), mkdir_error = (\<lambda>p f. None), homedir = ''/Users/dev''\<rparr>"

definition demo_config :: EtzConfig where
  "demo_config =
     \<lparr>base_branch = ''main'', worktrees_dir = ''/wt'',
      repos = [\<lparr>name = ''app-ios'', base_path = ''/r/ios''\<rparr>,
               \<lparr>name = ''app-android'', base_path = ''/r/android''\<rparr>]\<rparr>"

definition demo_options :: SwitchOptions where
  "demo_options =
     \<lparr>sw_label = Some ''feat'', sw_branchMap = Map.empty, sw_default = Some ''feat'',
      sw_baseBranchMap = Some [''app-ios'' \<mapsto> ''develop''], sw_dryRun = False, sw_repo = None\<rparr>"

definition demo_world :: "fs \<Rightarrow> unit world" where
  "demo_world f = \<lparr>files = f, repo_state = (), git_log = [], builds = no_builds\<rparr>"

text \<open>Git finds no branch anywhere and every other command succeeds.\<close>

definition new_branch_git :: "string \<Rightarrow> git_cmd \<Rightarrow> string + string" where
  "new_branch_git repoPath cmd =
     (case cmd of
        Raw cmdline \<Rightarrow> if take 1 cmdline = [''show-ref''] then Inl ''Error: not a valid ref'' else Inr []
      | _ \<Rightarrow> Inr [])"

text \<open>The same, but the fetch fails in the first repository.\<close>

definition ios_offline_git :: "string \<Rightarrow> git_cmd \<Rightarrow> string + string" where
  "ios_offline_git repoPath cmd =
     (if repoPath = ''/r/ios'' \<and> cmd = Fetch then Inl ''Error: no network''
      else new_branch_git repoPath cmd)"

text \<open>The remote cannot be reached; the branch is found locally.\<close>

definition offline_local_git :: "string \<Rightarrow> git_cmd \<Rightarrow> string + string" where
  "offline_local_git repoPath cmd = (if cmd = Fetch then Inl ''Error: no network'' else Inr [])"

text \<open>Git finds the branch locally and refuses to add a worktree.\<close>

definition add_refused_git :: "string \<Rightarrow> git_cmd \<Rightarrow> string + string" where
  "add_refused_git repoPath cmd =
     (case cmd of
        Raw cmdline \<Rightarrow>
          if take 2 cmdline = [''worktree'', ''add''] then Inl ''fatal: could not create work tree dir''
          else Inr []
      | _ \<Rightarrow> Inr [])"

text \<open>
  The branch is nowhere, and the remote has a head whose last part is the branch name:
  \<^verbatim>\<open>ls-remote\<close> lists that head, and git cannot track the branch asked for.
\<close>

definition elsewhere_git :: "string \<Rightarrow> git_cmd \<Rightarrow> string + string" where
  "elsewhere_git repoPath cmd =
     (case cmd of
        Raw cmdline \<Rightarrow>
          if take 1 cmdline = [''show-ref''] then Inl ''Error: not a valid ref''
          else if take 1 cmdline = [''ls-remote'']
          then Inr (''9c1d'' @ [CHR 0x09] @ ''refs/heads/team/'' @ last cmdline @ [CHR 0x0A])
          else if take 3 cmdline = [''worktree'', ''add'', ''--track'']
          then Inl ''fatal: invalid reference''
          else Inr []
      | _ \<Rightarrow> Inr [])"

text \<open>A configuration whose one repository has the name of a member of every object.\<close>

definition constructor_config :: EtzConfig where
  "constructor_config =
     \<lparr>base_branch = ''main'', worktrees_dir = ''/wt'',
      repos = [\<lparr>name = ''constructor'', base_path = ''/r/constructor''\<rparr>]\<rparr>"

definition constructor_worktree :: fs where
  "constructor_worktree =
     [(''/'', True), (''/wt'', True), (''/wt/feat'', True), (''/wt/feat/constructor'', True)]"

text \<open>
  A disk on which the worktree root is a file; a call that gives each repository its own
  branch and no label; an environment in which the fetch fails in the first repository
  and the disk refuses the folder of the second.
\<close>

definition wt_is_file :: fs where
  "wt_is_file = [(''/'', True), (''/wt'', False)]"

definition branch_per_repo :: SwitchOptions where
  "branch_per_repo =
     \<lparr>sw_label = None, sw_branchMap = [''app-ios'' \<mapsto> ''feat'', ''app-android'' \<mapsto> ''fix''],
      sw_default = None, sw_baseBranchMap = None, sw_dryRun = False, sw_repo = None\<rparr>"

definition full_disk :: "unit env" where
  "full_disk =
     \<lparr>git_exec = (\<lambda>repoPath cmd g f. (ios_offline_git repoPath cmd, g, f)),
      rm_error = (\<lambda>p f. None),
      mkdir_error = (\<lambda>p f. if p = ''/wt/fix''
                              then Some (''ENOSPC: no space left on device, mkdir '' @ [CHR 0x27] @ p @ [CHR 0x27])
                              else None),
      homedir = ''/Users/dev''\<rparr>"

text \<open>The configuration with the worktree root written with a slash at its end.\<close>

definition slash_config :: EtzConfig where
  "slash_config =
     \<lparr>base_branch = ''main'', worktrees_dir = ''/wt/'',
      repos = [\<lparr>name = ''app-ios'', base_path = ''/r/ios''\<rparr>,
               \<lparr>name = ''app-android'', base_path = ''/r/android''\<rparr>]\<rparr>"

definition both_worktrees :: fs where
  "both_worktrees =
     [(''/'', True), (''/wt'', True), (''/wt/feat'', True),
      (''/wt/feat/app-ios'', True), (''/wt/feat/app-android'', True)]"

definition label_folder_only :: fs where
  "label_folder_only = [(''/'', True), (''/wt'', True), (''/wt/feat'', True)]"

definition after_list :: "string \<Rightarrow> unit world" where
  "after_list repoPath =
     (demo_world label_folder_only)
       \<lparr>git_log := [(repoPath, Raw [''worktree'', ''list'', ''--porcelain''])]\<rparr>"

definition after_fetch :: "string \<Rightarrow> unit world" where
  "after_fetch repoPath =
     (demo_world label_folder_only)
       \<lparr>git_log := [(repoPath, Raw [''worktree'', ''list'', ''--porcelain'']), (repoPath, Fetch)]\<rparr>"

text \<open>Git finds the branch locally; git finds it on the remote only.\<close>

definition local_branch_git :: "string \<Rightarrow> git_cmd \<Rightarrow> string + string" where
  "local_branch_git repoPath cmd = Inr []"

definition remote_branch_git :: "string \<Rightarrow> git_cmd \<Rightarrow> string + string" where
  "remote_branch_git repoPath cmd =
     (case cmd of
        Raw cmdline \<Rightarrow>
          if take 1 cmdline = [''show-ref''] then Inl ''Error: not a valid ref''
          else if take 1 cmdline = [''ls-remote''] then Inr (''4f2a'' @ [CHR 0x09] @ ''refs/heads/'' @ last cmdline @ [CHR 0x0A])
          else Inr []
      | _ \<Rightarrow> Inr [])"

definition logged :: "(string \<times> git_cmd) list \<Rightarrow> unit world" where
  "logged cmds = (demo_world label_folder_only)\<lparr>git_log := cmds\<rparr>"

definition probes :: "(string \<times> git_cmd) list" where
  "probes =
     [(''/r/ios'', Raw [''worktree'', ''list'', ''--porcelain'']), (''/r/ios'', Fetch),
      (''/r/ios'', Raw [''show-ref'', ''--verify'', ''refs/heads/feat'']),
      (''/r/ios'', Raw [''ls-remote'', ''--heads'', ''origin'', ''feat''])]"

definition demo_clean :: CleanOptions where
  "demo_clean = \<lparr>cl_label = ''feat'', cl_repo = None, cl_force = False, cl_dryRun = False,
                  cl_deleteBranches = False\<rparr>"

text \<open>A disk with one worktree of the first repository.\<close>

definition one_worktree :: fs where
  "one_worktree =
     [(''/'', True), (''/wt'', True), (''/wt/feat'', True), (''/wt/feat/app-ios'', True),
      (''/wt/feat/app-ios/.git'', False)]"

text \<open>Git refuses to remove worktrees and does everything else.\<close>

definition locked_git :: "string \<Rightarrow> git_cmd \<Rightarrow> string + string" where
  "locked_git repoPath cmd =
     (case cmd of
        Raw cmdline \<Rightarrow>
          if take 2 cmdline = [''worktree'', ''remove''] then Inl ''Error: worktree is locked'' else Inr []
      | _ \<Rightarrow> Inr [])"

section \<open>Properties of the build process tracker\<close>

subsection \<open>Association lists and small facts\<close>

lemma update_set_cases:
  "(k', b') \<in> set (AList.update k v al) \<Longrightarrow> (k', b') = (k, v) \<or> (k', b') \<in> set al"
  by (induction al) (auto split: if_splits)

lemma delete_set_subset: "set (AList.delete k al) \<subseteq> set al"
  by (auto simp: AList.delete_eq)















lemma type_name_no_colon: "CHR '':'' \<notin> set (type_name ty)"
  by (cases ty) auto

lemma type_name_inj: "type_name ty = type_name ty' \<Longrightarrow> ty = ty'"
  by (cases ty; cases ty') auto

lemma type_name_truthy: "truthy (Some (type_name ty))"
  by (cases ty) (auto simp: truthy_def)

lemma split_at_last:
  assumes "xs @ c # ys = xs' @ c # ys'" and "c \<notin> set ys" and "c \<notin> set ys'"
  shows "xs = xs' \<and> ys = ys'"
proof -
  have "takeWhile (\<lambda>x. x \<noteq> c) (rev (xs @ c # ys)) = rev ys"
    using assms(2) by (simp add: takeWhile_append)
  moreover have "takeWhile (\<lambda>x. x \<noteq> c) (rev (xs' @ c # ys')) = rev ys'"
    using assms(3) by (simp add: takeWhile_append)
  ultimately have "ys = ys'" using assms(1) by (metis rev_is_rev_conv)
  with assms(1) show ?thesis by simp
qed

lemma getBuildKey_inj:
  "getBuildKey l (type_name ty) = getBuildKey l' (type_name ty') \<Longrightarrow> l = l' \<and> ty = ty'"
  unfolding getBuildKey_def
  using split_at_last[of l "CHR '':''" "type_name ty" l' "type_name ty'"]
  by (auto simp: type_name_no_colon dest: type_name_inj)


subsection \<open>The bound on the output buffer\<close>





subsection \<open>The keys of the registry\<close>

lemma registry_ok_update:
  "registry_ok reg \<Longrightarrow> k = getBuildKey (label v) (type_name (btype v)) \<Longrightarrow> validateLabel (label v) = None
    \<Longrightarrow> registry_ok (AList.update k v reg)"
  unfolding registry_ok_def list_all_iff
  by (auto simp: distinct_update dest!: update_set_cases)

lemma registry_ok_delete: "registry_ok reg \<Longrightarrow> registry_ok (AList.delete k reg)"
  unfolding registry_ok_def list_all_iff using delete_set_subset[of k reg]
  by (auto simp: distinct_delete)

lemma registry_ok_lookup:
  "registry_ok reg \<Longrightarrow> map_of reg k = Some b \<Longrightarrow>
     k = getBuildKey (label b) (type_name (btype b)) \<and> validateLabel (label b) = None"
  unfolding registry_ok_def list_all_iff by (auto dest!: map_of_SomeD)

lemma registry_ok_push: "registry_ok reg \<Longrightarrow> registry_ok (push_output key chunk reg)"
  by (auto simp: push_output_def Let_def split: option.splits
      intro!: registry_ok_update dest: registry_ok_lookup)

lemma kill_entries_ok:
  "registry_ok (activeBuilds t) \<Longrightarrow> registry_ok (activeBuilds (snd (kill_entries l es (n, t))))"
  by (induction es arbitrary: n t) (auto simp: registry_ok_delete)

lemma step_registry_ok:
  assumes "registry_ok (activeBuilds t)"
  shows "registry_ok (activeBuilds (step t ev))"
proof (cases ev)
  case (Request c)
  then show ?thesis using assms
    by (auto simp: runBuildProcess_def Let_def intro!: registry_ok_update split: option.splits)
next
  case (RequestIOS worktreesDir l)
  then show ?thesis using assms
    by (auto simp: buildIOS_def Let_def intro!: registry_ok_update split: option.splits)
next
  case (Stdout pid chunk)
  then show ?thesis using assms by (simp add: on_stdout_def Let_def registry_ok_push)
next
  case (Stderr pid chunk)
  then show ?thesis using assms by (simp add: on_stderr_def Let_def registry_ok_push)
next
  case (Close pid code export)
  then show ?thesis using assms by (simp add: on_close_def Let_def registry_ok_delete)
next
  case (Kill l ty)
  then show ?thesis using assms
    by (auto simp: killBuild_def Let_def registry_ok_delete split: option.splits)
next
  case (KillAll l)
  then show ?thesis using assms
    by (auto simp: killAllBuildsForLabel_def kill_entries_ok split: option.splits)
qed

lemma run_registry_ok:
  "registry_ok (activeBuilds t) \<Longrightarrow> registry_ok (activeBuilds (run evs t))"
  unfolding run_def by (induction evs arbitrary: t) (auto simp: step_registry_ok)

lemma filter_same_key_le_1:
  assumes "distinct (map fst reg)"
    and "\<And>x. x \<in> set reg \<Longrightarrow> P x \<Longrightarrow> fst x = k"
  shows "length (filter P reg) \<le> 1"
  using assms
proof (induction reg)
  case Nil
  then show ?case by simp
next
  case (Cons x reg)
  show ?case
  proof (cases "P x")
    case True
    then have kx: "fst x = k" using Cons.prems(2) by simp
    have "filter P reg = []"
    proof (rule ccontr)
      assume "filter P reg \<noteq> []"
      then obtain y where y: "y \<in> set reg" "P y" by (auto simp: filter_empty_conv)
      then have "fst y = k" using Cons.prems(2) by simp
      with y(1) kx Cons.prems(1) show False by (force simp: image_iff)
    qed
    with True show ?thesis by simp
  next
    case False
    then show ?thesis using Cons by simp
  qed
qed

lemma one_entry_per_pair:
  assumes "registry_ok reg"
  shows "length (filter (\<lambda>(k, b). label b = l \<and> btype b = ty) reg) \<le> 1"
proof (rule filter_same_key_le_1[where k = "getBuildKey l (type_name ty)"])
  show "distinct (map fst reg)" using assms by (simp add: registry_ok_def)
next
  fix x assume "x \<in> set reg" and "case x of (k, b) \<Rightarrow> label b = l \<and> btype b = ty"
  then show "fst x = getBuildKey l (type_name ty)"
    using assms unfolding registry_ok_def list_all_iff by fastforce
qed

lemma step_children:
  assumes "pid < length (children t)"
  shows "pid < length (children (step t ev)) \<and> spawn_config (children (step t ev) ! pid) = spawn_config (children t ! pid)"
proof (cases ev)
  case (Request c)
  then show ?thesis using assms
    by (auto simp: runBuildProcess_def Let_def nth_append split: option.splits)
next
  case (RequestIOS worktreesDir l)
  then show ?thesis using assms
    by (auto simp: buildIOS_def Let_def nth_append split: option.splits)
next
  case (Stdout p chunk)
  then show ?thesis using assms by (auto simp: on_stdout_def Let_def nth_list_update)
next
  case (Stderr p chunk)
  then show ?thesis using assms by (auto simp: on_stderr_def Let_def nth_list_update)
next
  case (Close p code export)
  then show ?thesis using assms by (auto simp: on_close_def Let_def nth_list_update)
next
  case (Kill l ty)
  then show ?thesis using assms by (auto simp: killBuild_def Let_def split: option.splits)
next
  case (KillAll l)
  have "children (snd (kill_entries l es (n, s))) = children s" for es n s
    by (induction es arbitrary: n s) auto
  then show ?thesis using assms KillAll by (auto simp: killAllBuildsForLabel_def split: option.splits)
qed

lemma run_children:
  "pid < length (children t) \<Longrightarrow>
     pid < length (children (run evs t)) \<and> spawn_config (children (run evs t) ! pid) = spawn_config (children t ! pid)"
  unfolding run_def
proof (induction evs arbitrary: t)
  case Nil
  then show ?case by simp
next
  case (Cons ev evs)
  from step_children[OF Cons.prems, of ev] Cons.IH[of "step t ev"] show ?case by simp
qed

lemma runBuildProcess_rejects:
  assumes "isBuildInProgress t (cfg_label c) (Some (type_name (cfg_type c)))"
  shows "runBuildProcess c t =
          (Resolved (BuildReply False [] (Some (type_name (cfg_type c) @ '' already in progress''))), t)"
  using assms
  by (auto simp: isBuildInProgress_def runBuildProcess_def Let_def type_name_truthy split: option.splits)

lemma runBuildProcess_accepts:
  assumes "validateLabel (cfg_label c) = None"
    and "map_of (activeBuilds t) (getBuildKey (cfg_label c) (type_name (cfg_type c))) = None"
  shows "\<exists>t'. runBuildProcess c t = (Pending (length (children t)), t')"
  using assms by (simp add: runBuildProcess_def Let_def)

lemma on_close_frees:
  assumes "pid < length (children t)" and "spawn_config (children t ! pid) = c"
  shows "map_of (activeBuilds (on_close pid code export t)) (getBuildKey (cfg_label c) (type_name (cfg_type c))) = None"
  using assms by (simp add: on_close_def Let_def child_key_def AList.delete_conv')

lemma killBuild_frees:
  "validateLabel l = None \<Longrightarrow> map_of (activeBuilds (snd (killBuild l ty t))) (getBuildKey l ty) = None"
  by (auto simp: killBuild_def Let_def AList.delete_conv' split: option.splits)

lemma killBuild_children: "children (snd (killBuild l ty t)) = children t"
  by (auto simp: killBuild_def Let_def split: option.splits)

lemma isBuildInProgress_typed:
  "isBuildInProgress t l (Some (type_name ty)) =
     (validateLabel l = None \<and> map_of (activeBuilds t) (getBuildKey l (type_name ty)) \<noteq> None)"
  by (auto simp: isBuildInProgress_def type_name_truthy split: option.splits)

lemma buildIOS_Pending:
  assumes "buildIOS worktreesDir l s = (Pending pid, t)"
  shows "validateLabel l = None"
    and "pid < length (children t)"
    and "cfg_label (spawn_config (children t ! pid)) = l \<and> cfg_type (spawn_config (children t ! pid)) = build_ios"
    and "map_of (activeBuilds t) (getBuildKey l ''build_ios'') \<noteq> None"
  using assms
  by (auto simp: buildIOS_def Let_def AList.update_conv' split: option.splits if_splits)

lemma buildIOS_rejects:
  assumes "isBuildInProgress t l (Some ''build_ios'')"
  shows "buildIOS worktreesDir l t =
          (Resolved (BuildReply False [] (Some ''iOS build already in progress'')), t)"
  using assms
  by (auto simp: isBuildInProgress_def buildIOS_def Let_def truthy_def split: option.splits)

lemma buildIOS_accepts:
  assumes "validateLabel l = None"
    and "map_of (activeBuilds t) (getBuildKey l ''build_ios'') = None"
  shows "fst (buildIOS worktreesDir l t) = Pending (length (children t))"
  using assms by (simp add: buildIOS_def Let_def)

lemma isBuildInProgress_ios:
  "isBuildInProgress t l (Some ''build_ios'') =
     (validateLabel l = None \<and> map_of (activeBuilds t) (getBuildKey l ''build_ios'') \<noteq> None)"
  using isBuildInProgress_typed[of t l build_ios] by simp

subsection \<open>One build per label and build type\<close>

text \<open>
  What the registry guarantees.  In every state reached from the empty registry it holds
  at most one entry for a label and a build type, and a request whose key is in the
  registry resolves at once with an error (\<^verbatim>\<open><type> already in progress\<close> from
  \<^verbatim>\<open>runBuildProcess\<close>, \<^verbatim>\<open>iOS build already in progress\<close> from \<^verbatim>\<open>buildIOS\<close>) and leaves the
  module as it was: no child is spawned and nothing is queued.
\<close>

lemma registry_guard:
  "length (filter (\<lambda>(k, b). label b = l \<and> btype b = ty) (activeBuilds (run evs no_builds))) \<le> 1"
  "isBuildInProgress t (cfg_label c) (Some (type_name (cfg_type c))) \<Longrightarrow>
      runBuildProcess c t =
        (Resolved (BuildReply False [] (Some (type_name (cfg_type c) @ '' already in progress''))), t)"
  "isBuildInProgress t l (Some ''build_ios'') \<Longrightarrow>
      buildIOS worktreesDir l t =
        (Resolved (BuildReply False [] (Some ''iOS build already in progress'')), t)"
proof -
  have "registry_ok (activeBuilds no_builds)" by (simp add: no_builds_def registry_ok_def)
  then have "registry_ok (activeBuilds (run evs no_builds))" by (rule run_registry_ok)
  then show "length (filter (\<lambda>(k, b). label b = l \<and> btype b = ty) (activeBuilds (run evs no_builds))) \<le> 1"
    by (rule one_entry_per_pair)
next
  assume "isBuildInProgress t (cfg_label c) (Some (type_name (cfg_type c)))"
  then show "runBuildProcess c t =
        (Resolved (BuildReply False [] (Some (type_name (cfg_type c) @ '' already in progress''))), t)"
    by (rule runBuildProcess_rejects)
next
  assume "isBuildInProgress t l (Some ''build_ios'')"
  then show "buildIOS worktreesDir l t =
        (Resolved (BuildReply False [] (Some ''iOS build already in progress'')), t)"
    by (rule buildIOS_rejects)
qed

text \<open>
  Claim C2 is about the builds that are active, and the registry is not always the list
  of them.  The \<^verbatim>\<open>close\<close> handler of a child removes the key of its build from the
  registry, whichever build holds the key then (\<open>on_close_frees\<close>).  A build is started, killed (by
  \<^verbatim>\<open>killBuild\<close> or by \<^verbatim>\<open>killAllBuildsForLabel\<close>, which free the key at once) and started
  again; then the first child, which was sent the signal, closes.  Its handler removes
  the key of the second build: the registry is empty, the module answers that no build is
  in progress, and the second child is running.  The next request for the same label and
  type is not rejected: it spawns a third child, and two builds of one key run together.
\<close>

theorem late_close_frees_running_build:
  "activeBuilds (run [Request demo_build, Kill ''feat'' ''pod_install'', Request demo_build,
                      Close 0 None (Inl [])] no_builds) = [] \<and>
   running_builds (run [Request demo_build, Kill ''feat'' ''pod_install'', Request demo_build,
                        Close 0 None (Inl [])] no_builds) ''feat:pod_install'' = [1] \<and>
   isBuildInProgress (run [Request demo_build, Kill ''feat'' ''pod_install'', Request demo_build,
                           Close 0 None (Inl [])] no_builds) ''feat'' (Some ''pod_install'') = False \<and>
   fst (runBuildProcess demo_build
          (run [Request demo_build, Kill ''feat'' ''pod_install'', Request demo_build,
                Close 0 None (Inl [])] no_builds)) = Pending 2 \<and>
   running_builds (run [Request demo_build, Kill ''feat'' ''pod_install'', Request demo_build,
                        Close 0 None (Inl []), Request demo_build] no_builds) ''feat:pod_install'' = [1, 2] \<and>
   running_builds (run [Request demo_build, KillAll ''feat'', Request demo_build,
                        Close 0 None (Inl []), Request demo_build] no_builds) ''feat:pod_install'' = [1, 2]"
  by code_simp

section \<open>Properties of create\<close>

subsection \<open>One round of the loop\<close>

lemma reaches_branch:
  assumes "reaches_ensure options repo"
  shows "branch_for options repo = Some (Text (branch_name_for options repo))"
    and "validateBranchName (branch_name_for options repo) = None"
    and "branch_name_for options repo \<noteq> []"
    and "validateLabel (label_folder_for options repo) = None"
    and "(truthy (sw_repo options) \<and> name repo \<noteq> the (sw_repo options)) = False"
proof -
  from assms obtain b where b: "branch_for options repo = Some (Text b)" "validateBranchName b = None"
    by (auto simp: reaches_ensure_def split: option.splits js_value.splits)
  then have n: "branch_name_for options repo = b" by (simp add: branch_name_for_def text_of_def)
  show "branch_for options repo = Some (Text (branch_name_for options repo))" using b n by simp
  show "validateBranchName (branch_name_for options repo) = None" using b n by simp
  show "branch_name_for options repo \<noteq> []" using b n by (auto simp: validateBranchName_def)
  show "validateLabel (label_folder_for options repo) = None" using assms by (simp add: reaches_ensure_def)
  show "(truthy (sw_repo options) \<and> name repo \<noteq> the (sw_repo options)) = False"
    using assms by (simp add: reaches_ensure_def selected_def)
qed

lemma base_text_plain:
  "name repo \<notin> set object_prototype_members \<Longrightarrow>
     base_text_for config options repo = base_branch_for config options repo"
  by (auto simp: base_text_for_def base_branch_for_def property_of_def value_or_def truthy_value_def
      text_of_def split: option.splits)

lemma switch_repo_reaches:
  assumes "reaches_ensure options repo"
  shows "switch_repo e config options repo w =
     (case with_parent e (worktree_path_for config options repo) w of
        Inl thrown \<Rightarrow> (Inl thrown, w)
      | Inr w1 \<Rightarrow>
          (case ensureWorktree e (name repo) (base_path repo) (worktree_path_for config options repo)
                  (branch_name_for options repo) (base_text_for config options repo)
                  (sw_dryRun options) w1 of
             (r, w') \<Rightarrow> (Inr (Some r), w')))"
proof -
  note b = reaches_branch[OF assms]
  have br: "value_or (assigned_property (sw_branchMap options) (name repo))
              (map_option Text (sw_default options)) = Some (Text (branch_name_for options repo))"
    using b(1) by (simp add: branch_for_def)
  have tv: "truthy_value (Some (Text (branch_name_for options repo)))"
    using b(3) by (simp add: truthy_value_def)
  have lf: "the (js_or (sw_label options) (Some (branch_name_for options repo))) = label_folder_for options repo"
    by (simp add: label_folder_for_def)
  show ?thesis
    unfolding switch_repo_def Let_def br b(5) if_False
    by (simp add: tv b(2) b(4) lf text_of_def worktree_path_for_def with_parent_def base_text_for_def
        split: sum.splits)
qed

lemma switch_repo_filtered:
  "\<not> selected options repo \<Longrightarrow> switch_repo e config options repo w = (Inr None, w)"
  by (simp add: switch_repo_def selected_def)

lemma git_log_git: "git e repoPath cmd w = (r, w') \<Longrightarrow> git_log w' = git_log w @ [(repoPath, cmd)]"
  by (auto simp: git_def split: prod.splits)

lemma rethrow_Inl:
  "rethrow operation r = (Inl err, w') \<Longrightarrow> \<exists>details. err = GitOperationError operation details \<and> r = (Inl details, w')"
  by (auto simp: rethrow_def split: prod.splits sum.splits)

lemma ensureWorktree_exists:
  "existsSync (files w) worktreePath \<Longrightarrow>
     ensureWorktree e repo baseRepoPath worktreePath branch baseBranch dryRun w =
       (exists_result repo worktreePath, w)"
  by (simp add: ensureWorktree_def exists_result_def)

lemma ensure_body_error:
  assumes "ensure_body e repo baseRepoPath worktreePath branch baseBranch w = (Inl err, w')"
  shows "\<exists>operation details. err = GitOperationError operation details"
  using assms
  by (auto simp: ensure_body_def fetchRepo_def createBranch_def addWorktree_def addWorktreeWithTracking_def
      split: prod.splits sum.splits if_splits dest!: rethrow_Inl)

subsection \<open>A worktree that is already there\<close>

text \<open>
  A repository that gets as far as the directory of its worktree path, and whose worktree
  path exists on disk together with the directory it lies in, gets the result
  \<^verbatim>\<open>already_exists\<close> with \<^verbatim>\<open>success = true\<close>, and the world stays as it was: no git command
  is run and nothing is made on disk.
\<close>

lemma switch_repo_exists:
  assumes "reaches_ensure options repo"
    and "existsSync (files w) (worktree_path_for config options repo)"
    and "existsSync (files w) (path_dirname (worktree_path_for config options repo))"
  shows "switch_repo e config options repo w =
           (Inr (Some \<lparr>repoName = name repo, success = True,
                        message = ''Worktree already exists at '' @ worktree_path_for config options repo,
                        status = already_exists\<rparr>), w)"
  using assms(2,3)
  by (simp add: switch_repo_reaches[OF assms(1)] with_parent_def ensureWorktree_exists exists_result_def)

lemma switch_loop_all_exist:
  assumes "\<And>repo. repo \<in> set rs \<Longrightarrow> selected options repo \<Longrightarrow>
             reaches_ensure options repo \<and> existsSync (files w) (worktree_path_for config options repo)
             \<and> existsSync (files w) (path_dirname (worktree_path_for config options repo))"
  shows "switch_loop e config options rs acc w =
           (Inr (acc @ map (\<lambda>repo. exists_result (name repo) (worktree_path_for config options repo))
                         (filter (selected options) rs)), w)"
  using assms
proof (induction rs arbitrary: acc)
  case Nil
  then show ?case by simp
next
  case (Cons repo rs)
  show ?case
  proof (cases "selected options repo")
    case True
    with Cons.prems[of repo] have r: "reaches_ensure options repo"
      and x: "existsSync (files w) (worktree_path_for config options repo)"
      and d: "existsSync (files w) (path_dirname (worktree_path_for config options repo))"
      by simp_all
    have "switch_repo e config options repo w =
        (Inr (Some (exists_result (name repo) (worktree_path_for config options repo))), w)"
      using switch_repo_exists[OF r x d] by (simp add: exists_result_def)
    then show ?thesis
      using True Cons.IH[of "acc @ [exists_result (name repo) (worktree_path_for config options repo)]"] Cons.prems
      by simp
  next
    case False
    then show ?thesis using switch_repo_filtered[OF False, of e config w] Cons.IH[of acc] Cons.prems by simp
  qed
qed

text \<open>
  So a call whose label is accepted, and in which this holds for every repository that is
  not filtered out, returns \<^verbatim>\<open>already_exists\<close> for each of them, in the order of the
  configuration, and changes nothing: running create again on what was created is a
  successful no-op.
\<close>

lemma create_again_noop:
  assumes "label_accepted options"
    and "\<forall>r \<in> set (repos config). selected options r \<longrightarrow>
           reaches_ensure options r \<and> existsSync (files w) (worktree_path_for config options r) \<and>
           existsSync (files w) (path_dirname (worktree_path_for config options r))"
  shows "switchToWorktree e config options w =
           (Inr (map (\<lambda>r. \<lparr>repoName = name r, success = True,
                              message = ''Worktree already exists at '' @ worktree_path_for config options r,
                              status = already_exists\<rparr>)
                     (filter (selected options) (repos config))), w)"
proof -
  have "switch_loop e config options (repos config) [] w =
           (Inr ([] @ map (\<lambda>repo. exists_result (name repo) (worktree_path_for config options repo))
                         (filter (selected options) (repos config))), w)"
    using assms(2) by (intro switch_loop_all_exist) blast
  then show ?thesis
    using assms(1) by (auto simp: switchToWorktree_def label_accepted_def exists_result_def split: if_splits)
qed

text \<open>
  A repository that is not filtered out, whose name is the name of a member of
  \<^verbatim>\<open>Object.prototype\<close> and for which \<^verbatim>\<open>branchMap\<close> has no entry, gets the result \<^verbatim>\<open>error\<close>
  whatever is on disk.
\<close>

lemma inherited_branch_is_error:
  assumes "selected options repo"
    and "name repo \<in> set object_prototype_members"
    and "sw_branchMap options (name repo) = None"
  shows "switch_repo e config options repo w =
           (Inr (Some \<lparr>repoName = name repo, success = False,
                        message = ''branch.trim is not a function'', status = error\<rparr>), w)"
proof -
  have "assigned_property (sw_branchMap options) (name repo) = Some (Member (name repo))"
    using assms(2,3) by (simp add: assigned_property_def property_of_def)
  then have "value_or (assigned_property (sw_branchMap options) (name repo))
               (map_option Text (sw_default options)) = Some (Member (name repo))"
    by (simp add: value_or_def truthy_value_def)
  then show ?thesis
    using assms(1) by (simp add: switch_repo_def selected_def truthy_value_def)
qed

text \<open>
  Claim C4 holds for such repositories, and fails for a repository whose name is the name
  of a member of \<^verbatim>\<open>Object.prototype\<close> when \<^verbatim>\<open>branchMap\<close> has no entry for it
  (\<open>inherited_branch_is_error\<close>).  The configuration has the one repository
  \<^verbatim>\<open>constructor\<close>, its worktree \<^verbatim>\<open>/wt/feat/constructor\<close> is on disk, and create is called
  again with the label \<^verbatim>\<open>feat\<close> and the default branch \<^verbatim>\<open>feat\<close>.  The branch \<^verbatim>\<open>switchToWorktree\<close> reads from its object
  \<^verbatim>\<open>branchMap\<close> is the inherited function, which is truthy, so the default branch is not
  taken; \<^verbatim>\<open>validateBranchName\<close> throws on it, and the result is \<^verbatim>\<open>error\<close> with the message of
  that \<^verbatim>\<open>TypeError\<close>, before the path is looked at.
\<close>

theorem existing_worktree_constructor:
  "worktree_path_for constructor_config demo_options (hd (repos constructor_config)) = ''/wt/feat/constructor'' \<and>
   existsSync (files (demo_world constructor_worktree)) ''/wt/feat/constructor'' \<and>
   branch_for demo_options (hd (repos constructor_config)) = Some (Member ''constructor'') \<and>
   switchToWorktree (scripted new_branch_git) constructor_config demo_options (demo_world constructor_worktree) =
     (Inr [\<lparr>repoName = ''constructor'', success = False, message = ''branch.trim is not a function'',
             status = error\<rparr>], demo_world constructor_worktree)"
  by code_simp

subsection \<open>Failures stay with their repository\<close>

text \<open>
  When the worktree has to be created (the path is absent, the branch is not attached, no
  dry run) and a git operation of \<^verbatim>\<open>ensureWorktree\<close> throws, the result of the repository is
  \<^verbatim>\<open>error\<close> with \<^verbatim>\<open>success = false\<close> and the message of the error after
  \<^verbatim>\<open>Failed to create worktree:\<close>; the error is a \<^verbatim>\<open>GitOperationError\<close> naming the operation
  and carrying git's own text.
\<close>

lemma ensureWorktree_converts_error:
  assumes "\<not> existsSync (files w) worktreePath"
    and "findWorktreeByBranch e baseRepoPath branch w = (attached, w1)"
    and "\<not> truthy attached"
    and "ensure_body e repo baseRepoPath worktreePath branch baseBranch w1 = (Inl err, w2)"
  shows "ensureWorktree e repo baseRepoPath worktreePath branch baseBranch False w =
           (\<lparr>repoName = repo, success = False, message = ''Failed to create worktree: '' @ err,
             status = error\<rparr>, w2)"
    and "\<exists>operation details. err = GitOperationError operation details"
  using assms ensure_body_error[OF assms(4)] by (simp_all add: ensureWorktree_def)

text \<open>
  Whatever git does, the only exception that leaves a round of the loop is the one of
  \<^verbatim>\<open>fs.mkdirSync\<close>; so a call is rejected only when making the directory of some worktree
  path throws, and every round that does not throw hands the world it leaves to the next
  repository.
\<close>

lemma switch_repo_throws:
  assumes "switch_repo e config options repo w = (Inl thrown, w')"
  shows "with_parent e (worktree_path_for config options repo) w = Inl thrown \<and> w' = w"
  using assms
  by (auto simp: switch_repo_def Let_def with_parent_def worktree_path_for_def label_folder_for_def
      branch_name_for_def branch_for_def
      split: if_splits option.splits sum.splits prod.splits js_value.splits)

lemma switch_loop_rejects_by_mkdir:
  assumes "fst (switch_loop e config options rs acc w) = Inl thrown"
  shows "\<exists>repo \<in> set rs. \<exists>w0. with_parent e (worktree_path_for config options repo) w0 = Inl thrown"
  using assms
proof (induction rs arbitrary: acc w)
  case Nil
  then show ?case by simp
next
  case (Cons repo rs)
  obtain x w' where sr: "switch_repo e config options repo w = (x, w')"
    by (cases "switch_repo e config options repo w")
  show ?case
  proof (cases x)
    case (Inl t)
    with sr Cons.prems have "t = thrown" by simp
    with sr Inl switch_repo_throws[of e config options repo w thrown w'] show ?thesis by auto
  next
    case (Inr r)
    with sr Cons.prems obtain acc' where "fst (switch_loop e config options rs acc' w') = Inl thrown"
      by (cases r) auto
    from Cons.IH[OF this] show ?thesis by auto
  qed
qed

text \<open>When making the directory throws, the loop ends there.\<close>

lemma mkdir_throw_rejects:
  assumes "reaches_ensure options repo"
    and "with_parent e (worktree_path_for config options repo) w = Inl thrown"
  shows "switch_loop e config options (repo # rest) acc w = (Inl thrown, w)"
  using assms(2) by (simp add: switch_repo_reaches[OF assms(1)])

text \<open>
  Claim C7 holds for the exceptions of git, and fails for the one call of the loop that
  stands outside every \<^verbatim>\<open>try\<close> block: \<^verbatim>\<open>fs.mkdirSync\<close>, which makes the directory of the
  worktree path.  When it throws, the loop ends (\<open>mkdir_throw_rejects\<close>), the promise of
  \<^verbatim>\<open>switchToWorktree\<close> is rejected and no list of results is returned.
  \<^item> The worktree root \<^verbatim>\<open>/wt\<close> is a file: making \<^verbatim>\<open>/wt/feat\<close> for the first repository throws,
    and neither repository gets a result.
  \<^item> Each repository has its own branch and no label is given, so each has its own folder.
    The fetch fails in the first repository, whose result is \<^verbatim>\<open>error\<close>; for the second the
    disk refuses the new folder.  The call is rejected, the result of the first repository
    is lost with it.
\<close>

theorem mkdir_failure_rejects_batch:
  "fst (switchToWorktree (scripted new_branch_git) demo_config demo_options (demo_world wt_is_file)) =
     Inl (''ENOTDIR: not a directory, mkdir '' @ [CHR 0x27] @ ''/wt/feat'' @ [CHR 0x27]) \<and>
   fst (switch_repo full_disk demo_config branch_per_repo (hd (repos demo_config))
          (demo_world [(''/'', True), (''/wt'', True)])) =
     Inr (Some \<lparr>repoName = ''app-ios'', success = False,
                 message = ''Failed to create worktree: '' @ GitOperationError ''fetch'' ''Error: no network'',
                 status = error\<rparr>) \<and>
   fst (switchToWorktree full_disk demo_config branch_per_repo (demo_world [(''/'', True), (''/wt'', True)])) =
     Inl (''ENOSPC: no space left on device, mkdir '' @ [CHR 0x27] @ ''/wt/fix'' @ [CHR 0x27])"
  by code_simp

subsection \<open>The command each operation runs\<close>

lemma findWorktreeByBranch_log:
  "findWorktreeByBranch e repoPath b w = (p, w') \<Longrightarrow>
     git_log w' = git_log w @ [(repoPath, Raw [''worktree'', ''list'', ''--porcelain''])]"
  by (auto simp: findWorktreeByBranch_def listWorktrees_def Let_def
      split: prod.splits sum.splits dest!: git_log_git)

lemma fetchRepo_log:
  "fetchRepo e repoPath w = (r, w') \<Longrightarrow> git_log w' = git_log w @ [(repoPath, Fetch)]"
  by (auto simp: fetchRepo_def rethrow_def split: prod.splits sum.splits dest!: git_log_git)

lemma unsetUpstream_log:
  "git_log (unsetUpstream e p w) = git_log w @ [(p, Raw [''branch'', ''--unset-upstream''])]"
  by (cases "git e p (Raw [''branch'', ''--unset-upstream'']) w")
     (auto simp: unsetUpstream_def dest!: git_log_git)

text \<open>What each operation returns when its git command has run.\<close>

lemma fetchRepo_ok:
  "git e repoPath Fetch w = (Inr out, w') \<Longrightarrow> fetchRepo e repoPath w = (Inr (), w')"
  by (simp add: fetchRepo_def rethrow_def)

lemma createBranch_ok:
  "git e repoPath (Raw [''branch'', b, start]) w = (Inr out, w') \<Longrightarrow>
     createBranch e repoPath b start w = (Inr (), w')"
  by (simp add: createBranch_def rethrow_def)

lemma addWorktree_ok:
  "git e repoPath (Raw [''worktree'', ''add'', p, b]) w = (Inr out, w') \<Longrightarrow>
     addWorktree e repoPath p b False w = (Inr (), w')"
  by (simp add: addWorktree_def rethrow_def)

lemma addWorktreeWithTracking_ok:
  "git e repoPath (Raw [''worktree'', ''add'', ''--track'', ''-b'', b, p, remote]) w = (Inr out, w') \<Longrightarrow>
     addWorktreeWithTracking e repoPath p b remote w = (Inr (), w')"
  by (simp add: addWorktreeWithTracking_def rethrow_def)

lemma localBranchExists_reads:
  "git e repoPath (Raw [''show-ref'', ''--verify'', ''refs/heads/'' @ b]) w = (answer, w') \<Longrightarrow>
     localBranchExists e repoPath b w = (exists_locally answer, w')"
  by (simp add: localBranchExists_def exists_locally_def split: sum.splits)

lemma remoteBranchExists_reads:
  "git e repoPath (Raw [''ls-remote'', ''--heads'', ''origin'', b]) w = (answer, w') \<Longrightarrow>
     remoteBranchExists e repoPath b w =
       ((case answer of Inl err \<Rightarrow> False | Inr out \<Rightarrow> str_includes out b), w')"
  by (simp add: remoteBranchExists_def split: sum.splits)

subsection \<open>What git lists and what the program looks for\<close>

lemma split_on_nonempty: "split_on d s \<noteq> []"
  by (induction s) (auto split: list.splits)

text \<open>
  \<^verbatim>\<open>remoteBranchExists\<close> asks whether the output of \<^verbatim>\<open>ls-remote\<close> contains the branch name
  somewhere.  It does when the ref of the branch is listed, and it does not when nothing
  is listed.
\<close>

lemma str_includes_iff: "str_includes s sub \<longleftrightarrow> (\<exists>pre post. s = pre @ sub @ post)"
proof (induction s)
  case Nil
  show ?case by auto
next
  case (Cons c s)
  show ?case
  proof
    assume "str_includes (c # s) sub"
    then consider "prefix sub (c # s)" | "str_includes s sub" by auto
    then show "\<exists>pre post. c # s = pre @ sub @ post"
    proof cases
      case 1
      then obtain post where "c # s = sub @ post" by (auto simp: prefix_def)
      then have "c # s = [] @ sub @ post" by simp
      then show ?thesis by blast
    next
      case 2
      with Cons obtain pre post where "s = pre @ sub @ post" by blast
      then have "c # s = (c # pre) @ sub @ post" by simp
      then show ?thesis by blast
    qed
  next
    assume "\<exists>pre post. c # s = pre @ sub @ post"
    then obtain pre post where p: "c # s = pre @ sub @ post" by blast
    show "str_includes (c # s) sub"
    proof (cases pre)
      case Nil
      with p have "prefix sub (c # s)" by (simp add: prefix_def)
      then show ?thesis by simp
    next
      case (Cons a pre')
      with p have "s = pre' @ sub @ post" by simp
      with Cons.IH have "str_includes s sub" by blast
      then show ?thesis by simp
    qed
  qed
qed

lemma split_on_first: "split_on d s = y # ys \<Longrightarrow> \<exists>post. s = y @ post"
proof (induction s arbitrary: y ys)
  case Nil
  then show ?case by simp
next
  case (Cons c s)
  show ?case
  proof (cases "c = d")
    case True
    with Cons.prems show ?thesis by simp
  next
    case False
    obtain z zs where z: "split_on d s = z # zs"
      using split_on_nonempty[of d s] by (cases "split_on d s") auto
    with Cons.IH obtain post where "s = z @ post" by blast
    moreover from Cons.prems False z have "y = c # z" by simp
    ultimately show ?thesis by simp
  qed
qed

lemma split_on_infix: "x \<in> set (split_on d s) \<Longrightarrow> \<exists>pre post. s = pre @ x @ post"
proof (induction s arbitrary: x)
  case Nil
  then show ?case by simp
next
  case (Cons c s)
  obtain z zs where z: "split_on d s = z # zs"
    using split_on_nonempty[of d s] by (cases "split_on d s") auto
  show ?case
  proof (cases "c = d")
    case True
    with Cons.prems consider "x = []" | "x \<in> set (split_on d s)" by auto
    then show ?thesis
    proof cases
      case 1
      then have "c # s = [] @ x @ (c # s)" by simp
      then show ?thesis by blast
    next
      case 2
      with Cons.IH obtain pre post where "s = pre @ x @ post" by blast
      then have "c # s = (c # pre) @ x @ post" by simp
      then show ?thesis by blast
    qed
  next
    case False
    with Cons.prems z consider "x = c # z" | "x \<in> set zs" by auto
    then show ?thesis
    proof cases
      case 1
      from split_on_first[OF z] obtain post where "s = z @ post" by blast
      with 1 have "c # s = [] @ x @ post" by simp
      then show ?thesis by blast
    next
      case 2
      with z have "x \<in> set (split_on d s)" by simp
      with Cons.IH obtain pre post where "s = pre @ x @ post" by blast
      then have "c # s = (c # pre) @ x @ post" by simp
      then show ?thesis by blast
    qed
  qed
qed

lemma split_on_all_empty: "\<forall>x \<in> set (split_on d s). x = [] \<Longrightarrow> set s \<subseteq> {d}"
proof (induction s)
  case Nil
  show ?case by simp
next
  case (Cons c s)
  obtain z zs where z: "split_on d s = z # zs"
    using split_on_nonempty[of d s] by (cases "split_on d s") auto
  show ?case
  proof (cases "c = d")
    case True
    with Cons show ?thesis by simp
  next
    case False
    with Cons.prems z show ?thesis by simp
  qed
qed

lemma listed_ref_infix:
  assumes "r \<in> set (listed_refs out)"
  shows "\<exists>pre post. out = pre @ r @ post"
proof -
  from assms obtain line where line: "line \<in> set (split_on (CHR 0x0A) out)"
    and r: "r = drop 1 (dropWhile (\<lambda>c. c \<noteq> CHR 0x09) line)"
    by (auto simp: listed_refs_def)
  from split_on_infix[OF line] obtain pre post where out: "out = pre @ line @ post" by blast
  define front where "front = takeWhile (\<lambda>c. c \<noteq> CHR 0x09) line @ take 1 (dropWhile (\<lambda>c. c \<noteq> CHR 0x09) line)"
  have "line = front @ r" unfolding r front_def by simp
  with out have "out = (pre @ front) @ r @ post" by (metis append.assoc)
  then show ?thesis by blast
qed

lemma listed_branch_included:
  assumes "exists_remotely (Inr out) b"
  shows "str_includes out b"
proof -
  from assms have "(''refs/heads/'' @ b) \<in> set (listed_refs out)" by (simp add: exists_remotely_def)
  from listed_ref_infix[OF this] obtain pre post where "out = pre @ (''refs/heads/'' @ b) @ post" by blast
  then have "out = (pre @ ''refs/heads/'') @ b @ post" by simp
  then show ?thesis unfolding str_includes_iff by blast
qed

lemma valid_branch_visible:
  assumes "validateBranchName b = None"
  shows "\<exists>c \<in> set b. c \<noteq> CHR 0x0A"
proof -
  from assms have "trim b \<noteq> []" by (auto simp: validateBranchName_def split: if_splits)
  then obtain c where "c \<in> set b" "\<not> isWhiteSpace c"
    by (auto simp: trim_def dest: set_dropWhileD)
  then show ?thesis by (auto simp: isWhiteSpace_def)
qed

lemma nothing_listed_not_included:
  assumes "listed_refs out = []" and "validateBranchName b = None"
  shows "\<not> str_includes out b"
proof
  assume "str_includes out b"
  then obtain pre post where "out = pre @ b @ post" unfolding str_includes_iff by blast
  then have sub: "set b \<subseteq> set out" by auto
  from assms(1) have "\<forall>x \<in> set (split_on (CHR 0x0A) out). x = []"
    by (auto simp: listed_refs_def filter_empty_conv)
  from split_on_all_empty[OF this] sub have "set b \<subseteq> {CHR 0x0A}" by blast
  with valid_branch_visible[OF assms(2)] show False by blast
qed

subsection \<open>The three ways to create a worktree\<close>

text \<open>
  Claim C1 says that, for a repository whose worktree has to be created, a branch that
  exists locally gives \<^verbatim>\<open>added_local\<close>, and so on for the other two cases.  Not when the
  fetch fails: \<^verbatim>\<open>ensureWorktree\<close> fetches first, inside its \<^verbatim>\<open>try\<close> block, and the failure
  ends the attempt (claim C9).  Here the worktree path is absent, the branch \<^verbatim>\<open>feat\<close> is
  attached to no worktree and exists locally, the call is no dry run, and the remote
  cannot be reached: the result is \<^verbatim>\<open>error\<close>, for the repository alone and in the batch.
  Nor when the fetch succeeds and git then refuses to add the worktree: the exception is
  caught and the result is \<^verbatim>\<open>error\<close> again.
\<close>

theorem local_branch_fetch_counterexample:
  "existsSync (files (logged [])) ''/wt/feat/app-ios'' = False \<and>
   fst (findWorktreeByBranch (scripted offline_local_git) ''/r/ios'' ''feat'' (logged [])) = None \<and>
   exists_locally (fst (git (scripted offline_local_git) ''/r/ios''
                          (Raw [''show-ref'', ''--verify'', ''refs/heads/feat'']) (logged []))) \<and>
   fst (ensureWorktree (scripted offline_local_git) ''app-ios'' ''/r/ios'' ''/wt/feat/app-ios'' ''feat''
          ''develop'' False (logged [])) =
     \<lparr>repoName = ''app-ios'', success = False,
      message = ''Failed to create worktree: '' @ GitOperationError ''fetch'' ''Error: no network'',
      status = error\<rparr> \<and>
   (case fst (switchToWorktree (scripted offline_local_git) demo_config demo_options (logged [])) of
      Inl thrown \<Rightarrow> [] | Inr results \<Rightarrow> map status results) = [error, error] \<and>
   exists_locally (fst (git (scripted add_refused_git) ''/r/ios''
                          (Raw [''show-ref'', ''--verify'', ''refs/heads/feat'']) (logged []))) \<and>
   fst (git (scripted add_refused_git) ''/r/ios'' Fetch (logged [])) = Inr [] \<and>
   fst (ensureWorktree (scripted add_refused_git) ''app-ios'' ''/r/ios'' ''/wt/feat/app-ios'' ''feat''
          ''develop'' False (logged [])) =
     \<lparr>repoName = ''app-ios'', success = False,
      message = ''Failed to create worktree: '' @
                GitOperationError ''add-worktree'' ''fatal: could not create work tree dir'',
      status = error\<rparr>"
  by code_simp

text \<open>
  The program does not read "exists remotely" as git does.  \<^verbatim>\<open>remoteBranchExists\<close> looks
  for the branch name anywhere in the output of \<^verbatim>\<open>ls-remote\<close>, and \<^verbatim>\<open>ls-remote\<close> also lists
  the heads whose last parts match: with the head \<^verbatim>\<open>team/feat\<close> on the remote and no
  branch \<^verbatim>\<open>feat\<close> anywhere, the program takes \<^verbatim>\<open>feat\<close> for a remote branch and tries to track
  \<^verbatim>\<open>origin/feat\<close>.  The amended claim below says nothing about that case.
\<close>

lemma remote_substring:
  "exists_remotely (fst (git (scripted elsewhere_git) ''/r/ios''
                           (Raw [''ls-remote'', ''--heads'', ''origin'', ''feat'']) (logged []))) ''feat'' = False"
  "fst (remoteBranchExists (scripted elsewhere_git) ''/r/ios'' ''feat'' (logged [])) = True"
  "status (fst (ensureWorktree (scripted elsewhere_git) ''app-ios'' ''/r/ios'' ''/wt/feat/app-ios'' ''feat''
                  ''develop'' False (logged []))) = error"
  by code_simp+

text \<open>
  Claim C1, amended.  The worktree path of the repository is absent, its branch (a valid
  branch name) is attached to no worktree, the call is no dry run, and the fetch succeeds.
  Whether the branch exists is what git answers after the fetch: \<^verbatim>\<open>show-ref --verify\<close> for
  the local branch, \<^verbatim>\<open>ls-remote --heads origin\<close> for the remote one.  The git commands named
  below succeed (what happens when one of them fails is the matter of claim C7).
  \<^item> The branch exists neither locally nor remotely (\<^verbatim>\<open>ls-remote\<close> lists nothing, or fails):
    git runs \<^verbatim>\<open>branch <branch> origin/<base>\<close>, then \<^verbatim>\<open>worktree add <path> <branch>\<close> (without
    \<^verbatim>\<open>-b\<close>: \<^verbatim>\<open>createBranch = false\<close>), then \<^verbatim>\<open>branch --unset-upstream\<close> in the worktree; the
    result is \<^verbatim>\<open>created_new\<close>.
  \<^item> The branch exists locally: \<^verbatim>\<open>worktree add <path> <branch>\<close>, then \<^verbatim>\<open>branch --unset-upstream\<close>;
    the result is \<^verbatim>\<open>added_local\<close>.
  \<^item> The branch exists remotely only (its ref is listed):
    \<^verbatim>\<open>worktree add --track -b <branch> <path> origin/<branch>\<close>; the result is \<^verbatim>\<open>added_remote\<close>.
  \<^item> For a repository that gets as far as the directory of its worktree path, whose name is
    not the name of a member of \<^verbatim>\<open>Object.prototype\<close>, and for which making that directory
    does not throw, the base branch \<^verbatim>\<open>switchToWorktree\<close> hands to \<^verbatim>\<open>ensureWorktree\<close> is the
    override for the repository, else the \<^verbatim>\<open>base_branch\<close> of the configuration, else
    \<^verbatim>\<open>master\<close>.
\<close>

theorem create_cases:
  assumes "\<not> existsSync (files w) worktreePath"
    and "findWorktreeByBranch e baseRepoPath branch w = (attached, w1)"
    and "\<not> truthy attached"
    and "validateBranchName branch = None"
    and "git e baseRepoPath Fetch w1 = (Inr fetched, w2)"
    and "git e baseRepoPath (Raw [''show-ref'', ''--verify'', ''refs/heads/'' @ branch]) w2 = (localAnswer, w3)"
    and "git e baseRepoPath (Raw [''ls-remote'', ''--heads'', ''origin'', branch]) w3 = (remoteAnswer, w4)"
  shows
   "(\<not> exists_locally localAnswer \<and> lists_no_head remoteAnswer \<and>
     git e baseRepoPath (Raw [''branch'', branch, ''origin/'' @ baseBranch]) w4 = (Inr out5, w5) \<and>
     git e baseRepoPath (Raw [''worktree'', ''add'', worktreePath, branch]) w5 = (Inr out6, w6) \<longrightarrow>
       ensureWorktree e repo baseRepoPath worktreePath branch baseBranch False w =
         (\<lparr>repoName = repo, success = True,
           message = ''Created new branch '' @ [CHR 0x27] @ branch @ [CHR 0x27] @ '' from origin/'' @
                     baseBranch @ '' and added worktree'',
           status = created_new\<rparr>, unsetUpstream e worktreePath w6) \<and>
       git_log (unsetUpstream e worktreePath w6) = git_log w4 @
         [(baseRepoPath, Raw [''branch'', branch, ''origin/'' @ baseBranch]),
          (baseRepoPath, Raw [''worktree'', ''add'', worktreePath, branch]),
          (worktreePath, Raw [''branch'', ''--unset-upstream''])]) \<and>
    (exists_locally localAnswer \<and>
     git e baseRepoPath (Raw [''worktree'', ''add'', worktreePath, branch]) w4 = (Inr out5, w5) \<longrightarrow>
       ensureWorktree e repo baseRepoPath worktreePath branch baseBranch False w =
         (\<lparr>repoName = repo, success = True,
           message = ''Added worktree for existing local branch '' @ [CHR 0x27] @ branch @ [CHR 0x27],
           status = added_local\<rparr>, unsetUpstream e worktreePath w5) \<and>
       git_log (unsetUpstream e worktreePath w5) = git_log w4 @
         [(baseRepoPath, Raw [''worktree'', ''add'', worktreePath, branch]),
          (worktreePath, Raw [''branch'', ''--unset-upstream''])]) \<and>
    (\<not> exists_locally localAnswer \<and> exists_remotely remoteAnswer branch \<and>
     git e baseRepoPath (Raw [''worktree'', ''add'', ''--track'', ''-b'', branch, worktreePath,
                              ''origin/'' @ branch]) w4 = (Inr out5, w5) \<longrightarrow>
       ensureWorktree e repo baseRepoPath worktreePath branch baseBranch False w =
         (\<lparr>repoName = repo, success = True,
           message = ''Added worktree and tracking remote branch '' @ [CHR 0x27] @ ''origin/'' @ branch @ [CHR 0x27],
           status = added_remote\<rparr>, w5) \<and>
       git_log w5 = git_log w4 @
         [(baseRepoPath, Raw [''worktree'', ''add'', ''--track'', ''-b'', branch, worktreePath, ''origin/'' @ branch])]) \<and>
    git_log w4 = git_log w @
         [(baseRepoPath, Raw [''worktree'', ''list'', ''--porcelain'']), (baseRepoPath, Fetch),
          (baseRepoPath, Raw [''show-ref'', ''--verify'', ''refs/heads/'' @ branch]),
          (baseRepoPath, Raw [''ls-remote'', ''--heads'', ''origin'', branch])] \<and>
    (reaches_ensure options r \<and> name r \<notin> set object_prototype_members \<and>
     with_parent e (worktree_path_for config options r) w0 = Inr w0' \<longrightarrow>
       switch_repo e config options r w0 =
         (case ensureWorktree e (name r) (base_path r) (worktree_path_for config options r)
                 (branch_name_for options r) (base_branch_for config options r) (sw_dryRun options) w0' of
            (x, w') \<Rightarrow> (Inr (Some x), w')))"
proof (intro conjI impI)
  note start = assms(1) assms(2) assms(3)
  have body: "ensureWorktree e repo baseRepoPath worktreePath branch baseBranch False w =
      (case ensure_body e repo baseRepoPath worktreePath branch baseBranch w1 of
         (Inl err, w2) \<Rightarrow> (\<lparr>repoName = repo, success = False,
                    message = ''Failed to create worktree: '' @ err, status = error\<rparr>, w2)
       | (Inr x, w2) \<Rightarrow> (x, w2))"
    using start by (simp add: ensureWorktree_def)
  note fetched = fetchRepo_ok[OF assms(5)]
  note isLocal = localBranchExists_reads[OF assms(6)]
  note isRemote = remoteBranchExists_reads[OF assms(7)]
  {
    assume a: "\<not> exists_locally localAnswer \<and> lists_no_head remoteAnswer \<and>
     git e baseRepoPath (Raw [''branch'', branch, ''origin/'' @ baseBranch]) w4 = (Inr out5, w5) \<and>
     git e baseRepoPath (Raw [''worktree'', ''add'', worktreePath, branch]) w5 = (Inr out6, w6)"
    then have nr: "(case remoteAnswer of Inl err \<Rightarrow> False | Inr out \<Rightarrow> str_includes out branch) = False"
      using nothing_listed_not_included[OF _ assms(4)]
      by (auto simp: lists_no_head_def split: sum.splits)
    from a have made: "createBranch e baseRepoPath branch (''origin/'' @ baseBranch) w4 = (Inr (), w5)"
      and added: "addWorktree e baseRepoPath worktreePath branch False w5 = (Inr (), w6)"
      using createBranch_ok addWorktree_ok by blast+
    from a made added show "ensureWorktree e repo baseRepoPath worktreePath branch baseBranch False w =
         (\<lparr>repoName = repo, success = True,
           message = ''Created new branch '' @ [CHR 0x27] @ branch @ [CHR 0x27] @ '' from origin/'' @
                     baseBranch @ '' and added worktree'',
           status = created_new\<rparr>, unsetUpstream e worktreePath w6)"
      by (simp add: body ensure_body_def fetched isLocal isRemote nr)
    from a show "git_log (unsetUpstream e worktreePath w6) = git_log w4 @
         [(baseRepoPath, Raw [''branch'', branch, ''origin/'' @ baseBranch]),
          (baseRepoPath, Raw [''worktree'', ''add'', worktreePath, branch]),
          (worktreePath, Raw [''branch'', ''--unset-upstream''])]"
      by (auto simp: unsetUpstream_log dest!: git_log_git)
  }
  {
    assume a: "exists_locally localAnswer \<and>
     git e baseRepoPath (Raw [''worktree'', ''add'', worktreePath, branch]) w4 = (Inr out5, w5)"
    then have added: "addWorktree e baseRepoPath worktreePath branch False w4 = (Inr (), w5)"
      using addWorktree_ok by blast
    from a added show "ensureWorktree e repo baseRepoPath worktreePath branch baseBranch False w =
         (\<lparr>repoName = repo, success = True,
           message = ''Added worktree for existing local branch '' @ [CHR 0x27] @ branch @ [CHR 0x27],
           status = added_local\<rparr>, unsetUpstream e worktreePath w5)"
      by (simp add: body ensure_body_def fetched isLocal isRemote)
    from a show "git_log (unsetUpstream e worktreePath w5) = git_log w4 @
         [(baseRepoPath, Raw [''worktree'', ''add'', worktreePath, branch]),
          (worktreePath, Raw [''branch'', ''--unset-upstream''])]"
      by (auto simp: unsetUpstream_log dest!: git_log_git)
  }
  {
    assume a: "\<not> exists_locally localAnswer \<and> exists_remotely remoteAnswer branch \<and>
     git e baseRepoPath (Raw [''worktree'', ''add'', ''--track'', ''-b'', branch, worktreePath,
                              ''origin/'' @ branch]) w4 = (Inr out5, w5)"
    then have yr: "(case remoteAnswer of Inl err \<Rightarrow> False | Inr out \<Rightarrow> str_includes out branch) = True"
      using listed_branch_included[of _ branch]
      by (auto simp: exists_remotely_def split: sum.splits)
    from a have added: "addWorktreeWithTracking e baseRepoPath worktreePath branch (''origin/'' @ branch) w4 = (Inr (), w5)"
      using addWorktreeWithTracking_ok by blast
    from a added show "ensureWorktree e repo baseRepoPath worktreePath branch baseBranch False w =
         (\<lparr>repoName = repo, success = True,
           message = ''Added worktree and tracking remote branch '' @ [CHR 0x27] @ ''origin/'' @ branch @ [CHR 0x27],
           status = added_remote\<rparr>, w5)"
      by (simp add: body ensure_body_def fetched isLocal isRemote yr)
    from a show "git_log w5 = git_log w4 @
         [(baseRepoPath, Raw [''worktree'', ''add'', ''--track'', ''-b'', branch, worktreePath, ''origin/'' @ branch])]"
      by (auto dest!: git_log_git)
  }
  show "git_log w4 = git_log w @
         [(baseRepoPath, Raw [''worktree'', ''list'', ''--porcelain'']), (baseRepoPath, Fetch),
          (baseRepoPath, Raw [''show-ref'', ''--verify'', ''refs/heads/'' @ branch]),
          (baseRepoPath, Raw [''ls-remote'', ''--heads'', ''origin'', branch])]"
    using findWorktreeByBranch_log[OF assms(2)] git_log_git[OF assms(5)]
      git_log_git[OF assms(6)] git_log_git[OF assms(7)] by simp
  {
    assume a: "reaches_ensure options r \<and> name r \<notin> set object_prototype_members \<and>
     with_parent e (worktree_path_for config options r) w0 = Inr w0'"
    then show "switch_repo e config options r w0 =
         (case ensureWorktree e (name r) (base_path r) (worktree_path_for config options r)
                 (branch_name_for options r) (base_branch_for config options r) (sw_dryRun options) w0' of
            (x, w') \<Rightarrow> (Inr (Some x), w'))"
      using switch_repo_reaches[of options r e config w0] base_text_plain[of r config options] by simp
  }
qed

lemma new_branch_run:
  "\<not> existsSync (files (logged [])) ''/wt/feat/app-ios''"
  "findWorktreeByBranch (scripted new_branch_git) ''/r/ios'' ''feat'' (logged []) = (None, logged (take 1 probes))"
  "\<not> truthy None"
  "validateBranchName ''feat'' = None"
  "git (scripted new_branch_git) ''/r/ios'' Fetch (logged (take 1 probes)) = (Inr [], logged (take 2 probes))"
  "git (scripted new_branch_git) ''/r/ios'' (Raw [''show-ref'', ''--verify'', ''refs/heads/'' @ ''feat''])
     (logged (take 2 probes)) = (Inl ''Error: not a valid ref'', logged (take 3 probes))"
  "git (scripted new_branch_git) ''/r/ios'' (Raw [''ls-remote'', ''--heads'', ''origin'', ''feat''])
     (logged (take 3 probes)) = (Inr [], logged probes)"
  "\<not> exists_locally (Inl ''Error: not a valid ref'') \<and> lists_no_head (Inr []) \<and>
   git (scripted new_branch_git) ''/r/ios'' (Raw [''branch'', ''feat'', ''origin/'' @ ''develop'']) (logged probes)
     = (Inr [], logged (probes @ [(''/r/ios'', Raw [''branch'', ''feat'', ''origin/develop''])])) \<and>
   git (scripted new_branch_git) ''/r/ios'' (Raw [''worktree'', ''add'', ''/wt/feat/app-ios'', ''feat''])
      (logged (probes @ [(''/r/ios'', Raw [''branch'', ''feat'', ''origin/develop''])]))
     = (Inr [], logged (probes @ [(''/r/ios'', Raw [''branch'', ''feat'', ''origin/develop'']),
                                 (''/r/ios'', Raw [''worktree'', ''add'', ''/wt/feat/app-ios'', ''feat''])]))"
  by code_simp+

lemma local_branch_run:
  "findWorktreeByBranch (scripted local_branch_git) ''/r/ios'' ''feat'' (logged []) = (None, logged (take 1 probes))"
  "git (scripted local_branch_git) ''/r/ios'' Fetch (logged (take 1 probes)) = (Inr [], logged (take 2 probes))"
  "git (scripted local_branch_git) ''/r/ios'' (Raw [''show-ref'', ''--verify'', ''refs/heads/'' @ ''feat''])
     (logged (take 2 probes)) = (Inr [], logged (take 3 probes))"
  "git (scripted local_branch_git) ''/r/ios'' (Raw [''ls-remote'', ''--heads'', ''origin'', ''feat''])
     (logged (take 3 probes)) = (Inr [], logged probes)"
  "exists_locally (Inr []) \<and>
   git (scripted local_branch_git) ''/r/ios'' (Raw [''worktree'', ''add'', ''/wt/feat/app-ios'', ''feat'']) (logged probes)
     = (Inr [], logged (probes @ [(''/r/ios'', Raw [''worktree'', ''add'', ''/wt/feat/app-ios'', ''feat''])]))"
  by code_simp+

lemma remote_branch_run:
  "findWorktreeByBranch (scripted remote_branch_git) ''/r/ios'' ''feat'' (logged []) = (None, logged (take 1 probes))"
  "git (scripted remote_branch_git) ''/r/ios'' Fetch (logged (take 1 probes)) = (Inr [], logged (take 2 probes))"
  "git (scripted remote_branch_git) ''/r/ios'' (Raw [''show-ref'', ''--verify'', ''refs/heads/'' @ ''feat''])
     (logged (take 2 probes)) = (Inl ''Error: not a valid ref'', logged (take 3 probes))"
  "git (scripted remote_branch_git) ''/r/ios'' (Raw [''ls-remote'', ''--heads'', ''origin'', ''feat''])
     (logged (take 3 probes)) = (Inr (''4f2a'' @ [CHR 0x09] @ ''refs/heads/feat'' @ [CHR 0x0A]), logged probes)"
  "\<not> exists_locally (Inl ''Error: not a valid ref'') \<and>
   exists_remotely (Inr (''4f2a'' @ [CHR 0x09] @ ''refs/heads/feat'' @ [CHR 0x0A])) ''feat'' \<and>
   git (scripted remote_branch_git) ''/r/ios''
      (Raw [''worktree'', ''add'', ''--track'', ''-b'', ''feat'', ''/wt/feat/app-ios'', ''origin/'' @ ''feat'']) (logged probes)
     = (Inr [], logged (probes @ [(''/r/ios'', Raw [''worktree'', ''add'', ''--track'', ''-b'', ''feat'', ''/wt/feat/app-ios'', ''origin/feat''])]))"
  by code_simp+

lemma demo_unset:
  "unsetUpstream (scripted new_branch_git) ''/wt/feat/app-ios''
      (logged (probes @ [(''/r/ios'', Raw [''branch'', ''feat'', ''origin/develop'']),
                         (''/r/ios'', Raw [''worktree'', ''add'', ''/wt/feat/app-ios'', ''feat''])]))
   = logged (probes @ [(''/r/ios'', Raw [''branch'', ''feat'', ''origin/develop'']),
                       (''/r/ios'', Raw [''worktree'', ''add'', ''/wt/feat/app-ios'', ''feat'']),
                       (''/wt/feat/app-ios'', Raw [''branch'', ''--unset-upstream''])])"
  "unsetUpstream (scripted local_branch_git) ''/wt/feat/app-ios''
      (logged (probes @ [(''/r/ios'', Raw [''worktree'', ''add'', ''/wt/feat/app-ios'', ''feat''])]))
   = logged (probes @ [(''/r/ios'', Raw [''worktree'', ''add'', ''/wt/feat/app-ios'', ''feat'']),
                       (''/wt/feat/app-ios'', Raw [''branch'', ''--unset-upstream''])])"
  by code_simp+

lemma demo_switch_args:
  "reaches_ensure demo_options (hd (repos demo_config)) \<and>
   name (hd (repos demo_config)) \<notin> set object_prototype_members \<and>
   with_parent (scripted new_branch_git) (worktree_path_for demo_config demo_options (hd (repos demo_config)))
     (logged []) = Inr (logged [])"
  "name (hd (repos demo_config)) = ''app-ios''"
  "base_path (hd (repos demo_config)) = ''/r/ios''"
  "worktree_path_for demo_config demo_options (hd (repos demo_config)) = ''/wt/feat/app-ios''"
  "branch_name_for demo_options (hd (repos demo_config)) = ''feat''"
  "base_branch_for demo_config demo_options (hd (repos demo_config)) = ''develop''"
  "sw_dryRun demo_options = False"
  by code_simp+

theorem create_cases_witness:
  "switch_repo (scripted new_branch_git) demo_config demo_options (hd (repos demo_config)) (logged []) =
     (Inr (Some \<lparr>repoName = ''app-ios'', success = True,
                  message = ''Created new branch '' @ [CHR 0x27] @ ''feat'' @ [CHR 0x27] @ '' from origin/'' @
                            ''develop'' @ '' and added worktree'',
                  status = created_new\<rparr>),
      logged (probes @ [(''/r/ios'', Raw [''branch'', ''feat'', ''origin/develop'']),
                        (''/r/ios'', Raw [''worktree'', ''add'', ''/wt/feat/app-ios'', ''feat'']),
                        (''/wt/feat/app-ios'', Raw [''branch'', ''--unset-upstream''])])) \<and>
   ensureWorktree (scripted local_branch_git) ''app-ios'' ''/r/ios'' ''/wt/feat/app-ios'' ''feat'' ''develop'' False (logged []) =
     (\<lparr>repoName = ''app-ios'', success = True,
       message = ''Added worktree for existing local branch '' @ [CHR 0x27] @ ''feat'' @ [CHR 0x27],
       status = added_local\<rparr>,
      logged (probes @ [(''/r/ios'', Raw [''worktree'', ''add'', ''/wt/feat/app-ios'', ''feat'']),
                        (''/wt/feat/app-ios'', Raw [''branch'', ''--unset-upstream''])])) \<and>
   ensureWorktree (scripted remote_branch_git) ''app-ios'' ''/r/ios'' ''/wt/feat/app-ios'' ''feat'' ''develop'' False (logged []) =
     (\<lparr>repoName = ''app-ios'', success = True,
       message = ''Added worktree and tracking remote branch '' @ [CHR 0x27] @ ''origin/'' @ ''feat'' @ [CHR 0x27],
       status = added_remote\<rparr>,
      logged (probes @ [(''/r/ios'', Raw [''worktree'', ''add'', ''--track'', ''-b'', ''feat'', ''/wt/feat/app-ios'', ''origin/feat''])]))"
proof -
  note n = new_branch_run
  note th1 = create_cases[OF n(1) n(2) n(3) n(4) n(5) n(6) n(7),
      where ?baseBranch = "''develop''" and ?repo = "''app-ios''" and ?options = demo_options
        and ?r = "hd (repos demo_config)" and ?config = demo_config and ?w0.0 = "logged []"
        and ?w0' = "logged []" and ?out5.0 = "[]" and ?out6.0 = "[]"
        and ?w5.0 = "logged (probes @ [(''/r/ios'', Raw [''branch'', ''feat'', ''origin/develop''])])"
        and ?w6.0 = "logged (probes @ [(''/r/ios'', Raw [''branch'', ''feat'', ''origin/develop'']),
                                 (''/r/ios'', Raw [''worktree'', ''add'', ''/wt/feat/app-ios'', ''feat''])])"]
  from th1 n(8) have e1: "ensureWorktree (scripted new_branch_git) ''app-ios'' ''/r/ios'' ''/wt/feat/app-ios'' ''feat'' ''develop'' False (logged []) =
     (\<lparr>repoName = ''app-ios'', success = True,
            message = ''Created new branch '' @ [CHR 0x27] @ ''feat'' @ [CHR 0x27] @ '' from origin/'' @
                      ''develop'' @ '' and added worktree'',
            status = created_new\<rparr>,
      logged (probes @ [(''/r/ios'', Raw [''branch'', ''feat'', ''origin/develop'']),
                        (''/r/ios'', Raw [''worktree'', ''add'', ''/wt/feat/app-ios'', ''feat'']),
                        (''/wt/feat/app-ios'', Raw [''branch'', ''--unset-upstream''])]))"
    unfolding demo_unset by blast
  from th1 demo_switch_args(1) have "switch_repo (scripted new_branch_git) demo_config demo_options (hd (repos demo_config)) (logged []) =
         (case ensureWorktree (scripted new_branch_git) (name (hd (repos demo_config))) (base_path (hd (repos demo_config)))
                 (worktree_path_for demo_config demo_options (hd (repos demo_config)))
                 (branch_name_for demo_options (hd (repos demo_config)))
                 (base_branch_for demo_config demo_options (hd (repos demo_config))) (sw_dryRun demo_options)
                 (logged []) of
            (x, w') \<Rightarrow> (Inr (Some x), w'))"
    by blast
  then have s1: "switch_repo (scripted new_branch_git) demo_config demo_options (hd (repos demo_config)) (logged []) =
     (Inr (Some \<lparr>repoName = ''app-ios'', success = True,
            message = ''Created new branch '' @ [CHR 0x27] @ ''feat'' @ [CHR 0x27] @ '' from origin/'' @
                      ''develop'' @ '' and added worktree'',
            status = created_new\<rparr>),
      logged (probes @ [(''/r/ios'', Raw [''branch'', ''feat'', ''origin/develop'']),
                        (''/r/ios'', Raw [''worktree'', ''add'', ''/wt/feat/app-ios'', ''feat'']),
                        (''/wt/feat/app-ios'', Raw [''branch'', ''--unset-upstream''])]))"
    unfolding demo_switch_args(2-7) e1 by simp
  note l = local_branch_run
  note th2 = create_cases[OF n(1) l(1) n(3) n(4) l(2) l(3) l(4),
      where ?baseBranch = "''develop''" and ?repo = "''app-ios''" and ?options = demo_options
        and ?r = "hd (repos demo_config)" and ?config = demo_config and ?w0.0 = "logged []"
        and ?w0' = "logged []" and ?out5.0 = "[]" and ?out6.0 = "[]"
        and ?w5.0 = "logged (probes @ [(''/r/ios'', Raw [''worktree'', ''add'', ''/wt/feat/app-ios'', ''feat''])])"
        and ?w6.0 = "logged []"]
  from th2 l(5) have e2: "ensureWorktree (scripted local_branch_git) ''app-ios'' ''/r/ios'' ''/wt/feat/app-ios'' ''feat'' ''develop'' False (logged []) =
     (\<lparr>repoName = ''app-ios'', success = True,
       message = ''Added worktree for existing local branch '' @ [CHR 0x27] @ ''feat'' @ [CHR 0x27],
       status = added_local\<rparr>,
      logged (probes @ [(''/r/ios'', Raw [''worktree'', ''add'', ''/wt/feat/app-ios'', ''feat'']),
                        (''/wt/feat/app-ios'', Raw [''branch'', ''--unset-upstream''])]))"
    unfolding demo_unset by blast
  note r = remote_branch_run
  note th3 = create_cases[OF n(1) r(1) n(3) n(4) r(2) r(3) r(4),
      where ?baseBranch = "''develop''" and ?repo = "''app-ios''" and ?options = demo_options
        and ?r = "hd (repos demo_config)" and ?config = demo_config and ?w0.0 = "logged []"
        and ?w0' = "logged []" and ?out5.0 = "[]" and ?out6.0 = "[]"
        and ?w5.0 = "logged (probes @ [(''/r/ios'', Raw [''worktree'', ''add'', ''--track'', ''-b'', ''feat'', ''/wt/feat/app-ios'', ''origin/feat''])])"
        and ?w6.0 = "logged []"]
  from th3 r(5) have e3: "ensureWorktree (scripted remote_branch_git) ''app-ios'' ''/r/ios'' ''/wt/feat/app-ios'' ''feat'' ''develop'' False (logged []) =
     (\<lparr>repoName = ''app-ios'', success = True,
       message = ''Added worktree and tracking remote branch '' @ [CHR 0x27] @ ''origin/'' @ ''feat'' @ [CHR 0x27],
       status = added_remote\<rparr>,
      logged (probes @ [(''/r/ios'', Raw [''worktree'', ''add'', ''--track'', ''-b'', ''feat'', ''/wt/feat/app-ios'', ''origin/feat''])]))"
    by blast
  from s1 e2 e3 show ?thesis by blast
qed

subsection \<open>A fetch that fails\<close>

text \<open>
  Claim C9 says that a failing fetch is swallowed and leaves the result of the repository
  as it would be.  It does not: \<^verbatim>\<open>fetchRepo\<close> rethrows the failure as a
  \<^verbatim>\<open>GitOperationError\<close> and \<^verbatim>\<open>ensureWorktree\<close> awaits it inside its \<^verbatim>\<open>try\<close> block.  With
  the same disk and the same answers of git to every other command, the repository gets
  \<^verbatim>\<open>created_new\<close> when the fetch succeeds and \<^verbatim>\<open>error\<close> when it fails.
\<close>

theorem fetch_failure_counterexample:
  "status (fst (ensureWorktree (scripted new_branch_git) ''app-ios'' ''/r/ios'' ''/wt/feat/app-ios''
                  ''feat'' ''develop'' False (logged []))) = created_new \<and>
   success (fst (ensureWorktree (scripted new_branch_git) ''app-ios'' ''/r/ios'' ''/wt/feat/app-ios''
                  ''feat'' ''develop'' False (logged []))) = True \<and>
   fetchRepo (scripted ios_offline_git) ''/r/ios'' (logged (take 1 probes)) =
     (Inl (GitOperationError ''fetch'' ''Error: no network''), logged (take 2 probes)) \<and>
   status (fst (ensureWorktree (scripted ios_offline_git) ''app-ios'' ''/r/ios'' ''/wt/feat/app-ios''
                  ''feat'' ''develop'' False (logged []))) = error \<and>
   success (fst (ensureWorktree (scripted ios_offline_git) ''app-ios'' ''/r/ios'' ''/wt/feat/app-ios''
                  ''feat'' ''develop'' False (logged []))) = False"
  by code_simp

text \<open>
  Claim C9, amended.  When the worktree has to be created (the path is absent, the branch
  is not attached, no dry run) and the fetch fails, the failure is not swallowed: the
  result of the repository is \<^verbatim>\<open>error\<close> with \<^verbatim>\<open>success = false\<close>, its message is
  \<^verbatim>\<open>Failed to create worktree:\<close> followed by the message of the \<^verbatim>\<open>GitOperationError\<close> for
  the operation \<^verbatim>\<open>fetch\<close> with git's own text, and no git command follows the fetch for
  that repository.
\<close>

theorem fetch_failure_reported:
  assumes "\<not> existsSync (files w) worktreePath"
    and "findWorktreeByBranch e baseRepoPath branch w = (attached, w1)"
    and "\<not> truthy attached"
    and "git e baseRepoPath Fetch w1 = (Inl details, w2)"
  shows "fetchRepo e baseRepoPath w1 = (Inl (GitOperationError ''fetch'' details), w2) \<and>
         ensureWorktree e repo baseRepoPath worktreePath branch baseBranch False w =
           (\<lparr>repoName = repo, success = False,
             message = ''Failed to create worktree: '' @ GitOperationError ''fetch'' details,
             status = error\<rparr>, w2) \<and>
         git_log w2 = git_log w @
           [(baseRepoPath, Raw [''worktree'', ''list'', ''--porcelain'']), (baseRepoPath, Fetch)]"
proof -
  have f: "fetchRepo e baseRepoPath w1 = (Inl (GitOperationError ''fetch'' details), w2)"
    using assms(4) by (simp add: fetchRepo_def rethrow_def)
  then have "ensure_body e repo baseRepoPath worktreePath branch baseBranch w1 =
      (Inl (GitOperationError ''fetch'' details), w2)"
    by (simp add: ensure_body_def)
  then have "ensureWorktree e repo baseRepoPath worktreePath branch baseBranch False w =
           (\<lparr>repoName = repo, success = False,
             message = ''Failed to create worktree: '' @ GitOperationError ''fetch'' details,
             status = error\<rparr>, w2)"
    using assms(1-3) by (simp add: ensureWorktree_def)
  moreover have "git_log w2 = git_log w @
           [(baseRepoPath, Raw [''worktree'', ''list'', ''--porcelain'']), (baseRepoPath, Fetch)]"
    using findWorktreeByBranch_log[OF assms(2)] git_log_git[OF assms(4)] by simp
  ultimately show ?thesis using f by blast
qed

lemma offline_fetch:
  "git (scripted ios_offline_git) ''/r/ios'' Fetch (logged (take 1 probes)) =
     (Inl ''Error: no network'', logged (take 2 probes))"
  "findWorktreeByBranch (scripted ios_offline_git) ''/r/ios'' ''feat'' (logged []) = (None, logged (take 1 probes))"
  by code_simp+

theorem fetch_failure_reported_witness:
  "ensureWorktree (scripted ios_offline_git) ''app-ios'' ''/r/ios'' ''/wt/feat/app-ios'' ''feat'' ''develop'' False
     (logged []) =
     (\<lparr>repoName = ''app-ios'', success = False,
       message = ''Failed to create worktree: '' @ GitOperationError ''fetch'' ''Error: no network'',
       status = error\<rparr>, logged (take 2 probes))"
  using fetch_failure_reported[OF new_branch_run(1) offline_fetch(2) new_branch_run(3) offline_fetch(1),
      of "''app-ios''" "''develop''"]
  by blast

section \<open>Properties of clean and of the label checks\<close>

lemma validateNoPathTraversal_label:
  "validateNoPathTraversal l ''label'' = validateLabel l"
  by (simp add: validateNoPathTraversal_def validateLabel_def)

lemma str_includes_nonempty: "str_includes l (c # cs) \<Longrightarrow> l \<noteq> []"
  by (cases l) auto

lemma bad_label_invalid:
  assumes "str_includes l ''..'' \<or> str_includes l ''/'' \<or> str_includes l [CHR 0x5C] \<or> path_isAbsolute l \<or> l = []"
  shows "validateLabel l \<noteq> None"
  using assms by (auto simp: validateLabel_def)

lemma bad_label_truthy:
  assumes "str_includes l ''..'' \<or> str_includes l ''/'' \<or> str_includes l [CHR 0x5C] \<or> path_isAbsolute l"
  shows "truthy (Some l)"
  using assms by (auto simp: truthy_def path_isAbsolute_def dest: str_includes_nonempty)

subsection \<open>Labels that are rejected\<close>

text \<open>
  Claim C5 says that create and clean both reject the empty label.  Clean does; create
  reads an empty label as no label, takes the branch name as the folder and goes on.
  Here the label is the empty string, the branch is \<^verbatim>\<open>feat\<close>: both repositories get
  \<^verbatim>\<open>created_new\<close>, the folder \<^verbatim>\<open>/wt/feat\<close> is made on disk and fourteen git commands run.
\<close>

theorem empty_label_counterexample:
  "(case switchToWorktree (scripted new_branch_git) demo_config (demo_options\<lparr>sw_label := Some []\<rparr>)
           (demo_world [(''/'', True), (''/wt'', True)]) of
      (returned, w') \<Rightarrow>
        (map_sum id (map status) returned, existsSync (files w') ''/wt/feat'', length (git_log w'))) =
     (Inr [created_new, created_new], True, 14) \<and>
   \<not> existsSync [(''/'', True), (''/wt'', True)] ''/wt/feat''"
  by code_simp

text \<open>
  Claim C5, amended.  A label that contains \<^verbatim>\<open>..\<close>, a slash or a backslash, or is an
  absolute path, is rejected by create and by clean; the empty label is rejected by clean
  (create treats it as no label given and uses the branch name as the folder).  The
  rejection is the single result with an empty repository name, \<^verbatim>\<open>success = false\<close>, status
  \<^verbatim>\<open>error\<close> and the message of the validation; nothing is thrown, and the file system, the
  repositories, the git log and the builds are as they were.
\<close>

theorem invalid_label_rejected:
  "((str_includes l ''..'' \<or> str_includes l ''/'' \<or> str_includes l [CHR 0x5C] \<or> path_isAbsolute l) \<longrightarrow>
      (\<exists>msg. switchToWorktree e config (options\<lparr>sw_label := Some l\<rparr>) w =
         (Inr [\<lparr>repoName = [], success = False, message = msg, status = error\<rparr>], w))) \<and>
   ((str_includes l ''..'' \<or> str_includes l ''/'' \<or> str_includes l [CHR 0x5C] \<or> path_isAbsolute l \<or> l = []) \<longrightarrow>
      (\<exists>msg. clean e config (cleanOptions\<lparr>cl_label := l\<rparr>) w =
         ([\<lparr>repoName = [], success = False, message = msg, status = error\<rparr>], w)))"
proof (intro conjI impI)
  assume a: "str_includes l ''..'' \<or> str_includes l ''/'' \<or> str_includes l [CHR 0x5C] \<or> path_isAbsolute l"
  then obtain msg where "validateLabel l = Some msg" using bad_label_invalid[of l] by auto
  then show "\<exists>msg. switchToWorktree e config (options\<lparr>sw_label := Some l\<rparr>) w =
         (Inr [\<lparr>repoName = [], success = False, message = msg, status = error\<rparr>], w)"
    using bad_label_truthy[OF a] by (simp add: switchToWorktree_def)
next
  assume "str_includes l ''..'' \<or> str_includes l ''/'' \<or> str_includes l [CHR 0x5C] \<or> path_isAbsolute l \<or> l = []"
  then obtain msg where "validateLabel l = Some msg" using bad_label_invalid[of l] by auto
  then show "\<exists>msg. clean e config (cleanOptions\<lparr>cl_label := l\<rparr>) w =
         ([\<lparr>repoName = [], success = False, message = msg, status = error\<rparr>], w)"
    by (simp add: clean_def validateNoPathTraversal_label)
qed

theorem invalid_label_rejected_witness:
  "switchToWorktree (scripted new_branch_git) demo_config (demo_options\<lparr>sw_label := Some ''../etc''\<rparr>)
      (demo_world both_worktrees) =
     (Inr [\<lparr>repoName = [], success = False,
            message = ''Invalid label: cannot contain path separators or traversal sequences'',
            status = error\<rparr>], demo_world both_worktrees) \<and>
   clean (scripted new_branch_git) demo_config (demo_clean\<lparr>cl_label := []\<rparr>) (demo_world both_worktrees) =
     ([\<lparr>repoName = [], success = False, message = ''Invalid label: cannot be empty'',
        status = error\<rparr>], demo_world both_worktrees)"
proof -
  note th1 = invalid_label_rejected[of "''../etc''" "scripted new_branch_git" demo_config demo_options
      "demo_world both_worktrees" demo_clean]
  note th2 = invalid_label_rejected[of "[]" "scripted new_branch_git" demo_config demo_options
      "demo_world both_worktrees" demo_clean]
  have bad: "str_includes ''../etc'' ''..''" by simp
  from th1 bad obtain m1 where m1: "switchToWorktree (scripted new_branch_git) demo_config
      (demo_options\<lparr>sw_label := Some ''../etc''\<rparr>) (demo_world both_worktrees) =
         (Inr [\<lparr>repoName = [], success = False, message = m1, status = error\<rparr>], demo_world both_worktrees)"
    by blast
  from th2 obtain m2 where m2: "clean (scripted new_branch_git) demo_config (demo_clean\<lparr>cl_label := []\<rparr>)
      (demo_world both_worktrees) =
         ([\<lparr>repoName = [], success = False, message = m2, status = error\<rparr>], demo_world both_worktrees)"
    by blast
  have "map_sum id (map message) (fst (switchToWorktree (scripted new_branch_git) demo_config
      (demo_options\<lparr>sw_label := Some ''../etc''\<rparr>) (demo_world both_worktrees)))
      = Inr [''Invalid label: cannot contain path separators or traversal sequences'']"
    by code_simp
  with m1 have 1: "m1 = ''Invalid label: cannot contain path separators or traversal sequences''" by simp
  have "map message (fst (clean (scripted new_branch_git) demo_config (demo_clean\<lparr>cl_label := []\<rparr>)
      (demo_world both_worktrees))) = [''Invalid label: cannot be empty'']"
    by code_simp
  with m2 have 2: "m2 = ''Invalid label: cannot be empty''" by simp
  from m1 m2 show ?thesis unfolding 1 2 by blast
qed

subsection \<open>The label folder must lie below the worktree root\<close>

text \<open>
  The segments of a path that is put together with a slash are the segments of its two
  parts; the segments that \<^verbatim>\<open>path.normalize\<close> keeps are plain, so a normalised path ends
  with a slash only when the path it came from did, or when it is the root.  With these
  facts the test of \<^verbatim>\<open>clean\<close> on strings is shown to imply the relation on segments.
\<close>

lemma split_on_append: "split_on d (a @ d # b) = split_on d a @ split_on d b"
proof (induction a)
  case Nil
  show ?case by simp
next
  case (Cons c a)
  obtain x xs where x: "split_on d a = x # xs"
    using split_on_nonempty[of d a] by (cases "split_on d a") auto
  show ?case using Cons x by simp
qed

lemma split_on_pieces: "x \<in> set (split_on d s) \<Longrightarrow> d \<notin> set x"
proof (induction s arbitrary: x)
  case Nil
  then show ?case by simp
next
  case (Cons c s)
  obtain y ys where y: "split_on d s = y # ys"
    using split_on_nonempty[of d s] by (cases "split_on d s") auto
  show ?case
  proof (cases "c = d")
    case True
    with Cons show ?thesis by auto
  next
    case False
    with Cons.prems y have "x = c # y \<or> x \<in> set ys" by simp
    then show ?thesis using Cons.IH[of y] Cons.IH[of x] y False by auto
  qed
qed

lemma segments_append: "segments (a @ ''/'' @ b) = segments a @ segments b"
  by (simp add: segments_def split_on_append)

lemma segments_empty: "segments b = [] \<Longrightarrow> \<forall>c \<in> set b. c = CHR ''/''"
proof (induction b)
  case Nil
  then show ?case by simp
next
  case (Cons c b)
  obtain y ys where y: "split_on (CHR ''/'') b = y # ys"
    using split_on_nonempty[of "CHR ''/''" b] by (cases "split_on (CHR ''/'') b") auto
  show ?case
  proof (cases "c = CHR ''/''")
    case True
    with Cons show ?thesis by (simp add: segments_def)
  next
    case False
    with Cons.prems y show ?thesis by (simp add: segments_def)
  qed
qed

lemma segments_last: "b \<noteq> [] \<Longrightarrow> last b \<noteq> CHR ''/'' \<Longrightarrow> segments b \<noteq> []"
  using segments_empty[of b] last_in_set[of b] by blast

lemma plain_segment_last: "plain_segment x \<Longrightarrow> last x \<noteq> CHR ''/''"
  by (metis last_in_set plain_segment_def)

lemma normalize_segments_plain:
  assumes "\<forall>x \<in> set res. plain_segment x" and "\<forall>x \<in> set segs. CHR ''/'' \<notin> set x"
  shows "\<forall>x \<in> set (normalize_segments allow res segs). plain_segment x"
  using assms
proof (induction segs arbitrary: res)
  case Nil
  then show ?case by simp
next
  case (Cons seg segs)
  have segs: "\<forall>x \<in> set segs. CHR ''/'' \<notin> set x" using Cons.prems(2) by simp
  have step: "\<forall>x \<in> set (normalize_segments allow r segs). plain_segment x"
    if "\<forall>x \<in> set r. plain_segment x" for r
    using Cons.IH[OF that segs] .
  have dots: "plain_segment ''..''" by (simp add: plain_segment_def)
  show ?case
  proof (cases "seg = [] \<or> seg = ''.''")
    case True
    then have eq: "normalize_segments allow res (seg # segs) = normalize_segments allow res segs"
      by simp
    from step[OF Cons.prems(1)] show ?thesis unfolding eq .
  next
    case False
    note notskip = this
    show ?thesis
    proof (cases "seg = ''..''")
      case True
      note up = this
      show ?thesis
      proof (cases res)
        case Nil
        have eq: "normalize_segments allow res (seg # segs) =
                  normalize_segments allow (if allow then [''..''] else []) segs"
          using Nil up by simp
        have "\<forall>x \<in> set (if allow then [''..''] else []). plain_segment x" using dots by simp
        from step[OF this] show ?thesis unfolding eq .
      next
        case (Cons lastSegment others)
        note res = this
        show ?thesis
        proof (cases "lastSegment = ''..''")
          case True
          have eq: "normalize_segments allow res (seg # segs) =
                    normalize_segments allow (if allow then ''..'' # res else res) segs"
            using res up True by simp
          have "\<forall>x \<in> set (if allow then ''..'' # res else res). plain_segment x"
            using dots Cons.prems(1) by simp
          from step[OF this] show ?thesis unfolding eq .
        next
          case False
          have eq: "normalize_segments allow res (seg # segs) = normalize_segments allow others segs"
            using res up False by simp
          have "\<forall>x \<in> set others. plain_segment x" using Cons.prems(1) res by simp
          from step[OF this] show ?thesis unfolding eq .
        qed
      qed
    next
      case False
      have eq: "normalize_segments allow res (seg # segs) = normalize_segments allow (seg # res) segs"
        using notskip False by simp
      have "plain_segment seg" using notskip Cons.prems(2) by (simp add: plain_segment_def)
      then have "\<forall>x \<in> set (seg # res). plain_segment x" using Cons.prems(1) by simp
      from step[OF this] show ?thesis unfolding eq .
    qed
  qed
qed

lemma join_with_last:
  assumes "\<forall>x \<in> set xs. plain_segment x" and "xs \<noteq> []"
  shows "join_with ''/'' xs \<noteq> [] \<and> last (join_with ''/'' xs) \<noteq> CHR ''/''"
  using assms
proof (induction "''/''" xs rule: join_with.induct)
  case 1
  then show ?case by simp
next
  case (2 x)
  then show ?case using plain_segment_last[of x] by (simp add: plain_segment_def)
next
  case (3 x y ys)
  then have "join_with ''/'' (y # ys) \<noteq> [] \<and> last (join_with ''/'' (y # ys)) \<noteq> CHR ''/''" by simp
  then show ?case by simp
qed

lemma join_with_Nil: "join_with d xs = [] \<Longrightarrow> \<forall>x \<in> set xs. plain_segment x \<Longrightarrow> xs = []"
  by (induction d xs rule: join_with.induct) (auto simp: plain_segment_def)

lemma path_normalize_nonempty: "path_normalize x \<noteq> []"
  by (auto simp: path_normalize_def Let_def)

lemma path_normalize_last:
  assumes "last (path_normalize x) = CHR ''/''"
  shows "(x \<noteq> [] \<and> last x = CHR ''/'') \<or> path_normalize x = ''/''"
proof (cases "x = []")
  case True
  then show ?thesis using assms by (simp add: path_normalize_def)
next
  case False
  let ?segs = "normalize_segments (hd x \<noteq> CHR ''/'') [] (split_on (CHR ''/'') x)"
  have plain: "\<forall>s \<in> set ?segs. plain_segment s"
    by (rule normalize_segments_plain) (auto dest: split_on_pieces)
  show ?thesis
  proof (cases "last x = CHR ''/''")
    case True
    with False show ?thesis by simp
  next
    case notrail: False
    show ?thesis
    proof (cases "join_with ''/'' ?segs = []")
      case True
      then show ?thesis using assms False notrail
        by (simp add: path_normalize_def Let_def split: if_splits)
    next
      case nonempty: False
      then have "?segs \<noteq> []" by auto
      with plain have "last (join_with ''/'' ?segs) \<noteq> CHR ''/''" using join_with_last by blast
      then show ?thesis using assms False notrail nonempty
        by (simp add: path_normalize_def Let_def split: if_splits)
    qed
  qed
qed

lemma str_includes_char: "str_includes l [c] = (c \<in> set l)"
  by (induction l) auto

lemma valid_label_plain:
  "validateNoPathTraversal l ''label'' = None \<Longrightarrow> plain_segment l"
  by (auto simp: validateNoPathTraversal_def plain_segment_def str_includes_char split: if_splits)

lemma label_folder_last:
  assumes "plain_segment l"
  shows "last (path_normalize (path_join [wd, l])) = CHR ''/'' \<Longrightarrow> path_normalize (path_join [wd, l]) = ''/''"
proof -
  assume a: "last (path_normalize (path_join [wd, l])) = CHR ''/''"
  let ?joined = "join_with ''/'' (filter (\<lambda>arg. length arg > 0) [wd, l])"
  have j: "?joined \<noteq> [] \<and> last ?joined \<noteq> CHR ''/''"
    using assms plain_segment_last[OF assms] by (cases "wd = []") (simp_all add: plain_segment_def)
  then have pj: "path_join [wd, l] = path_normalize ?joined"
    by (simp add: path_join_def Let_def)
  from path_normalize_last[OF a]
  have "last (path_join [wd, l]) = CHR ''/'' \<or> path_normalize (path_join [wd, l]) = ''/''" by blast
  then show ?thesis
  proof
    assume "last (path_join [wd, l]) = CHR ''/''"
    then have "last (path_normalize ?joined) = CHR ''/''" by (simp only: pj)
    from path_normalize_last[OF this] j have "path_normalize ?joined = ''/''" by blast
    then have "path_join [wd, l] = ''/''" by (simp only: pj)
    then show ?thesis by (simp add: path_normalize_def)
  qed
qed

lemma segments_extend:
  assumes "np = nr @ ''/'' @ rest" and "nr \<noteq> []" and "np = ''/'' \<or> last np \<noteq> CHR ''/''"
  shows "strict_prefix (segments nr) (segments np)"
proof -
  have "length np \<ge> 2" using assms(1,2) by (cases nr) simp_all
  then have "np \<noteq> ''/''" by auto
  with assms(3) have nl: "last np \<noteq> CHR ''/''" by blast
  have rest: "rest \<noteq> []" using nl assms(1) by auto
  then have "last rest \<noteq> CHR ''/''" using nl assms(1) by simp
  then have "segments rest \<noteq> []" using rest segments_last by blast
  moreover have "segments np = segments nr @ segments rest"
    using segments_append[of nr rest] assms(1) by simp
  ultimately show ?thesis by (auto simp: strict_prefix_def prefix_def)
qed

lemma containment_test_sound:
  assumes "validateNoPathTraversal l ''label'' = None"
    and "startsWith (path_normalize (path_join [wd, l])) (path_normalize wd @ path_sep)"
  shows "descendant wd (path_join [wd, l])"
proof -
  from assms(2) obtain rest where np: "path_normalize (path_join [wd, l]) = path_normalize wd @ ''/'' @ rest"
    by (auto simp: startsWith_def path_sep_def prefix_def)
  have nr: "path_normalize wd \<noteq> []" by (rule path_normalize_nonempty)
  have "path_normalize (path_join [wd, l]) = ''/'' \<or> last (path_normalize (path_join [wd, l])) \<noteq> CHR ''/''"
    using label_folder_last[OF valid_label_plain[OF assms(1)], of wd] by blast
  from segments_extend[OF np nr this]
  have "strict_prefix (segments (path_normalize wd)) (segments (path_normalize (path_join [wd, l])))" .
  moreover have "path_isAbsolute (path_normalize wd) = path_isAbsolute (path_normalize (path_join [wd, l]))"
    unfolding np using nr by (cases "path_normalize wd") (simp_all add: path_isAbsolute_def)
  ultimately show ?thesis by (simp only: descendant_def)
qed

text \<open>
  The test of \<^verbatim>\<open>clean\<close> on the normalised strings: when it fails, nothing but the builds
  of the label has been touched.
\<close>

lemma clean_containment_test_fails:
  assumes "validateNoPathTraversal (cl_label options) ''label'' = None"
    and "\<not> startsWith (path_normalize (path_join [worktrees_dir config, cl_label options]))
                       (path_normalize (worktrees_dir config) @ path_sep)"
  shows "fst (clean e config options w) =
           [\<lparr>repoName = [], success = False, message = ''Security error: path traversal detected'',
             status = error\<rparr>] \<and>
         files (snd (clean e config options w)) = files w \<and>
         git_log (snd (clean e config options w)) = git_log w \<and>
         repo_state (snd (clean e config options w)) = repo_state w"
  using assms by (simp add: clean_def Let_def split: prod.splits)

text \<open>
  Claim C3.  After the label has passed the character checks, \<^verbatim>\<open>clean\<close> normalises the
  label folder and the worktree root and tests that the folder is the root, the separator
  and something more.  That test lets through only folders that lie below the worktree
  root (\<open>containment_test_sound\<close>).  So when the label folder does not lie below the root,
  \<^verbatim>\<open>clean\<close> returns the single result \<^verbatim>\<open>Security error: path traversal detected\<close> with
  status \<^verbatim>\<open>error\<close>, and the file system, the git log and the state of the repositories
  are as they were (the builds of the label have been killed before the test).  The label
  \<^verbatim>\<open>.\<close> is such a case: it passes the character checks and its folder is the worktree
  root itself.
\<close>

theorem clean_refuses_outside_root:
  assumes "validateNoPathTraversal (cl_label options) ''label'' = None"
    and "\<not> descendant (worktrees_dir config) (path_join [worktrees_dir config, cl_label options])"
  shows "fst (clean e config options w) =
           [\<lparr>repoName = [], success = False, message = ''Security error: path traversal detected'',
             status = error\<rparr>] \<and>
         files (snd (clean e config options w)) = files w \<and>
         git_log (snd (clean e config options w)) = git_log w \<and>
         repo_state (snd (clean e config options w)) = repo_state w"
proof -
  have "\<not> startsWith (path_normalize (path_join [worktrees_dir config, cl_label options]))
                     (path_normalize (worktrees_dir config) @ path_sep)"
    using containment_test_sound[OF assms(1)] assms(2) by blast
  from clean_containment_test_fails[OF assms(1) this] show ?thesis .
qed

lemma dot_label:
  "validateNoPathTraversal (cl_label (demo_clean\<lparr>cl_label := ''.''\<rparr>)) ''label'' = None"
  "\<not> descendant (worktrees_dir demo_config)
       (path_join [worktrees_dir demo_config, cl_label (demo_clean\<lparr>cl_label := ''.''\<rparr>)])"
  "path_join [worktrees_dir demo_config, cl_label (demo_clean\<lparr>cl_label := ''.''\<rparr>)] = ''/wt''"
  "files (demo_world both_worktrees) = both_worktrees"
  by code_simp+

theorem clean_refuses_outside_root_witness:
  "path_join [worktrees_dir demo_config, cl_label (demo_clean\<lparr>cl_label := ''.''\<rparr>)] = ''/wt'' \<and>
   fst (clean (scripted new_branch_git) demo_config (demo_clean\<lparr>cl_label := ''.''\<rparr>) (demo_world both_worktrees)) =
     [\<lparr>repoName = [], success = False, message = ''Security error: path traversal detected'',
       status = error\<rparr>] \<and>
   files (snd (clean (scripted new_branch_git) demo_config (demo_clean\<lparr>cl_label := ''.''\<rparr>)
                 (demo_world both_worktrees))) = both_worktrees"
  using clean_refuses_outside_root[OF dot_label(1) dot_label(2), of "scripted new_branch_git" "demo_world both_worktrees"]
    dot_label(3)
  unfolding dot_label(4) by blast

subsection \<open>The test of the label folder, on strings and on segments\<close>

text \<open>
  The test of \<^verbatim>\<open>clean\<close> lets through only what lies below the root
  (\<open>containment_test_sound\<close>).  It lets through all of it when the normalised root does not
  end with a slash, and nothing at all when it does: \<^verbatim>\<open>path.normalize\<close> keeps a slash at
  the end of a path, the test puts the separator after the normalised root, and no
  normalised path has two slashes in a row.
\<close>

lemma split_on_none: "d \<notin> set x \<Longrightarrow> split_on d x = [x]"
  by (induction x) auto

lemma split_on_join:
  assumes "\<forall>s \<in> set segs. plain_segment s" and "segs \<noteq> []"
  shows "split_on (CHR ''/'') (join_with ''/'' segs) = segs"
  using assms
proof (induction "''/''" segs rule: join_with.induct)
  case 1
  then show ?case by simp
next
  case (2 x)
  then show ?case by (simp add: plain_segment_def split_on_none)
next
  case (3 x y ys)
  have "split_on (CHR ''/'') (x @ CHR ''/'' # join_with ''/'' (y # ys)) =
        split_on (CHR ''/'') x @ split_on (CHR ''/'') (join_with ''/'' (y # ys))"
    by (rule split_on_append)
  moreover have "split_on (CHR ''/'') x = [x]" using 3(2) by (simp add: plain_segment_def split_on_none)
  moreover have "split_on (CHR ''/'') (join_with ''/'' (y # ys)) = y # ys" using 3 by simp
  ultimately show ?case by simp
qed

lemma interior_of_frame:
  fixes segs :: "string list"
  assumes "e1 = [] \<or> e1 = [[]]" and "e2 = [] \<or> e2 = [[]]"
  shows "set (butlast (tl (e1 @ segs @ e2))) \<subseteq> set segs"
proof -
  have a: "set (butlast xs) \<subseteq> set xs" for xs :: "string list" by (auto dest: in_set_butlastD)
  have b: "set (tl xs) \<subseteq> set xs" for xs :: "string list" by (cases xs) auto
  from assms show ?thesis
  proof (elim disjE)
    assume "e1 = []" "e2 = []"
    then show ?thesis using a[of "tl segs"] b[of segs] by auto
  next
    assume "e1 = []" "e2 = [[]]"
    then show ?thesis using b[of segs] by (cases segs) (auto simp: butlast_append)
  next
    assume "e1 = [[]]" "e2 = []"
    then show ?thesis using a[of segs] by auto
  next
    assume "e1 = [[]]" "e2 = [[]]"
    then show ?thesis by (auto simp: butlast_append)
  qed
qed

lemma split_on_trail: "split_on d (s @ [d]) = split_on d s @ [[]]"
  using split_on_append[of d s "[]"] by simp

lemma path_normalize_interior:
  "\<forall>piece \<in> set (butlast (tl (split_on (CHR ''/'') (path_normalize x)))). piece \<noteq> []"
proof (cases "x = []")
  case True
  then show ?thesis by (simp add: path_normalize_def)
next
  case False
  define segs where "segs = normalize_segments (hd x \<noteq> CHR ''/'') [] (split_on (CHR ''/'') x)"
  have plain: "\<forall>s \<in> set segs. plain_segment s"
    unfolding segs_def by (rule normalize_segments_plain) (auto dest: split_on_pieces)
  have n: "path_normalize x =
      (if join_with ''/'' segs = []
       then (if hd x = CHR ''/'' then ''/'' else if last x = CHR ''/'' then ''./'' else ''.'')
       else (if hd x = CHR ''/'' then ''/'' else []) @ join_with ''/'' segs @
            (if last x = CHR ''/'' then ''/'' else []))"
    unfolding path_normalize_def Let_def segs_def by (simp only: False if_False)
  show ?thesis
  proof (cases "segs = []")
    case True
    then show ?thesis unfolding n by simp
  next
    case nonempty: False
    then have j: "join_with ''/'' segs \<noteq> []" using plain join_with_Nil by blast
    define e1 :: "string list" where "e1 = (if hd x = CHR ''/'' then [[]] else [])"
    define e2 :: "string list" where "e2 = (if last x = CHR ''/'' then [[]] else [])"
    have sj: "split_on (CHR ''/'') (join_with ''/'' segs) = segs"
      using plain nonempty by (rule split_on_join)
    have "split_on (CHR ''/'') (path_normalize x) = e1 @ segs @ e2"
      unfolding n e1_def e2_def using j sj split_on_trail[of "CHR ''/''" "join_with ''/'' segs"]
      by (cases "hd x = CHR ''/''"; cases "last x = CHR ''/''") simp_all
    moreover have "set (butlast (tl (e1 @ segs @ e2))) \<subseteq> set segs"
      by (rule interior_of_frame) (simp_all add: e1_def e2_def)
    ultimately show ?thesis using plain by (auto simp: plain_segment_def)
  qed
qed

lemma double_slash_interior:
  "[] \<in> set (butlast (tl (split_on (CHR ''/'') (a @ ''//'' @ b))))"
proof -
  obtain x xs where x: "split_on (CHR ''/'') a = x # xs"
    using split_on_nonempty[of "CHR ''/''" a] by (cases "split_on (CHR ''/'') a") auto
  obtain y ys where y: "split_on (CHR ''/'') b = y # ys"
    using split_on_nonempty[of "CHR ''/''" b] by (cases "split_on (CHR ''/'') b") auto
  have "split_on (CHR ''/'') (a @ CHR ''/'' # (CHR ''/'' # b)) =
        split_on (CHR ''/'') a @ split_on (CHR ''/'') (CHR ''/'' # b)"
    by (rule split_on_append)
  then have "split_on (CHR ''/'') (a @ ''//'' @ b) = (x # xs) @ [] # y # ys"
    using x y by simp
  then show ?thesis by (simp add: butlast_append)
qed

lemma root_with_separator_refuses:
  assumes "last (path_normalize wd) = CHR ''/''"
  shows "\<not> startsWith (path_normalize p) (path_normalize wd @ path_sep)"
proof
  assume "startsWith (path_normalize p) (path_normalize wd @ path_sep)"
  then obtain rest where np: "path_normalize p = path_normalize wd @ ''/'' @ rest"
    by (auto simp: startsWith_def path_sep_def prefix_def)
  have "path_normalize wd \<noteq> []" by (rule path_normalize_nonempty)
  with assms obtain front where "path_normalize wd = front @ ''/''"
    by (metis append_butlast_last_id)
  with np have "path_normalize p = front @ ''//'' @ rest" by simp
  then have "[] \<in> set (butlast (tl (split_on (CHR ''/'') (path_normalize p))))"
    using double_slash_interior[of front rest] by simp
  with path_normalize_interior[of p] show False by blast
qed


lemma normalize_segments_keeps:
  assumes "\<forall>x \<in> set res. Q x"
    and "\<forall>x \<in> set segs. x \<noteq> [] \<and> x \<noteq> ''.'' \<and> x \<noteq> ''..'' \<longrightarrow> Q x"
    and "Q ''..''"
  shows "\<forall>x \<in> set (normalize_segments allow res segs). Q x"
  using assms(1,2)
proof (induction segs arbitrary: res)
  case Nil
  then show ?case by simp
next
  case (Cons seg segs)
  have segs: "\<forall>x \<in> set segs. x \<noteq> [] \<and> x \<noteq> ''.'' \<and> x \<noteq> ''..'' \<longrightarrow> Q x"
    using Cons.prems(2) by simp
  have step: "\<forall>x \<in> set (normalize_segments allow r segs). Q x"
    if "\<forall>x \<in> set r. Q x" for r
    using Cons.IH[OF that segs] .
  show ?case
  proof (cases "seg = [] \<or> seg = ''.''")
    case True
    then have eq: "normalize_segments allow res (seg # segs) = normalize_segments allow res segs"
      by simp
    from step[OF Cons.prems(1)] show ?thesis unfolding eq .
  next
    case False
    note notskip = this
    show ?thesis
    proof (cases "seg = ''..''")
      case True
      note up = this
      show ?thesis
      proof (cases res)
        case Nil
        have eq: "normalize_segments allow res (seg # segs) =
                  normalize_segments allow (if allow then [''..''] else []) segs"
          using Nil up by simp
        have "\<forall>x \<in> set (if allow then [''..''] else []). Q x" using assms(3) by simp
        from step[OF this] show ?thesis unfolding eq .
      next
        case (Cons lastSegment others)
        note res = this
        show ?thesis
        proof (cases "lastSegment = ''..''")
          case True
          have eq: "normalize_segments allow res (seg # segs) =
                    normalize_segments allow (if allow then ''..'' # res else res) segs"
            using res up True by simp
          have "\<forall>x \<in> set (if allow then ''..'' # res else res). Q x"
            using assms(3) Cons.prems(1) by simp
          from step[OF this] show ?thesis unfolding eq .
        next
          case False
          have eq: "normalize_segments allow res (seg # segs) = normalize_segments allow others segs"
            using res up False by simp
          have "\<forall>x \<in> set others. Q x" using Cons.prems(1) res by simp
          from step[OF this] show ?thesis unfolding eq .
        qed
      qed
    next
      case False
      have eq: "normalize_segments allow res (seg # segs) = normalize_segments allow (seg # res) segs"
        using notskip False by simp
      have "Q seg" using notskip False Cons.prems(2) by simp
      then have "\<forall>x \<in> set (seg # res). Q x" using Cons.prems(1) by simp
      from step[OF this] show ?thesis unfolding eq .
    qed
  qed
qed

lemma path_normalize_form:
  "path_normalize x \<in> {''.'', ''./'', ''/''} \<or>
   (\<exists>pre segs post. path_normalize x = pre @ join_with ''/'' segs @ post \<and> framed pre segs post)"
proof (cases "x = []")
  case True
  then show ?thesis by (simp add: path_normalize_def)
next
  case False
  define segs where "segs = normalize_segments (hd x \<noteq> CHR ''/'') [] (split_on (CHR ''/'') x)"
  have plain: "\<forall>s \<in> set segs. plain_segment s"
    unfolding segs_def by (rule normalize_segments_plain) (auto dest: split_on_pieces)
  have nodot: "\<forall>s \<in> set segs. s \<noteq> ''.''"
    unfolding segs_def by (rule normalize_segments_keeps) auto
  have n: "path_normalize x =
      (if join_with ''/'' segs = []
       then (if hd x = CHR ''/'' then ''/'' else if last x = CHR ''/'' then ''./'' else ''.'')
       else (if hd x = CHR ''/'' then ''/'' else []) @ join_with ''/'' segs @
            (if last x = CHR ''/'' then ''/'' else []))"
    unfolding path_normalize_def Let_def segs_def by (simp only: False if_False)
  show ?thesis
  proof (cases "segs = []")
    case True
    then show ?thesis unfolding n by simp
  next
    case nonempty: False
    then have j: "join_with ''/'' segs \<noteq> []" using plain join_with_Nil by blast
    have "framed (if hd x = CHR ''/'' then ''/'' else []) segs (if last x = CHR ''/'' then ''/'' else [])"
      using nonempty plain nodot by (simp add: framed_def list_all_iff)
    moreover have "path_normalize x = (if hd x = CHR ''/'' then ''/'' else []) @ join_with ''/'' segs @
            (if last x = CHR ''/'' then ''/'' else [])"
      using n j by simp
    ultimately show ?thesis by blast
  qed
qed

lemma segments_plain: "plain_segment x \<Longrightarrow> segments x = [x]"
  by (simp add: segments_def plain_segment_def split_on_none)

lemma segments_join:
  assumes "\<forall>s \<in> set segs. plain_segment s" and "segs \<noteq> []"
  shows "segments (join_with ''/'' segs) = segs"
  using split_on_join[OF assms] assms(1) by (simp add: segments_def plain_segment_def filter_id_conv)

lemma segments_framed:
  assumes "framed pre segs post"
  shows "segments (pre @ join_with ''/'' segs @ post) = segs"
proof -
  from assms have plain: "\<forall>s \<in> set segs. plain_segment s" and ne: "segs \<noteq> []"
    by (auto simp: framed_def list_all_iff)
  have sj: "split_on (CHR ''/'') (join_with ''/'' segs) = segs" using plain ne by (rule split_on_join)
  have f: "filter (\<lambda>seg. seg \<noteq> []) segs = segs"
    using plain by (simp add: filter_id_conv plain_segment_def)
  from assms have "(pre = [] \<or> pre = ''/'') \<and> (post = [] \<or> post = ''/'')" by (simp add: framed_def)
  then show ?thesis
    using sj f split_on_trail[of "CHR ''/''" "join_with ''/'' segs"]
    by (auto simp: segments_def)
qed

lemma absolute_framed:
  assumes "framed pre segs post"
  shows "path_isAbsolute (pre @ join_with ''/'' segs @ post) = (pre = ''/'')"
proof -
  from assms obtain s rest where segs: "segs = s # rest" and s: "plain_segment s"
    by (cases segs) (auto simp: framed_def)
  then obtain c cs where c: "s = c # cs" "c \<noteq> CHR ''/''" by (cases s) (auto simp: plain_segment_def)
  have "\<exists>t. join_with ''/'' segs = c # t" unfolding segs c(1) by (cases rest) simp_all
  then obtain t where "join_with ''/'' segs = c # t" by blast
  moreover from assms have "pre = [] \<or> pre = ''/''" by (simp add: framed_def)
  ultimately show ?thesis using c(2) by (auto simp: path_isAbsolute_def)
qed

lemma join_with_append:
  "xs \<noteq> [] \<Longrightarrow> ys \<noteq> [] \<Longrightarrow> join_with d (xs @ ys) = join_with d xs @ d @ join_with d ys"
proof (induction d xs rule: join_with.induct)
  case (1 d)
  then show ?case by simp
next
  case (2 d x)
  then show ?case by (cases ys) simp_all
next
  case (3 d x y zs)
  then show ?case by simp
qed

lemma containment_test_complete:
  assumes "descendant wd p" and "last (path_normalize wd) \<noteq> CHR ''/''"
  shows "startsWith (path_normalize p) (path_normalize wd @ path_sep)"
proof -
  from assms(1) have ab: "path_isAbsolute (path_normalize wd) = path_isAbsolute (path_normalize p)"
    and sp: "strict_prefix (segments (path_normalize wd)) (segments (path_normalize p))"
    by (simp_all add: descendant_def)
  have special: "segments ''.'' = [''.'']" "segments ''./'' = [''.'']" "segments ''/'' = []"
    by (simp_all add: segments_def)
  from path_normalize_form[of p] consider "path_normalize p \<in> {''.'', ''./'', ''/''}"
    | pre segs post where "path_normalize p = pre @ join_with ''/'' segs @ post" "framed pre segs post"
    by blast
  then show ?thesis
  proof cases
    case 1
    with sp special have "strict_prefix (segments (path_normalize wd)) [''.''] \<or>
        strict_prefix (segments (path_normalize wd)) []" by auto
    then have w: "segments (path_normalize wd) = []" by (auto simp: strict_prefix_def prefix_Cons)
    from path_normalize_form[of wd] show ?thesis
    proof
      assume "path_normalize wd \<in> {''.'', ''./'', ''/''}"
      with w special assms(2) show ?thesis by auto
    next
      assume "\<exists>pre segs post. path_normalize wd = pre @ join_with ''/'' segs @ post \<and> framed pre segs post"
      then obtain pre segs post where "path_normalize wd = pre @ join_with ''/'' segs @ post" "framed pre segs post"
        by blast
      with w segments_framed[of pre segs post] show ?thesis by (simp add: framed_def)
    qed
  next
    case (2 prep segsp postp)
    note np = 2
    have sgp: "segments (path_normalize p) = segsp" using np segments_framed by simp
    from path_normalize_form[of wd] show ?thesis
    proof
      assume "path_normalize wd \<in> {''.'', ''./'', ''/''}"
      with assms(2) have "path_normalize wd = ''.''" by auto
      with sp special sgp have "strict_prefix [''.''] segsp" by simp
      then have "''.'' \<in> set segsp" by (auto simp: strict_prefix_def prefix_def)
      with np(2) show ?thesis by (auto simp: framed_def list_all_iff)
    next
      assume "\<exists>pre segs post. path_normalize wd = pre @ join_with ''/'' segs @ post \<and> framed pre segs post"
      then obtain prew segsw postw where nw: "path_normalize wd = prew @ join_with ''/'' segsw @ postw"
        "framed prew segsw postw" by blast
      have postw: "postw = []" using assms(2) nw by (auto simp: framed_def)
      have sgw: "segments (path_normalize wd) = segsw" using nw segments_framed by simp
      from sp sgw sgp obtain more where more: "segsp = segsw @ more" "more \<noteq> []"
        by (auto simp: strict_prefix_def prefix_def)
      have "prew = prep"
        using ab absolute_framed[OF nw(2)] absolute_framed[OF np(2)] nw(1) np(1) nw(2) np(2)
        by (auto simp: framed_def)
      moreover have "join_with ''/'' segsp = join_with ''/'' segsw @ ''/'' @ join_with ''/'' more"
        unfolding more(1) using nw(2) more(2) by (intro join_with_append) (auto simp: framed_def)
      ultimately have "path_normalize p = path_normalize wd @ ''/'' @ (join_with ''/'' more @ postp)"
        using np(1) nw(1) postw by simp
      then show ?thesis by (simp add: startsWith_def path_sep_def prefix_def)
    qed
  qed
qed


subsection \<open>A label folder that is not there\<close>

text \<open>
  When the label passes the checks, its folder lies below the worktree root, the normalised
  root does not end with a slash and the folder does not exist, \<^verbatim>\<open>clean\<close> returns exactly
  one result: empty repository name, status \<^verbatim>\<open>not_found\<close>, \<^verbatim>\<open>success = false\<close>; so the
  conjunction of the successes of the batch is false.  A worktree path that does not
  exist, inside a label folder that does, gives \<^verbatim>\<open>not_found\<close> with \<^verbatim>\<open>success = true\<close> for
  its repository.
\<close>

lemma clean_reports_missing_folder:
  assumes "validateNoPathTraversal (cl_label options) ''label'' = None"
    and "descendant (worktrees_dir config) (path_join [worktrees_dir config, cl_label options])"
    and "last (path_normalize (worktrees_dir config)) \<noteq> CHR ''/''"
    and "\<not> existsSync (files w) (path_join [worktrees_dir config, cl_label options])"
  shows "fst (clean e config options w) =
           [\<lparr>repoName = [], success = False,
             message = ''No worktree directory found at '' @ path_join [worktrees_dir config, cl_label options],
             status = not_found\<rparr>]"
    and "\<not> list_all success (fst (clean e config options w))"
    and "\<not> existsSync (files w') worktreePath \<Longrightarrow>
            cleanWorktree e repo baseRepoPath worktreePath force dryRun deleteBranches w' =
              (\<lparr>repoName = repo, success = True,
                message = ''Path not found (already deleted): '' @ worktreePath, status = not_found\<rparr>, w')"
  using assms(1,4) containment_test_complete[OF assms(2,3)]
  by (simp_all add: clean_def cleanWorktree_def Let_def split: prod.splits)

text \<open>With a root whose normal form ends with a slash, every valid label is refused.\<close>

lemma slash_root_refuses_every_label:
  assumes "validateNoPathTraversal (cl_label options) ''label'' = None"
    and "last (path_normalize (worktrees_dir config)) = CHR ''/''"
  shows "fst (clean e config options w) =
           [\<lparr>repoName = [], success = False, message = ''Security error: path traversal detected'',
             status = error\<rparr>]"
  using clean_containment_test_fails[OF assms(1) root_with_separator_refuses[OF assms(2)]] by blast

text \<open>
  Claim C10 holds for a root written without a slash at its end, and fails for a root
  written with one.  With the root \<^verbatim>\<open>/wt/\<close> and the label \<^verbatim>\<open>gone\<close>, a valid label whose
  folder \<^verbatim>\<open>/wt/gone\<close> lies below the root and does not exist, \<^verbatim>\<open>clean\<close> returns the security
  error and not \<^verbatim>\<open>not_found\<close>.
\<close>

theorem missing_folder_below_slash_root:
  "validateNoPathTraversal ''gone'' ''label'' = None \<and>
   path_join [worktrees_dir slash_config, ''gone''] = ''/wt/gone'' \<and>
   descendant (worktrees_dir slash_config) (path_join [worktrees_dir slash_config, ''gone'']) \<and>
   existsSync (files (demo_world label_folder_only)) ''/wt/gone'' = False \<and>
   clean (scripted new_branch_git) slash_config (demo_clean\<lparr>cl_label := ''gone''\<rparr>)
      (demo_world label_folder_only) =
     ([\<lparr>repoName = [], success = False, message = ''Security error: path traversal detected'',
        status = error\<rparr>], demo_world label_folder_only)"
  by code_simp

subsection \<open>Removing the git worktree\<close>

lemma existsSync_rmSync: "\<not> existsSync (rmSync p f) p"
  by (auto simp: existsSync_def rmSync_def map_of_eq_None_iff)

lemma removeWorktree_force:
  "removeWorktree e baseRepoPath p True w =
     rethrow ''remove-worktree'' (git e baseRepoPath (Raw [''worktree'', ''remove'', ''--force'', p]) w)"
  by (simp add: removeWorktree_def)

text \<open>
  Claim C8 says that \<^verbatim>\<open>removeWorktree\<close> gets the force flag of the caller.  It gets
  \<^verbatim>\<open>true\<close>, always: with the caller's flag \<^verbatim>\<open>false\<close>, cleaning a git worktree runs
  \<^verbatim>\<open>git worktree remove --force\<close>, where \<^verbatim>\<open>removeWorktree\<close> with the flag \<^verbatim>\<open>false\<close> runs
  \<^verbatim>\<open>git worktree remove\<close>.
\<close>

theorem remove_flag_counterexample:
  "git_log (snd (cleanWorktree (scripted local_branch_git) ''app-ios'' ''/r/ios'' ''/wt/feat/app-ios''
                   False False False (demo_world one_worktree))) =
     [(''/r/ios'', Raw [''worktree'', ''remove'', ''--force'', ''/wt/feat/app-ios''])] \<and>
   git_log (snd (removeWorktree (scripted local_branch_git) ''/r/ios'' ''/wt/feat/app-ios'' False
                   (demo_world one_worktree))) =
     [(''/r/ios'', Raw [''worktree'', ''remove'', ''/wt/feat/app-ios''])]"
  by code_simp

lemma delete_directory_deletes:
  assumes "\<forall>f. rm_error e worktreePath f = None"
  shows "\<exists>r w'. delete_directory e repo baseRepoPath worktreePath dryRun deleteBranches branchName w = (Inr r, w') \<and>
           status r = deleted \<and> success r \<and>
           (\<not> deleteBranches \<longrightarrow> \<not> existsSync (files w') worktreePath)"
proof -
  obtain d w3 where dd: "(if isIOSProject (files w) worktreePath
             then cleanIOSDerivedData e worktreePath dryRun w else (None, w)) = (d, w3)"
    by (cases "if isIOSProject (files w) worktreePath
             then cleanIOSDerivedData e worktreePath dryRun w else (None, w)")
  have rmok: "rm e worktreePath w3 = Inr (w3\<lparr>files := rmSync worktreePath (files w3)\<rparr>)"
    using assms by (simp add: rm_def)
  show ?thesis
    unfolding delete_directory_def dd
    by (auto simp: rmok Let_def existsSync_rmSync split: prod.splits sum.splits)
qed

text \<open>
  Claim C8, amended.  When the path is a git worktree and the call is no dry run,
  \<^verbatim>\<open>cleanWorktree\<close> removes the worktree with \<^verbatim>\<open>git worktree remove --force\<close>, whatever the
  force flag of the caller.  If that command fails and the caller's flag is false, the
  result is \<^verbatim>\<open>error\<close> with the message of the failure and the world is the one git left:
  the directory is not deleted.  If the caller's flag is true the deletion goes on from
  the world git left: unless \<^verbatim>\<open>rmSync\<close> is refused, the result is \<^verbatim>\<open>deleted\<close> with
  \<^verbatim>\<open>success = true\<close>, and (when no branch deletion follows) the path is gone from the disk.
\<close>

theorem removal_failure:
  assumes "existsSync (files w) worktreePath"
    and "worktreeExists (files w) worktreePath"
    and "w1 = (if deleteBranches then snd (getCurrentBranch e worktreePath w) else w)"
    and "branchName = (if deleteBranches
                       then (case fst (getCurrentBranch e worktreePath w) of Inl x \<Rightarrow> None | Inr b \<Rightarrow> Some b)
                       else None)"
    and "git e baseRepoPath (Raw [''worktree'', ''remove'', ''--force'', worktreePath]) w1 = (Inl details, w2)"
  shows "cleanWorktree e repo baseRepoPath worktreePath False False deleteBranches w =
           (\<lparr>repoName = repo, success = False,
             message = ''Failed to remove Git worktree: '' @ GitOperationError ''remove-worktree'' details,
             status = error\<rparr>, w2) \<and>
         git_log w2 = git_log w1 @ [(baseRepoPath, Raw [''worktree'', ''remove'', ''--force'', worktreePath])] \<and>
         cleanWorktree e repo baseRepoPath worktreePath True False deleteBranches w =
           (case delete_directory e repo baseRepoPath worktreePath False deleteBranches branchName w2 of
              (Inl err, w') \<Rightarrow>
                (\<lparr>repoName = repo, success = False, message = ''Failed to delete: '' @ err,
                  status = error\<rparr>, w')
            | (Inr r, w') \<Rightarrow> (r, w')) \<and>
         ((\<forall>f. rm_error e worktreePath f = None) \<longrightarrow>
            status (fst (cleanWorktree e repo baseRepoPath worktreePath True False deleteBranches w)) = deleted \<and>
            success (fst (cleanWorktree e repo baseRepoPath worktreePath True False deleteBranches w)) \<and>
            (\<not> deleteBranches \<longrightarrow>
               \<not> existsSync (files (snd (cleanWorktree e repo baseRepoPath worktreePath True False
                                           deleteBranches w))) worktreePath))"
proof -
  obtain r0 wb where gb: "getCurrentBranch e worktreePath w = (r0, wb)"
    by (cases "getCurrentBranch e worktreePath w")
  have rw: "removeWorktree e baseRepoPath worktreePath True w1 =
      (Inl (GitOperationError ''remove-worktree'' details), w2)"
    using assms(5) by (simp add: removeWorktree_force rethrow_def)
  have rwb: "deleteBranches \<Longrightarrow> removeWorktree e baseRepoPath worktreePath True wb =
      (Inl (GitOperationError ''remove-worktree'' details), w2)"
    and rwn: "\<not> deleteBranches \<Longrightarrow> removeWorktree e baseRepoPath worktreePath True w =
      (Inl (GitOperationError ''remove-worktree'' details), w2)"
    using rw assms(3) gb by simp_all
  have bn: "deleteBranches \<Longrightarrow> branchName = (case r0 of Inl x \<Rightarrow> None | Inr b \<Rightarrow> Some b)"
    and bnn: "\<not> deleteBranches \<Longrightarrow> branchName = None"
    using assms(4) gb by simp_all
  have cw: "cleanWorktree e repo baseRepoPath worktreePath force False deleteBranches w =
      (case clean_body e repo baseRepoPath worktreePath force False deleteBranches True w of
         (Inl err, w') \<Rightarrow> (\<lparr>repoName = repo, success = False,
                  message = ''Failed to delete: '' @ err, status = error\<rparr>, w')
       | (Inr r, w') \<Rightarrow> (r, w'))" for force
    using assms(1,2) by (simp add: cleanWorktree_def)
  have refused: "clean_body e repo baseRepoPath worktreePath False False deleteBranches True w =
      (Inr \<lparr>repoName = repo, success = False,
             message = ''Failed to remove Git worktree: '' @ GitOperationError ''remove-worktree'' details,
             status = error\<rparr>, w2)"
    by (cases deleteBranches) (simp_all add: clean_body_def gb rwb rwn split: sum.splits)
  have forced: "clean_body e repo baseRepoPath worktreePath True False deleteBranches True w =
      delete_directory e repo baseRepoPath worktreePath False deleteBranches branchName w2"
    by (cases deleteBranches) (simp_all add: clean_body_def gb rwb rwn bn bnn split: sum.splits)
  have 1: "cleanWorktree e repo baseRepoPath worktreePath False False deleteBranches w =
           (\<lparr>repoName = repo, success = False,
             message = ''Failed to remove Git worktree: '' @ GitOperationError ''remove-worktree'' details,
             status = error\<rparr>, w2)"
    by (simp add: cw refused)
  have 2: "git_log w2 = git_log w1 @ [(baseRepoPath, Raw [''worktree'', ''remove'', ''--force'', worktreePath])]"
    using git_log_git[OF assms(5)] .
  have 3: "cleanWorktree e repo baseRepoPath worktreePath True False deleteBranches w =
           (case delete_directory e repo baseRepoPath worktreePath False deleteBranches branchName w2 of
              (Inl err, w') \<Rightarrow>
                (\<lparr>repoName = repo, success = False, message = ''Failed to delete: '' @ err,
                  status = error\<rparr>, w')
            | (Inr r, w') \<Rightarrow> (r, w'))"
    by (simp add: cw forced)
  have 4: "status (fst (cleanWorktree e repo baseRepoPath worktreePath True False deleteBranches w)) = deleted \<and>
            success (fst (cleanWorktree e repo baseRepoPath worktreePath True False deleteBranches w)) \<and>
            (\<not> deleteBranches \<longrightarrow>
               \<not> existsSync (files (snd (cleanWorktree e repo baseRepoPath worktreePath True False
                                           deleteBranches w))) worktreePath)"
    if norm: "\<forall>f. rm_error e worktreePath f = None"
  proof -
    from delete_directory_deletes[OF norm, of repo baseRepoPath False deleteBranches branchName w2]
    obtain r w' where "delete_directory e repo baseRepoPath worktreePath False deleteBranches branchName w2 = (Inr r, w')"
      "status r = deleted" "success r" "\<not> deleteBranches \<longrightarrow> \<not> existsSync (files w') worktreePath"
      by blast
    then show ?thesis unfolding 3 by (cases deleteBranches) simp_all
  qed
  from 1 2 3 4 show ?thesis by blast
qed

lemma locked_run:
  "existsSync (files (demo_world one_worktree)) ''/wt/feat/app-ios''"
  "worktreeExists (files (demo_world one_worktree)) ''/wt/feat/app-ios''"
  "git (scripted locked_git) ''/r/ios'' (Raw [''worktree'', ''remove'', ''--force'', ''/wt/feat/app-ios'']) (demo_world one_worktree)
     = (Inl ''Error: worktree is locked'',
        (demo_world one_worktree)\<lparr>git_log := [(''/r/ios'', Raw [''worktree'', ''remove'', ''--force'', ''/wt/feat/app-ios''])]\<rparr>)"
  by code_simp+

lemma locked_flags:
  "demo_world one_worktree = (if False then snd (getCurrentBranch (scripted locked_git) ''/wt/feat/app-ios'' (demo_world one_worktree)) else demo_world one_worktree)"
  "None = (if False
           then (case fst (getCurrentBranch (scripted locked_git) ''/wt/feat/app-ios'' (demo_world one_worktree)) of Inl x \<Rightarrow> None | Inr b \<Rightarrow> Some b)
           else None)"
  "\<forall>f. rm_error (scripted locked_git) ''/wt/feat/app-ios'' f = None"
  by (simp_all add: scripted_def)

theorem removal_failure_witness:
  "cleanWorktree (scripted locked_git) ''app-ios'' ''/r/ios'' ''/wt/feat/app-ios'' False False False
      (demo_world one_worktree) =
     (\<lparr>repoName = ''app-ios'', success = False,
       message = ''Failed to remove Git worktree: '' @ GitOperationError ''remove-worktree'' ''Error: worktree is locked'',
       status = error\<rparr>,
      (demo_world one_worktree)\<lparr>git_log := [(''/r/ios'', Raw [''worktree'', ''remove'', ''--force'', ''/wt/feat/app-ios''])]\<rparr>) \<and>
   status (fst (cleanWorktree (scripted locked_git) ''app-ios'' ''/r/ios'' ''/wt/feat/app-ios'' True False False
      (demo_world one_worktree))) = deleted \<and>
   \<not> existsSync (files (snd (cleanWorktree (scripted locked_git) ''app-ios'' ''/r/ios'' ''/wt/feat/app-ios''
      True False False (demo_world one_worktree)))) ''/wt/feat/app-ios''"
  using removal_failure[OF locked_run(1) locked_run(2) locked_flags(1) locked_flags(2) locked_run(3), of "''app-ios''"]
    locked_flags(3)
  by blast

end
